(* ===== verification/State_Machine.thy ===== *)
theory State_Machine
  imports Main
begin

text \<open>
  State machines in general: the states a step relation reaches, the invariance rule and the
  simulation rule, each proved once.  The circuit breaker, the device pool, the kernel
  driver, the kernel module and the concurrent submits interpret these locales.
\<close>

inductive reachable :: "('s \<Rightarrow> bool) \<Rightarrow> ('s \<Rightarrow> 's \<Rightarrow> bool) \<Rightarrow> 's \<Rightarrow> bool" for start step where
  reachable_start: "start s \<Longrightarrow> reachable start step s"
| reachable_step: "reachable start step s \<Longrightarrow> step s s' \<Longrightarrow> reachable start step s'"

lemma reachable_steps:
  assumes "step\<^sup>*\<^sup>* s s'" and "reachable start step s"
  shows "reachable start step s'"
  using assms by (induction rule: rtranclp_induct) (auto intro: reachable_step)

text \<open>A machine with an inductive invariant.\<close>

locale invariant_machine =
  fixes start :: "'s \<Rightarrow> bool" and step :: "'s \<Rightarrow> 's \<Rightarrow> bool" and inv :: "'s \<Rightarrow> bool"
  assumes inv_start: "start s \<Longrightarrow> inv s"
    and inv_step: "inv s \<Longrightarrow> step s s' \<Longrightarrow> inv s'"
begin

lemma inv_steps: "step\<^sup>*\<^sup>* s s' \<Longrightarrow> inv s \<Longrightarrow> inv s'"
  by (induction rule: rtranclp_induct) (auto intro: inv_step)

lemma reachable_inv: "reachable start step s \<Longrightarrow> inv s"
  by (induction rule: reachable.induct) (auto intro: inv_start inv_step)

end

text \<open>A machine whose steps are, under its invariant, steps of an abstract machine.\<close>

locale refined_machine = invariant_machine +
  fixes abs :: "'s \<Rightarrow> 'a" and astep :: "'a \<Rightarrow> 'a \<Rightarrow> bool"
  assumes simulated: "inv s \<Longrightarrow> step s s' \<Longrightarrow> astep (abs s) (abs s')"
begin

lemma reachable_refines:
  "reachable start step s \<Longrightarrow> \<exists>s0. start s0 \<and> astep\<^sup>*\<^sup>* (abs s0) (abs s)"
proof (induction rule: reachable.induct)
  case (reachable_step s s')
  then show ?case
    using simulated [OF reachable_inv] by (blast intro: rtranclp.rtrancl_into_rtrancl)
qed blast

end

end
