(* ===== verification/Prelude.thy ===== *)
theory Prelude
  imports State_Machine "HOL-Library.Word"
begin

text \<open>
  Shared vocabulary of the development: machine integers at their C width, the
  little-endian byte encodings that \<^verbatim>\<open>std::memcpy\<close> between a word and a byte buffer
  performs on the supported hosts, and the byte-addressed memory that models one mapped
  page.  The locale \<open>mem_cell\<close> is the interface every fixed-width cell of that memory
  satisfies (what a load returns after a store, what a store leaves alone); it is
  interpreted on the 32-bit and the 64-bit cells the program uses.
\<close>

unbundle bit_operations_syntax

subsection \<open>Types and fact collections\<close>

type_synonym u8 = "8 word"
type_synonym u32 = "32 word"
type_synonym u64 = "64 word"

text \<open>A mapped shared-memory page, by byte offset from its base.\<close>

type_synonym page = "nat \<Rightarrow> u8"

named_theorems mem_simps \<open>loads after stores at literal offsets\<close>
named_theorems layout_simps \<open>register offsets and bit masks as numerals\<close>

text \<open>C++ exceptions the program throws, by class and \<^verbatim>\<open>what()\<close> text.\<close>

datatype cxx_exn = Invalid_argument string | Runtime_error string

fun what :: "cxx_exn \<Rightarrow> string" where
  "what (Invalid_argument s) = s"
| "what (Runtime_error s) = s"

subsection \<open>Little-endian encodings\<close>

definition le_bytes32 :: "u32 \<Rightarrow> u8 list" where
  "le_bytes32 w = [ucast w, ucast (drop_bit 8 w), ucast (drop_bit 16 w), ucast (drop_bit 24 w)]"

definition le_word32 :: "u8 \<Rightarrow> u8 \<Rightarrow> u8 \<Rightarrow> u8 \<Rightarrow> u32" where
  "le_word32 b0 b1 b2 b3 =
     ucast b0 OR push_bit 8 (ucast b1) OR push_bit 16 (ucast b2) OR push_bit 24 (ucast b3)"

definition le_bytes64 :: "u64 \<Rightarrow> u8 list" where
  "le_bytes64 w = map (\<lambda>i. ucast (drop_bit (8 * i) w)) [0..<8]"

definition le_word64 :: "u8 list \<Rightarrow> u64" where
  "le_word64 bs = foldr (\<lambda>b acc. ucast b OR push_bit 8 acc) bs 0"

text \<open>\<^verbatim>\<open>memcpy(&w, data + off, 4)\<close> from a byte vector that is long enough.\<close>

definition word32_at :: "nat \<Rightarrow> u8 list \<Rightarrow> u32" where
  "word32_at off bs = le_word32 (bs ! off) (bs ! (off + 1)) (bs ! (off + 2)) (bs ! (off + 3))"

lemma le_word32_bytes [simp]:
  "le_word32 (ucast w) (ucast (drop_bit 8 w)) (ucast (drop_bit 16 w)) (ucast (drop_bit 24 w)) = w"
proof (rule bit_word_eqI)
  fix n assume n: "n < LENGTH(32)"
  then consider "n < 8" | "8 \<le> n" "n < 16" | "16 \<le> n" "n < 24" | "24 \<le> n" "n < 32"
    by fastforce
  then show "bit (le_word32 (ucast w) (ucast (drop_bit 8 w)) (ucast (drop_bit 16 w))
      (ucast (drop_bit 24 w))) n = bit w n"
    by cases (auto simp: le_word32_def bit_simps)
qed

lemma length_le_bytes32 [simp]: "length (le_bytes32 w) = 4"
  by (simp add: le_bytes32_def)

lemma word32_at_le_bytes32 [simp]: "word32_at 0 (le_bytes32 w @ bs) = w"
  by (simp add: word32_at_def le_bytes32_def)

lemma word32_at_append [simp]:
  "length as = off \<Longrightarrow> word32_at off (as @ bs) = word32_at 0 bs"
  by (simp add: word32_at_def nth_append numeral_2_eq_2)

lemma word32_at_le_bytes32_Nil [simp]: "word32_at 0 (le_bytes32 w) = w"
  using word32_at_le_bytes32 [of w "[]"] by simp

lemma le_bytes32_le_word32 [simp]:
  "le_bytes32 (le_word32 b0 b1 b2 b3) = [b0, b1, b2, b3]"
proof -
  have "ucast (le_word32 b0 b1 b2 b3) = b0"
    and "ucast (drop_bit 8 (le_word32 b0 b1 b2 b3)) = b1"
    and "ucast (drop_bit 16 (le_word32 b0 b1 b2 b3)) = b2"
    and "ucast (drop_bit 24 (le_word32 b0 b1 b2 b3)) = b3"
    unfolding le_word32_def
    by (rule bit_word_eqI; auto simp: bit_simps dest: bit_imp_le_length)+
  then show ?thesis by (simp add: le_bytes32_def)
qed

lemma le_bytes32_inject: "le_bytes32 v = le_bytes32 w \<longleftrightarrow> v = w"
  by (metis word32_at_le_bytes32_Nil)

lemma length_le_bytes64 [simp]: "length (le_bytes64 w) = 8"
  by (simp add: le_bytes64_def)

lemma le_byte_join: "ucast (ucast w :: u8) OR push_bit 8 (drop_bit 8 w) = (w :: u64)"
proof (rule bit_word_eqI)
  fix n assume "n < LENGTH(64)"
  then show "bit (ucast (ucast w :: u8) OR push_bit 8 (drop_bit 8 w)) n = bit w n"
    by (cases "n < 8") (simp_all add: bit_simps)
qed

lemma le_word64_suffix:
  "k \<le> 8 \<Longrightarrow> le_word64 (map (\<lambda>i. ucast (drop_bit (8 * i) w)) [k..<8]) = drop_bit (8 * k) w"
proof (induction rule: inc_induct)
  case base
  show ?case by (simp add: le_word64_def)
next
  case (step n)
  then show ?case
    using le_byte_join [of "drop_bit (8 * n) w"]
    by (simp add: le_word64_def upt_conv_Cons algebra_simps)
qed

lemma le_word64_bytes [simp]: "le_word64 (le_bytes64 w) = w"
  using le_word64_suffix [of 0 w] by (simp add: le_bytes64_def)

subsection \<open>Byte memory\<close>

definition load_bytes :: "nat \<Rightarrow> nat \<Rightarrow> page \<Rightarrow> u8 list" where
  "load_bytes a n m = map m [a..<a + n]"

definition store_bytes :: "nat \<Rightarrow> u8 list \<Rightarrow> page \<Rightarrow> page" where
  "store_bytes a bs m = (\<lambda>i. if a \<le> i \<and> i < a + length bs then bs ! (i - a) else m i)"

definition load32 :: "nat \<Rightarrow> page \<Rightarrow> u32" where
  "load32 a m = le_word32 (m a) (m (a + 1)) (m (a + 2)) (m (a + 3))"

definition store32 :: "nat \<Rightarrow> u32 \<Rightarrow> page \<Rightarrow> page" where
  "store32 a w = store_bytes a (le_bytes32 w)"

definition load64 :: "nat \<Rightarrow> page \<Rightarrow> u64" where
  "load64 a m = le_word64 (load_bytes a 8 m)"

definition store64 :: "nat \<Rightarrow> u64 \<Rightarrow> page \<Rightarrow> page" where
  "store64 a w = store_bytes a (le_bytes64 w)"

lemma length_load_bytes [simp]: "length (load_bytes a n m) = n"
  by (simp add: load_bytes_def)

lemma load_bytes_store_bytes [simp]: "load_bytes a (length bs) (store_bytes a bs m) = bs"
  by (rule nth_equalityI) (auto simp: load_bytes_def store_bytes_def)

lemma store_bytes_frame: "i < a \<or> a + length bs \<le> i \<Longrightarrow> store_bytes a bs m i = m i"
  by (auto simp: store_bytes_def)

lemma load_bytes_cong:
  "(\<And>i. a \<le> i \<Longrightarrow> i < a + n \<Longrightarrow> m i = m' i) \<Longrightarrow> load_bytes a n m = load_bytes a n m'"
  by (simp add: load_bytes_def)

lemma store_bytes_Nil [simp]: "store_bytes a [] m = m"
  by (rule ext) (auto simp: store_bytes_def)

lemma load_bytes_store_bytes_other:
  "a + n \<le> b \<or> b + length bs \<le> a \<Longrightarrow> load_bytes a n (store_bytes b bs m) = load_bytes a n m"
  by (rule load_bytes_cong) (auto simp: store_bytes_def)

text \<open>
  A cell of the memory: a value of type \<open>'w\<close> of \<open>width\<close> bytes at any offset.  A load sees
  exactly the cell's bytes, a store writes exactly them, and a load returns what was stored.
\<close>

locale mem_cell =
  fixes load :: "nat \<Rightarrow> page \<Rightarrow> 'w"
    and store :: "nat \<Rightarrow> 'w \<Rightarrow> page \<Rightarrow> page"
    and width :: nat
  assumes load_store: "load a (store a w m) = w"
    and store_frame: "i < a \<or> a + width \<le> i \<Longrightarrow> store a w m i = m i"
    and load_cong: "(\<And>i. a \<le> i \<Longrightarrow> i < a + width \<Longrightarrow> m i = m' i) \<Longrightarrow> load a m = load a m'"
begin

lemma load_store_other:
  "b + width \<le> a \<or> a + width \<le> b \<Longrightarrow> load b (store a w m) = load b m"
  by (rule load_cong) (auto simp: store_frame)

lemma load_store_bytes_other:
  "b + width \<le> a \<or> a + length bs \<le> b \<Longrightarrow> load b (store_bytes a bs m) = load b m"
  by (rule load_cong) (auto simp: store_bytes_def)

lemma load_bytes_store_other:
  "b + n \<le> a \<or> a + width \<le> b \<Longrightarrow> load_bytes b n (store a w m) = load_bytes b n m"
  by (rule load_bytes_cong) (auto simp: store_frame)

text \<open>Stores to two disjoint cells are seen independently by any load.\<close>

lemma load_after_two_stores:
  "b + width \<le> a \<or> a + width \<le> b \<Longrightarrow>
     load a (store b v (store a w m)) = w \<and> load b (store a w (store b v m)) = v"
  by (auto simp: load_store_other load_store)

end

interpretation w32: mem_cell load32 store32 4
proof
  show "load32 a (store32 a w m) = w" for a w m
    by (simp add: load32_def store32_def store_bytes_def le_bytes32_def)
  show "i < a \<or> a + 4 \<le> i \<Longrightarrow> store32 a w m i = m i" for i a w m
    by (simp add: store32_def store_bytes_frame)
  show "load32 a m = load32 a m'" if "\<And>i. a \<le> i \<Longrightarrow> i < a + 4 \<Longrightarrow> m i = m' i" for a m m'
    using that [of a] that [of "a + 1"] that [of "a + 2"] that [of "a + 3"]
    by (simp add: load32_def)
qed

interpretation w64: mem_cell load64 store64 8
proof
  show "load64 a (store64 a w m) = w" for a w m
    using load_bytes_store_bytes [of a "le_bytes64 w" m]
    by (simp add: load64_def store64_def)
  show "i < a \<or> a + 8 \<le> i \<Longrightarrow> store64 a w m i = m i" for i a w m
    by (simp add: store64_def store_bytes_frame)
  show "load64 a m = load64 a m'" if "\<And>i. a \<le> i \<Longrightarrow> i < a + 8 \<Longrightarrow> m i = m' i" for a m m'
    using load_bytes_cong [of a 8 m m'] that by (simp add: load64_def)
qed

text \<open>Cells of different width, from the laws of the two cells.\<close>

lemma load32_store64_other:
  "b + 4 \<le> a \<or> a + 8 \<le> b \<Longrightarrow> load32 b (store64 a w m) = load32 b m"
  by (rule w32.load_cong) (auto simp: w64.store_frame)

lemma load64_store32_other:
  "b + 8 \<le> a \<or> a + 4 \<le> b \<Longrightarrow> load64 b (store32 a w m) = load64 b m"
  by (rule w64.load_cong) (auto simp: w32.store_frame)

lemmas mem_cell_simps [mem_simps] =
  w32.load_store w64.load_store
  w32.load_store_other w64.load_store_other
  w32.load_store_bytes_other w64.load_store_bytes_other
  w32.load_bytes_store_other w64.load_bytes_store_other
  load32_store64_other load64_store32_other load_bytes_store_bytes_other

text \<open>Memory cleared by \<^verbatim>\<open>memset\<close>, and memory that was never written.\<close>

lemma load32_memset [mem_simps]:
  "a \<le> b \<Longrightarrow> b + 4 \<le> a + n \<Longrightarrow> load32 b (store_bytes a (replicate n 0) m) = 0"
  by (simp add: load32_def store_bytes_def le_word32_def)

lemma load32_zero [mem_simps]: "load32 a (\<lambda>_. 0) = 0"
  by (simp add: load32_def le_word32_def)

lemma load64_zero [mem_simps]: "load64 a (\<lambda>_. 0) = 0"
  by (simp add: load64_def load_bytes_def le_word64_def eval_nat_numeral)

subsection \<open>Bits of 32-bit registers\<close>

text \<open>Testing, setting and clearing a mask: the idioms of the register protocol.\<close>

lemma mask_set_test [simp]: "((w :: u32) OR b) AND b = b"
  by (rule bit_word_eqI) (auto simp: bit_simps)

lemma mask_clear_test [simp]: "((w :: u32) AND NOT b) AND b = 0"
  by (rule bit_word_eqI) (auto simp: bit_simps)

lemma mask_set_other: "(b :: u32) AND c = 0 \<Longrightarrow> (w OR b) AND c = w AND c"
  by (simp add: word_ao_dist)

lemma mask_clear_other: "(b :: u32) AND c = 0 \<Longrightarrow> (w AND NOT b) AND c = w AND c"
  by (auto simp: bit_eq_iff bit_simps)

end
