(* ===== verification/Ordered_Map.thy ===== *)
theory Ordered_Map
  imports Prelude "HOL-Library.Char_ord" "HOL-Library.List_Lexorder"
begin

text \<open>
  \<^verbatim>\<open>std::map\<close> as the server uses it: \<^verbatim>\<open>operator[]\<close> assignment, \<^verbatim>\<open>erase\<close>, \<^verbatim>\<open>find\<close> and iteration
  in key order.  The map is its sequence of entries, ascending in the key; strings are
  ordered lexicographically by character code.  What clients rely on is the locale
  \<open>ordered_map\<close>.
\<close>

fun om_put :: "'k :: linorder \<Rightarrow> 'v \<Rightarrow> ('k \<times> 'v) list \<Rightarrow> ('k \<times> 'v) list" where
  "om_put k v [] = [(k, v)]"
| "om_put k v ((k', v') # m) =
     (if k < k' then (k, v) # (k', v') # m
      else if k = k' then (k, v) # m
      else (k', v') # om_put k v m)"

fun om_erase :: "'k :: linorder \<Rightarrow> ('k \<times> 'v) list \<Rightarrow> ('k \<times> 'v) list" where
  "om_erase k [] = []"
| "om_erase k ((k', v') # m) = (if k = k' then m else (k', v') # om_erase k m)"

fun om_find :: "'k :: linorder \<Rightarrow> ('k \<times> 'v) list \<Rightarrow> 'v option" where
  "om_find k [] = None"
| "om_find k ((k', v') # m) = (if k = k' then Some v' else om_find k m)"

definition om_keys :: "('k \<times> 'v) list \<Rightarrow> 'k list" where
  "om_keys m = map fst m"

definition om_inv :: "('k :: linorder \<times> 'v) list \<Rightarrow> bool" where
  "om_inv m \<longleftrightarrow> sorted_wrt (<) (om_keys m)"

lemma om_keys_simps [simp]: "om_keys [] = []" "om_keys ((k, v) # m) = k # om_keys m"
  by (simp_all add: om_keys_def)

lemma set_om_keys_put: "set (om_keys (om_put k v m)) = insert k (set (om_keys m))"
  by (induction k v m rule: om_put.induct) auto

lemma set_om_keys_erase: "om_inv m \<Longrightarrow> set (om_keys (om_erase k m)) = set (om_keys m) - {k}"
  by (induction k m rule: om_erase.induct) (auto simp: om_inv_def)

lemma om_find_keys: "om_find k m \<noteq> None \<longleftrightarrow> k \<in> set (om_keys m)"
  by (induction k m rule: om_find.induct) auto

lemma om_inv_put: "om_inv m \<Longrightarrow> om_inv (om_put k v m)"
  by (induction k v m rule: om_put.induct) (auto simp: om_inv_def set_om_keys_put)

lemma om_inv_erase: "om_inv m \<Longrightarrow> om_inv (om_erase k m)"
proof (induction k m rule: om_erase.induct)
  case (2 k k' v' m)
  then show ?case using set_om_keys_erase [of m k] by (auto simp: om_inv_def)
qed simp

lemma om_find_put: "om_find j (om_put k v m) = (if j = k then Some v else om_find j m)"
  by (induction k v m rule: om_put.induct) auto

lemma om_find_erase: "om_inv m \<Longrightarrow> om_find j (om_erase k m) = (if j = k then None else om_find j m)"
proof (induction k m rule: om_erase.induct)
  case (2 k k' v' m)
  have "om_find k' m = None" using "2.prems" om_find_keys [of k' m] by (auto simp: om_inv_def)
  then show ?case using 2 by (auto simp: om_inv_def)
qed simp

locale ordered_map =
  fixes put :: "'k :: linorder \<Rightarrow> 'v \<Rightarrow> 'm \<Rightarrow> 'm"
    and erase :: "'k \<Rightarrow> 'm \<Rightarrow> 'm"
    and find :: "'k \<Rightarrow> 'm \<Rightarrow> 'v option"
    and keys :: "'m \<Rightarrow> 'k list"
    and inv :: "'m \<Rightarrow> bool"
  assumes inv_put: "inv m \<Longrightarrow> inv (put k v m)"
    and inv_erase: "inv m \<Longrightarrow> inv (erase k m)"
    and find_put: "inv m \<Longrightarrow> find j (put k v m) = (if j = k then Some v else find j m)"
    and find_erase: "inv m \<Longrightarrow> find j (erase k m) = (if j = k then None else find j m)"
    and keys_sorted: "inv m \<Longrightarrow> sorted_wrt (<) (keys m)"
    and keys_find: "inv m \<Longrightarrow> k \<in> set (keys m) \<longleftrightarrow> find k m \<noteq> None"
begin

lemma keys_distinct: "inv m \<Longrightarrow> distinct (keys m)"
  using keys_sorted strict_sorted_iff by blast

lemma keys_put: "inv m \<Longrightarrow> set (keys (put k v m)) = insert k (set (keys m))"
  by (auto simp: keys_find inv_put find_put split: if_splits)

lemma keys_erase: "inv m \<Longrightarrow> set (keys (erase k m)) = set (keys m) - {k}"
  by (auto simp: keys_find inv_erase find_erase split: if_splits)

lemma put_erase_find: "inv m \<Longrightarrow> find j (erase k (put k v m)) = (if j = k then None else find j m)"
  by (simp add: find_erase find_put inv_put)

text \<open>Two maps with the same lookups list the same keys.\<close>

lemma keys_unique:
  assumes "inv m" and "inv m'" and "\<And>k. find k m = find k m'"
  shows "keys m = keys m'"
proof -
  have "set (keys m) = set (keys m')" by (auto simp: keys_find assms)
  moreover have "sorted (keys m)" "sorted (keys m')" "distinct (keys m)" "distinct (keys m')"
    using keys_sorted [OF assms(1)] keys_sorted [OF assms(2)] by (simp_all add: strict_sorted_iff)
  ultimately show ?thesis by (intro sorted_distinct_set_unique)
qed

end

interpretation om: ordered_map om_put om_erase om_find om_keys om_inv
proof
  show "k \<in> set (om_keys m) \<longleftrightarrow> om_find k m \<noteq> None" for m k using om_find_keys by metis
qed (simp_all add: om_inv_put om_inv_erase om_find_put om_find_erase, simp add: om_inv_def)

end
