(* ===== verification/Reg_Map.thy ===== *)
theory Reg_Map
  imports Prelude
begin

text \<open>
  The register map every layer of the simulated path shares: the C++ structs \<^verbatim>\<open>RegMap\<close>
  and \<^verbatim>\<open>ShmStats\<close> of the hardware model, with the layout C gives them, and the offset
  tables that the plugins, the management and telemetry services, and the firmware drivers
  each keep as their own copy.  The lemmas compute the offsets and show
  that the areas of the page (registers, statistics, DMA buffer) do not overlap; that all
  copies name the same bytes is shown in \<open>Interface_Tables\<close>.
\<close>

subsection \<open>C struct layout\<close>

text \<open>
  A struct is a list of fields (name, element size, element count); scalars have count 1.
  Each field starts at the next multiple of its element size, as the natural alignment of
  the fixed-width integers requires.
\<close>

type_synonym 'f layout = "('f \<times> nat \<times> nat) list"

definition align_up :: "nat \<Rightarrow> nat \<Rightarrow> nat" where
  "align_up sz off = (off + (sz - 1)) div sz * sz"

fun offset_from :: "nat \<Rightarrow> 'f layout \<Rightarrow> 'f \<Rightarrow> nat" where
  "offset_from off [] f = off"
| "offset_from off ((g, sz, n) # fs) f =
     (if f = g then align_up sz off else offset_from (align_up sz off + sz * n) fs f)"

definition offsetof :: "'f layout \<Rightarrow> 'f \<Rightarrow> nat" where
  "offsetof l f = offset_from 0 l f"

fun size_from :: "nat \<Rightarrow> 'f layout \<Rightarrow> nat" where
  "size_from off [] = off"
| "size_from off ((g, sz, n) # fs) = size_from (align_up sz off + sz * n) fs"

text \<open>\<^verbatim>\<open>sizeof\<close>: the end of the last field, rounded up to the strictest alignment.\<close>

definition struct_size :: "'f layout \<Rightarrow> nat" where
  "struct_size l = align_up (Max (set (map (\<lambda>(f, sz, n). sz) l))) (size_from 0 l)"

subsection \<open>reg_map.hpp\<close>

datatype reg_field =
    F_ctrl | F_status | F_irq_status | F_irq_enable | F_version | F_capabilities | F_reserved0
  | F_cmd_opcode | F_cmd_arg0 | F_cmd_arg1 | F_cmd_flags
  | F_result_status | F_result_data0 | F_result_data1 | F_reserved1

definition RegMap :: "reg_field layout" where
  "RegMap =
    [(F_ctrl, 4, 1), (F_status, 4, 1), (F_irq_status, 4, 1), (F_irq_enable, 4, 1),
     (F_version, 4, 1), (F_capabilities, 4, 1), (F_reserved0, 4, 58),
     (F_cmd_opcode, 4, 1), (F_cmd_arg0, 4, 1), (F_cmd_arg1, 4, 1), (F_cmd_flags, 4, 1),
     (F_result_status, 4, 1), (F_result_data0, 4, 1), (F_result_data1, 4, 1),
     (F_reserved1, 4, 57)]"

datatype stats_field =
    S_cmd_count | S_start_time_sec | S_last_opcode | S_last_result_status | S_fw_cmd_count

definition ShmStats :: "stats_field layout" where
  "ShmStats =
    [(S_cmd_count, 8, 1), (S_start_time_sec, 8, 1), (S_last_opcode, 4, 1),
     (S_last_result_status, 4, 1), (S_fw_cmd_count, 8, 1)]"

text \<open>Bit masks of \<^verbatim>\<open>ctrl_bits\<close> and \<^verbatim>\<open>status_bits\<close>, and the version constants.\<close>

definition ctrl_RESET :: u32 where "ctrl_RESET = push_bit 0 1"
definition ctrl_START :: u32 where "ctrl_START = push_bit 1 1"
definition ctrl_IRQ_CLR :: u32 where "ctrl_IRQ_CLR = push_bit 2 1"
definition status_READY :: u32 where "status_READY = push_bit 0 1"
definition status_BUSY :: u32 where "status_BUSY = push_bit 1 1"
definition status_ERROR :: u32 where "status_ERROR = push_bit 2 1"
definition HW_VERSION :: u32 where "HW_VERSION = 0x00010000"
definition HW_CAPS_DMA :: u32 where "HW_CAPS_DMA = push_bit 0 1"
definition HW_CAPS_IRQ :: u32 where "HW_CAPS_IRQ = push_bit 1 1"
definition HW_CAPS_MULTI :: u32 where "HW_CAPS_MULTI = push_bit 2 1"

definition SHM_REG_SIZE :: nat where "SHM_REG_SIZE = struct_size RegMap"
definition SHM_STATS_OFFSET :: nat where "SHM_STATS_OFFSET = SHM_REG_SIZE"
definition SHM_TOTAL_SIZE :: nat where "SHM_TOTAL_SIZE = 4096"

text \<open>Field access through the two struct pointers of the hardware model.\<close>

definition reg_off :: "reg_field \<Rightarrow> nat" where
  "reg_off f = offsetof RegMap f"

definition stats_off :: "stats_field \<Rightarrow> nat" where
  "stats_off f = SHM_STATS_OFFSET + offsetof ShmStats f"

subsection \<open>The other copies of the layout\<close>

text \<open>The thirteen registers the generated headers and the firmware drivers name.\<close>

datatype reg =
    CTRL | STATUS | IRQ_STATUS | IRQ_ENABLE | VERSION | CAPABILITIES
  | CMD_OPCODE | CMD_ARG0 | CMD_ARG1 | CMD_FLAGS
  | RESULT_STATUS | RESULT_DATA0 | RESULT_DATA1

text \<open>The registers are finitely many: statements about all of them are computed.\<close>

instantiation reg :: enum
begin

definition enum_reg :: "reg list" where
  "enum_reg =
     [CTRL, STATUS, IRQ_STATUS, IRQ_ENABLE, VERSION, CAPABILITIES, CMD_OPCODE, CMD_ARG0, CMD_ARG1, CMD_FLAGS,
      RESULT_STATUS, RESULT_DATA0, RESULT_DATA1]"

definition enum_all_reg :: "(reg \<Rightarrow> bool) \<Rightarrow> bool" where
  "enum_all_reg P \<longleftrightarrow> list_all P enum_class.enum"

definition enum_ex_reg :: "(reg \<Rightarrow> bool) \<Rightarrow> bool" where
  "enum_ex_reg P \<longleftrightarrow> list_ex P enum_class.enum"

instance
proof
  show univ: "UNIV = set (enum_class.enum :: reg list)"
  proof (intro set_eqI iffI)
    show "r \<in> set enum_class.enum" for r :: reg by (cases r) (simp_all add: enum_reg_def)
  qed simp
  show "distinct (enum_class.enum :: reg list)" by (simp add: enum_reg_def)
  show "enum_class.enum_all P \<longleftrightarrow> Ball UNIV P" "enum_class.enum_ex P \<longleftrightarrow> Bex UNIV P" for P :: "reg \<Rightarrow> bool"
    unfolding univ by (simp_all add: enum_all_reg_def enum_ex_reg_def list_all_iff list_ex_iff)
qed

end

fun accel_RegOffsets :: "reg \<Rightarrow> nat" where
  "accel_RegOffsets CTRL = 0x0000"
| "accel_RegOffsets STATUS = 0x0004"
| "accel_RegOffsets IRQ_STATUS = 0x0008"
| "accel_RegOffsets IRQ_ENABLE = 0x000C"
| "accel_RegOffsets VERSION = 0x0010"
| "accel_RegOffsets CAPABILITIES = 0x0014"
| "accel_RegOffsets CMD_OPCODE = 0x0100"
| "accel_RegOffsets CMD_ARG0 = 0x0104"
| "accel_RegOffsets CMD_ARG1 = 0x0108"
| "accel_RegOffsets CMD_FLAGS = 0x010C"
| "accel_RegOffsets RESULT_STATUS = 0x0110"
| "accel_RegOffsets RESULT_DATA0 = 0x0114"
| "accel_RegOffsets RESULT_DATA1 = 0x0118"

fun crc32_RegOffsets :: "reg \<Rightarrow> nat" where
  "crc32_RegOffsets CTRL = 0x0000"
| "crc32_RegOffsets STATUS = 0x0004"
| "crc32_RegOffsets IRQ_STATUS = 0x0008"
| "crc32_RegOffsets IRQ_ENABLE = 0x000C"
| "crc32_RegOffsets VERSION = 0x0010"
| "crc32_RegOffsets CAPABILITIES = 0x0014"
| "crc32_RegOffsets CMD_OPCODE = 0x0100"
| "crc32_RegOffsets CMD_ARG0 = 0x0104"
| "crc32_RegOffsets CMD_ARG1 = 0x0108"
| "crc32_RegOffsets CMD_FLAGS = 0x010C"
| "crc32_RegOffsets RESULT_STATUS = 0x0110"
| "crc32_RegOffsets RESULT_DATA0 = 0x0114"
| "crc32_RegOffsets RESULT_DATA1 = 0x0118"

text \<open>
  The native_sim firmware driver defines no \<^verbatim>\<open>REG_CAPABILITIES\<close>; the production driver
  defines neither that nor the flags register.
\<close>

fun fw_sim_reg :: "reg \<Rightarrow> nat option" where
  "fw_sim_reg CTRL = Some 0x000"
| "fw_sim_reg STATUS = Some 0x004"
| "fw_sim_reg IRQ_STATUS = Some 0x008"
| "fw_sim_reg IRQ_ENABLE = Some 0x00C"
| "fw_sim_reg VERSION = Some 0x010"
| "fw_sim_reg CAPABILITIES = None"
| "fw_sim_reg CMD_OPCODE = Some 0x100"
| "fw_sim_reg CMD_ARG0 = Some 0x104"
| "fw_sim_reg CMD_ARG1 = Some 0x108"
| "fw_sim_reg CMD_FLAGS = Some 0x10C"
| "fw_sim_reg RESULT_STATUS = Some 0x110"
| "fw_sim_reg RESULT_DATA0 = Some 0x114"
| "fw_sim_reg RESULT_DATA1 = Some 0x118"

fun fw_hwip_reg :: "reg \<Rightarrow> nat option" where
  "fw_hwip_reg CTRL = Some 0x000"
| "fw_hwip_reg STATUS = Some 0x004"
| "fw_hwip_reg IRQ_STATUS = Some 0x008"
| "fw_hwip_reg IRQ_ENABLE = Some 0x00C"
| "fw_hwip_reg VERSION = Some 0x010"
| "fw_hwip_reg CAPABILITIES = None"
| "fw_hwip_reg CMD_OPCODE = Some 0x100"
| "fw_hwip_reg CMD_ARG0 = Some 0x104"
| "fw_hwip_reg CMD_ARG1 = Some 0x108"
| "fw_hwip_reg CMD_FLAGS = None"
| "fw_hwip_reg RESULT_STATUS = Some 0x110"
| "fw_hwip_reg RESULT_DATA0 = Some 0x114"
| "fw_hwip_reg RESULT_DATA1 = Some 0x118"

text \<open>The DMA window of the CRC32 plugin, its hardware model and the firmware driver.\<close>

definition kShmDmaOffset :: nat where "kShmDmaOffset = 0x300"
definition kShmDmaMaxLen :: nat where "kShmDmaMaxLen = 0xC00"

text \<open>The constants repeated by the server's management and telemetry services.\<close>

definition kRegVersion :: nat where "kRegVersion = 0x010"
definition kRegCtrl :: nat where "kRegCtrl = 0x000"
definition kCtrlResetBit :: u32 where "kCtrlResetBit = push_bit 0 1"
definition kShmStatsOffset :: nat where "kShmStatsOffset = 0x200"

fun reg_field_of :: "reg \<Rightarrow> reg_field" where
  "reg_field_of CTRL = F_ctrl"
| "reg_field_of STATUS = F_status"
| "reg_field_of IRQ_STATUS = F_irq_status"
| "reg_field_of IRQ_ENABLE = F_irq_enable"
| "reg_field_of VERSION = F_version"
| "reg_field_of CAPABILITIES = F_capabilities"
| "reg_field_of CMD_OPCODE = F_cmd_opcode"
| "reg_field_of CMD_ARG0 = F_cmd_arg0"
| "reg_field_of CMD_ARG1 = F_cmd_arg1"
| "reg_field_of CMD_FLAGS = F_cmd_flags"
| "reg_field_of RESULT_STATUS = F_result_status"
| "reg_field_of RESULT_DATA0 = F_result_data0"
| "reg_field_of RESULT_DATA1 = F_result_data1"

subsection \<open>Layout facts\<close>

lemma RegMap_size: "struct_size RegMap = 0x200"
  by (simp add: struct_size_def RegMap_def align_up_def)

lemma ShmStats_size: "struct_size ShmStats = 32"
  by (simp add: struct_size_def ShmStats_def align_up_def)

lemma reg_off_simps [simp, layout_simps]:
  "reg_off F_ctrl = 0x000" "reg_off F_status = 0x004" "reg_off F_irq_status = 0x008"
  "reg_off F_irq_enable = 0x00C" "reg_off F_version = 0x010" "reg_off F_capabilities = 0x014"
  "reg_off F_reserved0 = 0x018"
  "reg_off F_cmd_opcode = 0x100" "reg_off F_cmd_arg0 = 0x104" "reg_off F_cmd_arg1 = 0x108"
  "reg_off F_cmd_flags = 0x10C" "reg_off F_result_status = 0x110"
  "reg_off F_result_data0 = 0x114" "reg_off F_result_data1 = 0x118" "reg_off F_reserved1 = 0x11C"
  by (simp_all add: reg_off_def offsetof_def RegMap_def align_up_def)

lemma stats_off_simps [simp, layout_simps]:
  "stats_off S_cmd_count = 0x200" "stats_off S_start_time_sec = 0x208"
  "stats_off S_last_opcode = 0x210" "stats_off S_last_result_status = 0x214"
  "stats_off S_fw_cmd_count = 0x218"
  by (simp_all add: stats_off_def SHM_STATS_OFFSET_def SHM_REG_SIZE_def RegMap_size
      offsetof_def ShmStats_def align_up_def)

lemma bit_masks [simp, layout_simps]:
  "ctrl_RESET = 1" "ctrl_START = 2" "ctrl_IRQ_CLR = 4"
  "status_READY = 1" "status_BUSY = 2" "status_ERROR = 4" "kCtrlResetBit = 1"
  by (simp_all add: ctrl_RESET_def ctrl_START_def ctrl_IRQ_CLR_def status_READY_def
      status_BUSY_def status_ERROR_def kCtrlResetBit_def)

text \<open>The START bit set or cleared, seen through the START and the RESET mask.\<close>

lemma start_bit_simps [simp]:
  "((w :: u32) AND - 3) AND 2 = 0" "((w :: u32) AND - 3) AND 1 = w AND 1"
  "((w :: u32) OR 2) AND 2 = 2" "((w :: u32) OR 2) AND 1 = w AND 1"
  by (simp_all add: and.assoc word_ao_dist word_ao_absorbs)

lemma shm_consts [simp, layout_simps]:
  "SHM_REG_SIZE = 0x200" "SHM_STATS_OFFSET = 0x200" "SHM_TOTAL_SIZE = 4096"
  "kShmDmaOffset = 0x300" "kShmDmaMaxLen = 0xC00"
  "kRegVersion = 0x010" "kRegCtrl = 0" "kShmStatsOffset = 0x200"
  by (simp_all add: SHM_REG_SIZE_def RegMap_size SHM_STATS_OFFSET_def SHM_TOTAL_SIZE_def
      kShmDmaOffset_def kShmDmaMaxLen_def kRegVersion_def kRegCtrl_def kShmStatsOffset_def)

text \<open>No two registers of the plugins' tables share a byte, so a write to one leaves the others alone.\<close>

lemma registers_disjoint:
  "\<forall>r r'. r \<noteq> r' \<longrightarrow> accel_RegOffsets r + 4 \<le> accel_RegOffsets r' \<or> accel_RegOffsets r' + 4 \<le> accel_RegOffsets r"
  by code_simp

lemma register_frame:
  "r \<noteq> r' \<Longrightarrow> load32 (accel_RegOffsets r) (store32 (accel_RegOffsets r') v m) = load32 (accel_RegOffsets r) m"
  using registers_disjoint by (intro w32.load_store_other) blast

text \<open>
  The areas of the shared page are disjoint and inside it: every register cell lies in
  the register area, every statistics cell lies after it and before the DMA window, and the
  DMA window ends inside the page.
\<close>

theorem shm_areas_disjoint:
  "reg_off f + 4 \<le> SHM_STATS_OFFSET \<and>
   SHM_STATS_OFFSET \<le> stats_off g \<and> stats_off g + 8 \<le> kShmDmaOffset \<and>
   SHM_STATS_OFFSET + struct_size ShmStats \<le> kShmDmaOffset \<and>
   kShmDmaOffset + kShmDmaMaxLen \<le> SHM_TOTAL_SIZE"
  by (cases f; cases g) (simp_all add: ShmStats_size)

end
