(* ===== verification/Hw_Model.thy ===== *)
theory Hw_Model
  imports Reg_Map
begin

text \<open>
  The MMIO simulator (\<^verbatim>\<open>sim/hw-model\<close>): \<^verbatim>\<open>SimTransport\<close>, which creates and destroys the
  shared-memory page, and \<^verbatim>\<open>HwModelServer\<close>, whose poll loop executes the command in the
  page.  The part of POSIX the program uses (shared-memory names, descriptors, mappings,
  eventfd counters) is the explicit state \<open>os\<close>; whether a system call fails, and the
  descriptor it hands out, are inputs (\<open>sys\<close>).
\<close>

subsection \<open>Shared memory, descriptors and mappings\<close>

datatype open_file = Shm nat | Evt u64

record os =
  shm_ns :: "string \<Rightarrow> nat option"
  shm_mem :: "nat \<Rightarrow> page"
  shm_next :: nat
  fd_table :: "int \<Rightarrow> open_file option"
  live_maps :: "nat list"

record sys =
  shm_open_fd :: int
  ftruncate_ret :: int
  mmap_ok :: bool
  eventfd_fd :: int

text \<open>
  \<^verbatim>\<open>shm_open\<close>: a negative \<open>shm_open_fd\<close> is a failure of the call; without \<^verbatim>\<open>O_CREAT\<close> a
  missing name fails too.  A new object is filled with zeros once \<^verbatim>\<open>ftruncate\<close> sizes it.
\<close>

definition shm_open :: "sys \<Rightarrow> string \<Rightarrow> bool \<Rightarrow> os \<Rightarrow> int \<times> os" where
  "shm_open y name creat w =
     (if shm_open_fd y < 0 then (-1, w)
      else case shm_ns w name of
          Some obj \<Rightarrow> (shm_open_fd y, w\<lparr>fd_table := (fd_table w)(shm_open_fd y \<mapsto> Shm obj)\<rparr>)
        | None \<Rightarrow>
            if creat then
              (shm_open_fd y,
               w\<lparr>shm_ns := (shm_ns w)(name \<mapsto> shm_next w),
                 shm_mem := (shm_mem w)(shm_next w := (\<lambda>_. 0)),
                 shm_next := Suc (shm_next w),
                 fd_table := (fd_table w)(shm_open_fd y \<mapsto> Shm (shm_next w))\<rparr>)
            else (-1, w))"

text \<open>\<^verbatim>\<open>mmap\<close> of a shared-memory descriptor: the mapped object, \<open>None\<close> for \<^verbatim>\<open>MAP_FAILED\<close>.\<close>

definition sys_mmap :: "sys \<Rightarrow> int \<Rightarrow> os \<Rightarrow> nat option \<times> os" where
  "sys_mmap y fd w =
     (case fd_table w fd of
        Some (Shm obj) \<Rightarrow>
          if mmap_ok y then (Some obj, w\<lparr>live_maps := obj # live_maps w\<rparr>) else (None, w)
      | _ \<Rightarrow> (None, w))"

definition sys_munmap :: "nat \<Rightarrow> os \<Rightarrow> os" where
  "sys_munmap obj w = w\<lparr>live_maps := remove1 obj (live_maps w)\<rparr>"

definition sys_close :: "int \<Rightarrow> os \<Rightarrow> os" where
  "sys_close fd w = w\<lparr>fd_table := (fd_table w)(fd := None)\<rparr>"

definition shm_unlink :: "string \<Rightarrow> os \<Rightarrow> os" where
  "shm_unlink name w = w\<lparr>shm_ns := (shm_ns w)(name := None)\<rparr>"

definition sys_eventfd :: "sys \<Rightarrow> os \<Rightarrow> int \<times> os" where
  "sys_eventfd y w =
     (if eventfd_fd y < 0 then (-1, w)
      else (eventfd_fd y, w\<lparr>fd_table := (fd_table w)(eventfd_fd y \<mapsto> Evt 0)\<rparr>))"

text \<open>
  \<^verbatim>\<open>write\<close> of the value 1 to a non-blocking eventfd: the counter grows unless it is at its
  maximum, where the call fails with \<^verbatim>\<open>EAGAIN\<close>.
\<close>

definition evt_write :: "int \<Rightarrow> os \<Rightarrow> os" where
  "evt_write fd w =
     (case fd_table w fd of
        Some (Evt c) \<Rightarrow>
          if c = -2 then w else w\<lparr>fd_table := (fd_table w)(fd \<mapsto> Evt (c + 1))\<rparr>
      | _ \<Rightarrow> w)"

definition upd_page :: "nat \<Rightarrow> (page \<Rightarrow> page) \<Rightarrow> os \<Rightarrow> os" where
  "upd_page obj f w = w\<lparr>shm_mem := (shm_mem w)(obj := f (shm_mem w obj))\<rparr>"

subsection \<open>SimTransport\<close>

record SimTransport =
  t_shm_name :: string
  t_shm_fd :: int
  t_irq_fd :: int
  t_reg_base :: "nat option"
  t_shm_size :: nat

definition SimTransport_new :: "string \<Rightarrow> SimTransport" where
  "SimTransport_new name =
     \<lparr>t_shm_name = name, t_shm_fd = -1, t_irq_fd = -1, t_reg_base = None, t_shm_size = 0\<rparr>"

text \<open>The move constructor: the new object and what is left of the old one.\<close>

definition SimTransport_move :: "SimTransport \<Rightarrow> SimTransport \<times> SimTransport" where
  "SimTransport_move t =
     (t, t\<lparr>t_shm_name := [], t_shm_fd := -1, t_irq_fd := -1, t_reg_base := None, t_shm_size := 0\<rparr>)"

text \<open>Step 3 of \<^verbatim>\<open>SimTransport::init\<close>: clear the register struct, set the constants.\<close>

definition init_registers :: "page \<Rightarrow> page" where
  "init_registers m =
     (let m = store_bytes 0 (replicate (struct_size RegMap) 0) m;
          m = store32 (reg_off F_version) HW_VERSION m;
          m = store32 (reg_off F_capabilities) (HW_CAPS_DMA OR HW_CAPS_IRQ OR HW_CAPS_MULTI) m
      in store32 (reg_off F_status) status_READY m)"

definition SimTransport_init :: "sys \<Rightarrow> SimTransport \<Rightarrow> os \<Rightarrow> bool \<times> SimTransport \<times> os" where
  "SimTransport_init y t w =
     (let (fd, w) = shm_open y (t_shm_name t) True w; t = t\<lparr>t_shm_fd := fd\<rparr> in
      if fd < 0 then (False, t, w) else
      let t = t\<lparr>t_shm_size := SHM_TOTAL_SIZE\<rparr> in
      if ftruncate_ret y < 0 then (False, t, w) else
      let (base, w) = sys_mmap y fd w; t = t\<lparr>t_reg_base := base\<rparr> in
      case base of
        None \<Rightarrow> (False, t, w)
      | Some obj \<Rightarrow>
          let w = upd_page obj init_registers w;
              (efd, w) = sys_eventfd y w; t = t\<lparr>t_irq_fd := efd\<rparr> in
          if efd < 0 then (False, t, w) else (True, t, w))"

definition SimTransport_cleanup :: "SimTransport \<Rightarrow> os \<Rightarrow> SimTransport \<times> os" where
  "SimTransport_cleanup t w =
     (let (t, w) = (case t_reg_base t of
                      None \<Rightarrow> (t, w)
                    | Some obj \<Rightarrow> (t\<lparr>t_reg_base := None\<rparr>, sys_munmap obj w));
          (t, w) = (if t_shm_fd t \<ge> 0
                    then (t\<lparr>t_shm_fd := -1\<rparr>,
                          shm_unlink (t_shm_name t) (sys_close (t_shm_fd t) w))
                    else (t, w))
      in if t_irq_fd t \<ge> 0 then (t\<lparr>t_irq_fd := -1\<rparr>, sys_close (t_irq_fd t) w) else (t, w))"

definition SimTransport_raise_irq :: "SimTransport \<Rightarrow> u32 \<Rightarrow> os \<Rightarrow> os" where
  "SimTransport_raise_irq t irq_bits w =
     (let w = (case t_reg_base t of
                 None \<Rightarrow> w
               | Some obj \<Rightarrow>
                   upd_page obj (\<lambda>m. store32 (reg_off F_irq_status)
                                   (load32 (reg_off F_irq_status) m OR irq_bits) m) w)
      in if t_irq_fd t \<ge> 0 then evt_write (t_irq_fd t) w else w)"

subsection \<open>HwModelServer\<close>

text \<open>
  A command handler sees the opcode and the two arguments and fills the two result words;
  the page is passed because a handler may read the DMA window through its own pointer.
  \<open>None\<close> means the handler itself leaves the page (undefined behaviour).
\<close>

type_synonym cmd_handler = "page \<Rightarrow> u32 \<Rightarrow> u32 \<Rightarrow> u32 \<Rightarrow> (u32 \<times> u32 \<times> u32) option"

record HwModelConfig =
  cfg_shm_name :: string
  cfg_latency_us :: u32
  cfg_auto_irq :: bool

record HwModelServer =
  hw_cfg :: HwModelConfig
  hw_transport :: SimTransport
  hw_handler :: cmd_handler
  hw_running :: bool
  hw_cmd_count :: u64
  hw_start_time_sec :: u64

definition HwModelConfig_default :: HwModelConfig where
  "HwModelConfig_default =
     \<lparr>cfg_shm_name = ''/deepspan_hwip_0'', cfg_latency_us = 0, cfg_auto_irq = True\<rparr>"

definition default_handler :: cmd_handler where
  "default_handler m opcode arg0 arg1 = Some (0, arg0, arg1)"

definition HwModelServer_new :: "HwModelConfig \<Rightarrow> HwModelServer" where
  "HwModelServer_new cfg =
     \<lparr>hw_cfg = cfg, hw_transport = SimTransport_new (cfg_shm_name cfg),
      hw_handler = default_handler, hw_running = False, hw_cmd_count = 0,
      hw_start_time_sec = 0\<rparr>"

definition set_cmd_handler :: "cmd_handler \<Rightarrow> HwModelServer \<Rightarrow> HwModelServer" where
  "set_cmd_handler h s = s\<lparr>hw_handler := h\<rparr>"

text \<open>\<^verbatim>\<open>init\<close>, at the wall-clock second \<open>now\<close>.\<close>

definition HwModelServer_init ::
    "sys \<Rightarrow> u64 \<Rightarrow> HwModelServer \<Rightarrow> os \<Rightarrow> bool \<times> HwModelServer \<times> os" where
  "HwModelServer_init y now s w =
     (let s = s\<lparr>hw_start_time_sec := now\<rparr>;
          (ok, t, w) = SimTransport_init y (hw_transport s) w;
          s = s\<lparr>hw_transport := t\<rparr> in
      if \<not> ok then (False, s, w) else
      case t_reg_base t of
        None \<Rightarrow> (True, s, w)
      | Some obj \<Rightarrow>
          (True, s,
           upd_page obj
             (\<lambda>m. store32 (reg_off F_status) status_READY
                    (store64 (stats_off S_start_time_sec) (hw_start_time_sec s) m)) w))"

text \<open>
  The body of the poll loop for a command: from reading the command registers to marking the
  device ready again.  \<open>count\<close> is the server's own counter.
\<close>

definition serve_command :: "cmd_handler \<Rightarrow> u64 \<Rightarrow> page \<Rightarrow> (u64 \<times> page) option" where
  "serve_command h count m =
     (let opcode = load32 (reg_off F_cmd_opcode) m;
          arg0 = load32 (reg_off F_cmd_arg0) m;
          arg1 = load32 (reg_off F_cmd_arg1) m in
      case h m opcode arg0 arg1 of
        None \<Rightarrow> None
      | Some (status, r0, r1) \<Rightarrow>
          let m = store32 (reg_off F_result_data0) r0 m;
              m = store32 (reg_off F_result_data1) r1 m;
              m = store32 (reg_off F_result_status) status m;
              count = count + 1;
              m = store64 (stats_off S_cmd_count) count m;
              m = store32 (stats_off S_last_opcode) opcode m;
              m = store32 (stats_off S_last_result_status) status m;
              m = store32 (reg_off F_ctrl) (load32 (reg_off F_ctrl) m AND NOT ctrl_START) m
          in Some (count, store32 (reg_off F_status) status_READY m))"

text \<open>One iteration of \<^verbatim>\<open>poll_loop\<close>.\<close>

definition poll_iteration :: "HwModelServer \<Rightarrow> os \<Rightarrow> (HwModelServer \<times> os) option" where
  "poll_iteration s w =
     (case t_reg_base (hw_transport s) of
        None \<Rightarrow> Some (s, w)
      | Some obj \<Rightarrow>
          let m = shm_mem w obj in
          if load32 (reg_off F_ctrl) m AND ctrl_START \<noteq> 0 then
            (case serve_command (hw_handler s) (hw_cmd_count s) m of
               None \<Rightarrow> None
             | Some (count, m') \<Rightarrow>
                 let s = s\<lparr>hw_cmd_count := count\<rparr>; w = upd_page obj (\<lambda>_. m') w
                 in Some (s, if cfg_auto_irq (hw_cfg s)
                             then SimTransport_raise_irq (hw_transport s) 1 w else w))
          else Some (s, w))"

text \<open>
  The loop under a schedule: each element holds the value of \<^verbatim>\<open>running_\<close> the iteration reads
  and what the other processes did to the page before it.  A null register base leaves the
  loop at once.
\<close>

fun poll_loop :: "(bool \<times> (os \<Rightarrow> os)) list \<Rightarrow> HwModelServer \<Rightarrow> os \<Rightarrow> (HwModelServer \<times> os) option" where
  "poll_loop [] s w = Some (s, w)"
| "poll_loop ((running, env) # sched) s w =
     (if t_reg_base (hw_transport s) = None \<or> \<not> running then Some (s, env w)
      else case poll_iteration s (env w) of
             None \<Rightarrow> None
           | Some (s', w') \<Rightarrow> poll_loop sched s' w')"

definition HwModelServer_run ::
    "(bool \<times> (os \<Rightarrow> os)) list \<Rightarrow> HwModelServer \<Rightarrow> os \<Rightarrow> (HwModelServer \<times> os) option" where
  "HwModelServer_run sched s w = poll_loop sched (s\<lparr>hw_running := True\<rparr>) w"

definition HwModelServer_stop :: "HwModelServer \<Rightarrow> HwModelServer" where
  "HwModelServer_stop s = s\<lparr>hw_running := False\<rparr>"

subsection \<open>Effect of the operations\<close>

lemma shm_mem_upd_page [simp]:
  "shm_mem (upd_page obj f w) obj' = (if obj' = obj then f (shm_mem w obj) else shm_mem w obj')"
  by (simp add: upd_page_def)

lemma upd_page_frame [simp]:
  "shm_ns (upd_page obj f w) = shm_ns w" "fd_table (upd_page obj f w) = fd_table w"
  "live_maps (upd_page obj f w) = live_maps w" "shm_next (upd_page obj f w) = shm_next w"
  by (simp_all add: upd_page_def)

lemma evt_write_frame [simp]:
  "shm_ns (evt_write fd w) = shm_ns w" "shm_mem (evt_write fd w) = shm_mem w"
  "live_maps (evt_write fd w) = live_maps w" "shm_next (evt_write fd w) = shm_next w"
  by (simp_all add: evt_write_def split: option.splits open_file.splits)

lemma shm_mem_raise_irq:
  "t_reg_base t = Some obj \<Longrightarrow>
   shm_mem (SimTransport_raise_irq t b w) obj =
     store32 (reg_off F_irq_status)
       (load32 (reg_off F_irq_status) (shm_mem w obj) OR b) (shm_mem w obj)"
  by (simp add: SimTransport_raise_irq_def Let_def)

text \<open>
  Registers outside the ones \<open>serve_command\<close> writes, the start time, the firmware counter and
  everything from the DMA window on keep their bytes.
\<close>

lemma serve_command_effect:
  assumes "h m (load32 0x100 m) (load32 0x104 m) (load32 0x108 m) = Some (st, r0, r1)"
  shows "\<exists>m'. serve_command h count m = Some (count + 1, m') \<and>
    load32 (reg_off F_ctrl) m' = load32 (reg_off F_ctrl) m AND NOT ctrl_START \<and>
    load32 (reg_off F_status) m' = status_READY \<and>
    load32 (reg_off F_result_status) m' = st \<and>
    load32 (reg_off F_result_data0) m' = r0 \<and>
    load32 (reg_off F_result_data1) m' = r1 \<and>
    load64 (stats_off S_cmd_count) m' = count + 1 \<and>
    load32 (stats_off S_last_opcode) m' = load32 (reg_off F_cmd_opcode) m \<and>
    load32 (stats_off S_last_result_status) m' = st \<and>
    load64 (stats_off S_start_time_sec) m' = load64 (stats_off S_start_time_sec) m \<and>
    load64 (stats_off S_fw_cmd_count) m' = load64 (stats_off S_fw_cmd_count) m \<and>
    load32 (reg_off F_version) m' = load32 (reg_off F_version) m \<and>
    load32 (reg_off F_irq_status) m' = load32 (reg_off F_irq_status) m \<and>
    load32 (reg_off F_cmd_opcode) m' = load32 (reg_off F_cmd_opcode) m \<and>
    load32 (reg_off F_cmd_arg0) m' = load32 (reg_off F_cmd_arg0) m \<and>
    load32 (reg_off F_cmd_arg1) m' = load32 (reg_off F_cmd_arg1) m \<and>
    (\<forall>n. load_bytes kShmDmaOffset n m' = load_bytes kShmDmaOffset n m)"
  using assms by (simp add: serve_command_def Let_def mem_simps)

text \<open>
  C19.  A complete command cycle of the hardware model: when the START bit is set and the
  handler returns a status and two words, one poll iteration publishes exactly them in the
  result registers, clears START and no other control bit, marks the device ready, advances
  the command counter in the server and in the statistics together, records the opcode and
  the status there, raises the IRQ bit, and leaves the command registers, the version, the
  start time and the DMA window as they were.
\<close>

theorem poll_iteration_serves:
  assumes "t_reg_base (hw_transport s) = Some obj"
    and "load32 (reg_off F_ctrl) (shm_mem w obj) AND ctrl_START \<noteq> 0"
    and "hw_handler s (shm_mem w obj) (load32 (reg_off F_cmd_opcode) (shm_mem w obj))
           (load32 (reg_off F_cmd_arg0) (shm_mem w obj))
           (load32 (reg_off F_cmd_arg1) (shm_mem w obj)) = Some (st, r0, r1)"
  shows "\<exists>s' w'. poll_iteration s w = Some (s', w') \<and>
    hw_cmd_count s' = hw_cmd_count s + 1 \<and>
    load64 (stats_off S_cmd_count) (shm_mem w' obj) = hw_cmd_count s' \<and>
    load32 (reg_off F_ctrl) (shm_mem w' obj) =
      load32 (reg_off F_ctrl) (shm_mem w obj) AND NOT ctrl_START \<and>
    load32 (reg_off F_status) (shm_mem w' obj) = status_READY \<and>
    load32 (reg_off F_result_status) (shm_mem w' obj) = st \<and>
    load32 (reg_off F_result_data0) (shm_mem w' obj) = r0 \<and>
    load32 (reg_off F_result_data1) (shm_mem w' obj) = r1 \<and>
    load32 (stats_off S_last_opcode) (shm_mem w' obj) =
      load32 (reg_off F_cmd_opcode) (shm_mem w obj) \<and>
    load32 (stats_off S_last_result_status) (shm_mem w' obj) = st \<and>
    load32 (reg_off F_irq_status) (shm_mem w' obj) =
      (if cfg_auto_irq (hw_cfg s) then load32 (reg_off F_irq_status) (shm_mem w obj) OR 1
       else load32 (reg_off F_irq_status) (shm_mem w obj)) \<and>
    load32 (reg_off F_version) (shm_mem w' obj) = load32 (reg_off F_version) (shm_mem w obj) \<and>
    load64 (stats_off S_start_time_sec) (shm_mem w' obj) =
      load64 (stats_off S_start_time_sec) (shm_mem w obj) \<and>
    load_bytes kShmDmaOffset n (shm_mem w' obj) = load_bytes kShmDmaOffset n (shm_mem w obj)"
proof -
  obtain m' where m': "serve_command (hw_handler s) (hw_cmd_count s) (shm_mem w obj) =
      Some (hw_cmd_count s + 1, m')"
    and eff: "load32 (reg_off F_ctrl) m' = load32 (reg_off F_ctrl) (shm_mem w obj) AND NOT ctrl_START"
      "load32 (reg_off F_status) m' = status_READY" "load32 (reg_off F_result_status) m' = st"
      "load32 (reg_off F_result_data0) m' = r0" "load32 (reg_off F_result_data1) m' = r1"
      "load64 (stats_off S_cmd_count) m' = hw_cmd_count s + 1"
      "load32 (stats_off S_last_opcode) m' = load32 (reg_off F_cmd_opcode) (shm_mem w obj)"
      "load32 (stats_off S_last_result_status) m' = st"
      "load64 (stats_off S_start_time_sec) m' = load64 (stats_off S_start_time_sec) (shm_mem w obj)"
      "load32 (reg_off F_version) m' = load32 (reg_off F_version) (shm_mem w obj)"
      "load32 (reg_off F_irq_status) m' = load32 (reg_off F_irq_status) (shm_mem w obj)"
      "\<And>n. load_bytes kShmDmaOffset n m' = load_bytes kShmDmaOffset n (shm_mem w obj)"
    using serve_command_effect [of "hw_handler s" "shm_mem w obj" st r0 r1 "hw_cmd_count s"] assms(3)
    by fastforce
  show ?thesis
    using assms(1,2) m' eff
    by (simp add: poll_iteration_def Let_def shm_mem_raise_irq mem_simps)
qed

text \<open>A server attached to object 0 of a world in which a command is pending.\<close>

definition example_server :: HwModelServer where
  "example_server = (HwModelServer_new HwModelConfig_default)
     \<lparr>hw_transport := (SimTransport_new ''/deepspan_hwip_0'')\<lparr>t_reg_base := Some 0\<rparr>\<rparr>"

definition example_world :: "page \<Rightarrow> os" where
  "example_world m =
     \<lparr>shm_ns = [''/deepspan_hwip_0'' \<mapsto> 0], shm_mem = (\<lambda>_. m), shm_next = 1,
      fd_table = Map.empty, live_maps = []\<rparr>"

definition example_page :: page where
  "example_page = store32 0 2 (store32 0x104 7 (store32 0x108 9 (store32 0x100 1 (\<lambda>_. 0))))"

lemma example_simps [simp]:
  "t_reg_base (hw_transport example_server) = Some 0"
  "hw_handler example_server = default_handler" "hw_cmd_count example_server = 0"
  "shm_mem (example_world m) obj = m"
  "load32 0 example_page = 2" "load32 0x100 example_page = 1"
  "load32 0x104 example_page = 7" "load32 0x108 example_page = 9"
  by (simp_all add: example_server_def HwModelServer_new_def example_world_def example_page_def
      mem_simps)

theorem poll_iteration_serves_witness:
  "\<exists>s' w'. poll_iteration example_server (example_world example_page) = Some (s', w') \<and>
     hw_cmd_count s' = 1 \<and> load32 (reg_off F_result_data0) (shm_mem w' 0) = 7 \<and>
     load32 (reg_off F_result_data1) (shm_mem w' 0) = 9"
  using poll_iteration_serves [of example_server 0 "example_world example_page" 0 7 9 0]
  by (auto simp: default_handler_def)

text \<open>
  Initialisation: whenever \<^verbatim>\<open>init\<close> reports success the page holds the version and the
  capability word, START, IRQ status, opcode and result registers are zero, the device is
  ready, and the start time is published; the page of a fresh shared-memory object also has
  zero statistics counters.
\<close>

theorem HwModelServer_init_registers:
  assumes "HwModelServer_init y now s w = (True, s', w')"
  shows "\<exists>obj. t_reg_base (hw_transport s') = Some obj \<and>
    shm_ns w' (t_shm_name (hw_transport s)) = Some obj \<and>
    load32 (reg_off F_version) (shm_mem w' obj) = HW_VERSION \<and>
    load32 (reg_off F_capabilities) (shm_mem w' obj) = 7 \<and>
    load32 (reg_off F_ctrl) (shm_mem w' obj) = 0 \<and>
    load32 (reg_off F_irq_status) (shm_mem w' obj) = 0 \<and>
    load32 (reg_off F_cmd_opcode) (shm_mem w' obj) = 0 \<and>
    load32 (reg_off F_result_data0) (shm_mem w' obj) = 0 \<and>
    load32 (reg_off F_status) (shm_mem w' obj) = status_READY \<and>
    load64 (stats_off S_start_time_sec) (shm_mem w' obj) = now \<and>
    (shm_ns w (t_shm_name (hw_transport s)) = None \<longrightarrow>
       load64 (stats_off S_cmd_count) (shm_mem w' obj) = 0 \<and>
       load64 (stats_off S_fw_cmd_count) (shm_mem w' obj) = 0)"
  using assms
  by (auto simp: HwModelServer_init_def SimTransport_init_def Let_def init_registers_def
      RegMap_size shm_open_def sys_mmap_def sys_eventfd_def mem_simps HW_CAPS_DMA_def
      HW_CAPS_IRQ_def HW_CAPS_MULTI_def split: if_splits option.splits open_file.splits)

definition sys_ok :: "int \<Rightarrow> int \<Rightarrow> sys" where
  "sys_ok fd efd = \<lparr>shm_open_fd = fd, ftruncate_ret = 0, mmap_ok = True, eventfd_fd = efd\<rparr>"

definition empty_world :: os where
  "empty_world = \<lparr>shm_ns = Map.empty, shm_mem = (\<lambda>_ _. 0), shm_next = 0,
                  fd_table = Map.empty, live_maps = []\<rparr>"

theorem HwModelServer_init_registers_witness:
  "\<exists>s' w' obj.
     HwModelServer_init (sys_ok 3 4) 5 (HwModelServer_new HwModelConfig_default) empty_world
       = (True, s', w') \<and>
     t_reg_base (hw_transport s') = Some obj \<and>
     load64 (stats_off S_start_time_sec) (shm_mem w' obj) = 5 \<and>
     load64 (stats_off S_cmd_count) (shm_mem w' obj) = 0"
proof -
  let ?i = "HwModelServer_init (sys_ok 3 4) 5 (HwModelServer_new HwModelConfig_default) empty_world"
  obtain ok s' w' where i: "?i = (ok, s', w')" by (cases ?i)
  have "fst ?i"
    by (simp add: HwModelServer_init_def SimTransport_init_def Let_def shm_open_def sys_mmap_def
        sys_eventfd_def sys_ok_def empty_world_def HwModelServer_new_def SimTransport_new_def)
  with i have "?i = (True, s', w')" by simp
  from this HwModelServer_init_registers [OF this] show ?thesis
    by (auto simp: empty_world_def)
qed

text \<open>
  What a transport holds, compared with the world \<open>w\<close> it started from: only its own two
  descriptors differ, and only its own mapping was added.
\<close>

definition holds_only :: "SimTransport \<Rightarrow> os \<Rightarrow> os \<Rightarrow> bool" where
  "holds_only t w w1 \<longleftrightarrow>
     (\<forall>fd. fd_table w1 fd = fd_table w fd \<or> 0 \<le> fd \<and> (fd = t_shm_fd t \<or> fd = t_irq_fd t)) \<and>
     (0 \<le> t_shm_fd t \<longrightarrow> fd_table w (t_shm_fd t) = None) \<and>
     (0 \<le> t_irq_fd t \<longrightarrow> fd_table w (t_irq_fd t) = None) \<and>
     live_maps w1 = (case t_reg_base t of None \<Rightarrow> live_maps w | Some obj \<Rightarrow> obj # live_maps w) \<and>
     (\<forall>n. n \<noteq> t_shm_name t \<longrightarrow> shm_ns w1 n = shm_ns w n)"

lemma SimTransport_init_holds_only:
  assumes fresh: "fd_table w (shm_open_fd y) = None" "fd_table w (eventfd_fd y) = None"
    and init: "SimTransport_init y (SimTransport_new name) w = (ok, t, w1)"
  shows "holds_only t w w1" "t_shm_name t = name"
    "shm_open_fd y < 0 \<or> t_shm_fd t = shm_open_fd y" "t_shm_fd t < 0 \<Longrightarrow> t_shm_fd t = -1"
    "t_irq_fd t < 0 \<Longrightarrow> t_irq_fd t = -1"
proof -
  obtain fd w0 where open0: "shm_open y name True w = (fd, w0)" by (cases "shm_open y name True w")
  have ns: "fd = (if shm_open_fd y < 0 then -1 else shm_open_fd y)"
    "\<forall>f. fd_table w0 f = fd_table w f \<or> 0 \<le> f \<and> f = fd" "fd < 0 \<Longrightarrow> w0 = w"
    "live_maps w0 = live_maps w" "\<forall>n. n \<noteq> name \<longrightarrow> shm_ns w0 n = shm_ns w n"
    using open0 by (auto simp: shm_open_def split: if_splits option.splits)
  show "holds_only t w w1" "t_shm_name t = name"
    "shm_open_fd y < 0 \<or> t_shm_fd t = shm_open_fd y" "t_shm_fd t < 0 \<Longrightarrow> t_shm_fd t = -1"
    "t_irq_fd t < 0 \<Longrightarrow> t_irq_fd t = -1"
    using init fresh ns
    by (auto simp: SimTransport_init_def SimTransport_new_def open0 Let_def sys_mmap_def
        sys_eventfd_def holds_only_def split: if_splits option.splits open_file.splits)
qed

lemma SimTransport_cleanup_releases:
  assumes "holds_only t w w1" and "SimTransport_cleanup t w1 = (t', w2)"
  shows "fd_table w2 = fd_table w" "live_maps w2 = live_maps w" "t_reg_base t' = None"
    "\<forall>n. n \<noteq> t_shm_name t \<longrightarrow> shm_ns w2 n = shm_ns w n"
    "0 \<le> t_shm_fd t \<Longrightarrow> shm_ns w2 (t_shm_name t) = None"
    "t_shm_fd t' = (if 0 \<le> t_shm_fd t then -1 else t_shm_fd t)"
    "t_irq_fd t' = (if 0 \<le> t_irq_fd t then -1 else t_irq_fd t)"
proof -
  have w2: "fd_table w2 = (\<lambda>fd. if 0 \<le> fd \<and> (fd = t_shm_fd t \<or> fd = t_irq_fd t) then None
      else fd_table w1 fd)"
    using assms(2)
    by (auto simp: SimTransport_cleanup_def Let_def sys_munmap_def sys_close_def shm_unlink_def
        fun_eq_iff split: if_splits option.splits)
  show "fd_table w2 = fd_table w"
    using assms(1) unfolding w2 holds_only_def by (auto simp: fun_eq_iff)
  show "live_maps w2 = live_maps w" "t_reg_base t' = None"
    "\<forall>n. n \<noteq> t_shm_name t \<longrightarrow> shm_ns w2 n = shm_ns w n"
    "0 \<le> t_shm_fd t \<Longrightarrow> shm_ns w2 (t_shm_name t) = None"
    "t_shm_fd t' = (if 0 \<le> t_shm_fd t then -1 else t_shm_fd t)"
    "t_irq_fd t' = (if 0 \<le> t_irq_fd t then -1 else t_irq_fd t)"
    using assms
    by (auto simp: SimTransport_cleanup_def Let_def sys_munmap_def sys_close_def shm_unlink_def
        holds_only_def split: if_splits option.splits)
qed

text \<open>
  The transport releases what it acquires: whether or not initialisation succeeds, and
  at whichever system call it stops, the destructor's cleanup leaves the descriptor table
  and the list of live mappings as they were before, unlinks the name it opened, and resets
  the handle.  (The descriptors the kernel hands out were unused.)
\<close>

theorem SimTransport_releases_everything:
  assumes "fd_table w (shm_open_fd y) = None" and "fd_table w (eventfd_fd y) = None"
    and "SimTransport_init y (SimTransport_new name) w = (ok, t, w1)"
    and "SimTransport_cleanup t w1 = (t', w2)"
  shows "fd_table w2 = fd_table w \<and> live_maps w2 = live_maps w \<and>
    t_reg_base t' = None \<and> t_shm_fd t' = -1 \<and> t_irq_fd t' = -1 \<and>
    (shm_open_fd y < 0 \<or> shm_ns w2 name = None) \<and>
    (\<forall>other. other \<noteq> name \<longrightarrow> shm_ns w2 other = shm_ns w other)"
proof -
  note init = SimTransport_init_holds_only [OF assms(1,2,3)]
  note cl = SimTransport_cleanup_releases [OF init(1) assms(4)]
  show ?thesis
    using cl init(2-5) by (cases "t_shm_fd t < 0"; cases "t_irq_fd t < 0") (auto simp: not_less)
qed

theorem SimTransport_releases_everything_witness:
  "\<exists>t w1 t' w2. SimTransport_init (sys_ok 3 (-1)) (SimTransport_new ''/x'') empty_world
       = (False, t, w1) \<and> fd_table w1 3 = Some (Shm 0) \<and> live_maps w1 = [0] \<and>
     SimTransport_cleanup t w1 = (t', w2) \<and> fd_table w2 = Map.empty \<and> live_maps w2 = []"
proof -
  let ?i = "SimTransport_init (sys_ok 3 (-1)) (SimTransport_new ''/x'') empty_world"
  obtain ok t w1 where i: "?i = (ok, t, w1)" by (cases ?i)
  obtain t' w2 where c: "SimTransport_cleanup t w1 = (t', w2)" by (cases "SimTransport_cleanup t w1")
  have "fst ?i = False \<and> fd_table (snd (snd ?i)) 3 = Some (Shm 0) \<and> live_maps (snd (snd ?i)) = [0]"
    by (simp add: SimTransport_init_def Let_def shm_open_def sys_mmap_def
        sys_eventfd_def sys_ok_def empty_world_def SimTransport_new_def)
  with i c SimTransport_releases_everything [OF _ _ i c] show ?thesis
    by (auto simp: sys_ok_def empty_world_def)
qed

text \<open>One iteration never clears, sets or otherwise acts on the RESET bit.\<close>

lemma poll_iteration_reset_bit:
  assumes "poll_iteration s w = Some (s', w')" and "t_reg_base (hw_transport s) = Some obj"
  shows "load32 (reg_off F_ctrl) (shm_mem w' obj) AND ctrl_RESET =
         load32 (reg_off F_ctrl) (shm_mem w obj) AND ctrl_RESET"
    and "hw_transport s' = hw_transport s"
proof -
  show "load32 (reg_off F_ctrl) (shm_mem w' obj) AND ctrl_RESET =
         load32 (reg_off F_ctrl) (shm_mem w obj) AND ctrl_RESET"
    using assms
    by (auto simp: poll_iteration_def serve_command_def Let_def mem_simps shm_mem_raise_irq
        split: if_splits option.splits)
  show "hw_transport s' = hw_transport s"
    using assms
    by (auto simp: poll_iteration_def serve_command_def Let_def split: if_splits option.splits)
qed

end
