(* ===== verification/Device_Id.thy ===== *)
theory Device_Id
  imports Prelude
begin

text \<open>
  Device identifiers \<^verbatim>\<open><type>/<index>\<close>: the router's \<^verbatim>\<open>parse_device_id\<close>, the index parsers the
  plugins and the management and telemetry services each carry, and the parts of the C++
  library they use (\<^verbatim>\<open>find\<close>, \<^verbatim>\<open>rfind\<close>, \<^verbatim>\<open>std::from_chars\<close>, \<^verbatim>\<open>std::to_string\<close>).
\<close>

subsection \<open>Character search and decimal conversion\<close>

fun find_char :: "char \<Rightarrow> string \<Rightarrow> nat option" where
  "find_char c [] = None"
| "find_char c (x # xs) = (if x = c then Some 0 else map_option Suc (find_char c xs))"

text \<open>\<^verbatim>\<open>rfind\<close>: the position of the last occurrence.\<close>

fun rfind_char :: "char \<Rightarrow> string \<Rightarrow> nat option" where
  "rfind_char c [] = None"
| "rfind_char c (x # xs) =
     (case rfind_char c xs of
        Some i \<Rightarrow> Some (Suc i)
      | None \<Rightarrow> if x = c then Some 0 else None)"

definition is_digit :: "char \<Rightarrow> bool" where
  "is_digit c \<longleftrightarrow> 48 \<le> (of_char c :: nat) \<and> (of_char c :: nat) \<le> 57"

definition digit_char :: "nat \<Rightarrow> char" where
  "digit_char d = char_of (48 + d)"

definition digit_val :: "char \<Rightarrow> nat" where
  "digit_val c = of_char c - 48"

text \<open>\<^verbatim>\<open>std::to_string\<close> of an \<^verbatim>\<open>int\<close> or an unsigned value.\<close>

fun dec_digits :: "nat \<Rightarrow> string" where
  "dec_digits n = (if n < 10 then [digit_char n]
                   else dec_digits (n div 10) @ [digit_char (n mod 10)])"

declare dec_digits.simps [simp del]

definition to_string :: "int \<Rightarrow> string" where
  "to_string i = (if i < 0 then CHR ''-'' # dec_digits (nat (- i)) else dec_digits (nat i))"

definition dec_value :: "string \<Rightarrow> nat" where
  "dec_value ds = foldl (\<lambda>acc c. 10 * acc + digit_val c) 0 ds"

text \<open>
  \<^verbatim>\<open>std::from_chars(first, last, int&)\<close> in base 10: an optional minus sign and the longest
  run of digits after it; \<open>None\<close> where the error code is set (no digit, or the value does not
  fit).  What follows the digits is not looked at.
\<close>

definition from_chars :: "string \<Rightarrow> int option" where
  "from_chars s =
     (let neg = (s \<noteq> [] \<and> hd s = CHR ''-'');
          ds = takeWhile is_digit (if neg then tl s else s) in
      if ds = [] then None
      else let v = (if neg then - int (dec_value ds) else int (dec_value ds)) in
           if - (2 ^ 31) \<le> v \<and> v < 2 ^ 31 then Some v else None)"

subsection \<open>The parsers\<close>

text \<open>\<^verbatim>\<open>HwipServiceImpl::parse_device_id\<close>: type and index, or \<open>None\<close> where it returns false.\<close>

definition parse_device_id :: "string \<Rightarrow> (string \<times> string) option" where
  "parse_device_id device_id =
     (case find_char CHR ''/'' device_id of
        None \<Rightarrow> None
      | Some slash \<Rightarrow>
          if slash = 0 \<or> slash = length device_id - 1 then None
          else Some (take slash device_id, drop (slash + 1) device_id))"

text \<open>
  \<^verbatim>\<open>parse_index\<close> of the accel plugin.  The crc32 plugin, the plugin template, the management
  service and the telemetry service hold textually equal copies.
\<close>

definition accel_parse_index :: "string \<Rightarrow> int" where
  "accel_parse_index device_id =
     (case rfind_char CHR ''/'' device_id of
        None \<Rightarrow> -1
      | Some slash \<Rightarrow>
          (case from_chars (drop (slash + 1) device_id) of
             Some idx \<Rightarrow> idx
           | None \<Rightarrow> -1))"

definition crc32_parse_index :: "string \<Rightarrow> int" where
  "crc32_parse_index = accel_parse_index"

definition mychip_parse_index :: "string \<Rightarrow> int" where
  "mychip_parse_index = accel_parse_index"

definition mgmt_parse_device_index :: "string \<Rightarrow> int" where
  "mgmt_parse_device_index = accel_parse_index"

definition telemetry_parse_device_index :: "string \<Rightarrow> int" where
  "telemetry_parse_device_index = accel_parse_index"

text \<open>The shared-memory name every component builds from the index.\<close>

definition shm_name_of :: "int \<Rightarrow> string" where
  "shm_name_of idx = ''/deepspan_hwip_'' @ to_string idx"

subsection \<open>Search\<close>

lemma find_char_None: "find_char c s = None \<longleftrightarrow> c \<notin> set s"
  by (induction s) auto

lemma find_char_append: "c \<notin> set as \<Longrightarrow> find_char c (as @ c # bs) = Some (length as)"
  by (induction as) auto

lemma find_char_Some:
  "find_char c s = Some i \<Longrightarrow> i < length s \<and> s = take i s @ c # drop (Suc i) s \<and> c \<notin> set (take i s)"
  by (induction s arbitrary: i) (auto split: if_splits)

lemma rfind_char_None: "rfind_char c s = None \<longleftrightarrow> c \<notin> set s"
  by (induction s) (auto split: option.splits)

lemma rfind_char_append: "c \<notin> set bs \<Longrightarrow> rfind_char c (as @ c # bs) = Some (length as)"
  by (induction as) (auto simp: rfind_char_None split: option.splits)

subsection \<open>Decimal round trip\<close>

lemma of_char_digit_char: "d < 10 \<Longrightarrow> of_char (digit_char d) = 48 + d"
  by (simp add: digit_char_def of_char_of)

lemma is_digit_digit_char [simp]: "d < 10 \<Longrightarrow> is_digit (digit_char d)"
  by (simp add: is_digit_def of_char_digit_char)

lemma digit_val_digit_char [simp]: "d < 10 \<Longrightarrow> digit_val (digit_char d) = d"
  by (simp add: digit_val_def of_char_digit_char)

lemma dec_digits_nonempty [simp]: "dec_digits n \<noteq> []"
  by (subst dec_digits.simps) simp

lemma dec_digits_all_digits: "\<forall>c \<in> set (dec_digits n). is_digit c"
proof (induction n rule: dec_digits.induct)
  case (1 n)
  then show ?case by (subst dec_digits.simps) auto
qed

lemma dec_value_snoc: "dec_value (ds @ [c]) = 10 * dec_value ds + digit_val c"
  by (simp add: dec_value_def)

lemma dec_value_digits [simp]: "dec_value (dec_digits n) = n"
proof (induction n rule: dec_digits.induct)
  case (1 n)
  show ?case
  proof (cases "n < 10")
    case True
    then show ?thesis by (subst dec_digits.simps) (simp add: dec_value_def)
  next
    case False
    then have "dec_value (dec_digits n) = 10 * dec_value (dec_digits (n div 10)) + n mod 10"
      by (subst dec_digits.simps) (simp add: dec_value_snoc)
    with 1 False show ?thesis by simp
  qed
qed

lemma takeWhile_digits [simp]: "takeWhile is_digit (dec_digits n) = dec_digits n"
  using dec_digits_all_digits [of n] by (simp add: takeWhile_eq_all_conv)

lemma minus_not_digit: "\<not> is_digit CHR ''-''"
  by (simp add: is_digit_def)

lemma slash_not_digit: "\<not> is_digit CHR ''/''"
  by (simp add: is_digit_def)

lemma hd_dec_digits: "hd (dec_digits n) \<noteq> CHR ''-''"
  using dec_digits_all_digits [of n] minus_not_digit by (metis dec_digits_nonempty hd_in_set)

lemma slash_not_in_digits: "CHR ''/'' \<notin> set (dec_digits n)"
  using dec_digits_all_digits [of n] slash_not_digit by auto

text \<open>What follows the digits does not matter, as long as it does not start with one.\<close>

lemma from_chars_digits:
  assumes "n < 2 ^ 31" and "rest = [] \<or> \<not> is_digit (hd rest)"
  shows "from_chars (dec_digits n @ rest) = Some (int n)"
proof -
  have tw: "takeWhile is_digit (dec_digits n @ rest) = dec_digits n"
    using assms(2) dec_digits_all_digits [of n]
    by (cases rest) (simp_all add: takeWhile_append2)
  have "hd (dec_digits n @ rest) \<noteq> CHR ''-''"
    using hd_dec_digits [of n] by simp
  with assms(1) tw show ?thesis
    by (simp add: from_chars_def Let_def)
qed

lemma from_chars_to_string: "0 \<le> i \<Longrightarrow> i < 2 ^ 31 \<Longrightarrow> from_chars (to_string i) = Some i"
  using from_chars_digits [of "nat i" "[]"] by (simp add: to_string_def)

lemma to_string_inject: "0 \<le> i \<Longrightarrow> 0 \<le> j \<Longrightarrow> to_string i = to_string j \<longleftrightarrow> i = j"
  by (metis dec_value_digits int_nat_eq not_less to_string_def)

lemma slash_not_in_to_string: "0 \<le> i \<Longrightarrow> CHR ''/'' \<notin> set (to_string i)"
  by (simp add: to_string_def slash_not_in_digits)

lemma parse_index_to_string:
  "0 \<le> i \<Longrightarrow> i < 2 ^ 31 \<Longrightarrow> accel_parse_index (t @ CHR ''/'' # to_string i) = i"
  by (simp add: accel_parse_index_def rfind_char_append slash_not_in_to_string from_chars_to_string)

lemmas parse_index_copies =
  crc32_parse_index_def mychip_parse_index_def mgmt_parse_device_index_def
  telemetry_parse_device_index_def

lemma parse_device_id_iff:
  "parse_device_id s = Some (t, i) \<longleftrightarrow>
     s = t @ CHR ''/'' # i \<and> t \<noteq> [] \<and> i \<noteq> [] \<and> CHR ''/'' \<notin> set t"
proof
  assume p: "parse_device_id s = Some (t, i)"
  then obtain k where k: "find_char CHR ''/'' s = Some k" "k \<noteq> 0" "k \<noteq> length s - 1"
    and t: "t = take k s" and i: "i = drop (Suc k) s"
    by (auto simp: parse_device_id_def split: option.splits if_splits)
  note f = find_char_Some [OF k(1)]
  have "i \<noteq> []" using f k(3) by (simp add: i) linarith
  moreover have "t \<noteq> []" using f k(2) by (auto simp: t)
  ultimately show "s = t @ CHR ''/'' # i \<and> t \<noteq> [] \<and> i \<noteq> [] \<and> CHR ''/'' \<notin> set t"
    using f by (simp add: t i)
next
  assume s: "s = t @ CHR ''/'' # i \<and> t \<noteq> [] \<and> i \<noteq> [] \<and> CHR ''/'' \<notin> set t"
  then show "parse_device_id s = Some (t, i)"
    by (auto simp: parse_device_id_def find_char_append)
qed

text \<open>
  The router accepts exactly the identifiers \<open>t/i\<close> with non-empty parts, splits them at
  the first slash, and rejects everything else.
\<close>

theorem parse_device_id_correct:
  "parse_device_id s =
     (if \<exists>t i. s = t @ CHR ''/'' # i \<and> t \<noteq> [] \<and> i \<noteq> [] \<and> CHR ''/'' \<notin> set t
      then Some (takeWhile (\<lambda>c. c \<noteq> CHR ''/'') s, tl (dropWhile (\<lambda>c. c \<noteq> CHR ''/'') s))
      else None)"
proof (cases "parse_device_id s")
  case None
  then have "\<not> (\<exists>t i. s = t @ CHR ''/'' # i \<and> t \<noteq> [] \<and> i \<noteq> [] \<and> CHR ''/'' \<notin> set t)"
    by (metis option.distinct(1) parse_device_id_iff)
  with None show ?thesis by simp
next
  case (Some p)
  obtain t i where p: "p = (t, i)" by (cases p)
  then have s: "s = t @ CHR ''/'' # i \<and> t \<noteq> [] \<and> i \<noteq> [] \<and> CHR ''/'' \<notin> set t"
    using Some parse_device_id_iff by simp
  then have "takeWhile (\<lambda>c. c \<noteq> CHR ''/'') s = t" "dropWhile (\<lambda>c. c \<noteq> CHR ''/'') s = CHR ''/'' # i"
    by (auto simp: takeWhile_append dropWhile_append)
  with Some p s show ?thesis by auto
qed

text \<open>
  C30.  Printing and parsing device identifiers: for every type name without a slash and every
  index that an \<^verbatim>\<open>int\<close> holds, the identifier the registry prints is accepted by the router
  with that type, and every copy of the index parser reads the index back.
\<close>

theorem device_id_round_trip:
  assumes "t \<noteq> []" and "CHR ''/'' \<notin> set t" and "0 \<le> i" and "i < 2 ^ 31"
  shows "parse_device_id (t @ ''/'' @ to_string i) = Some (t, to_string i) \<and>
    accel_parse_index (t @ ''/'' @ to_string i) = i \<and>
    crc32_parse_index (t @ ''/'' @ to_string i) = i \<and>
    mgmt_parse_device_index (t @ ''/'' @ to_string i) = i \<and>
    telemetry_parse_device_index (t @ ''/'' @ to_string i) = i"
proof -
  have "to_string i \<noteq> []" using assms(3) by (simp add: to_string_def)
  with assms show ?thesis
    by (simp add: parse_index_copies parse_index_to_string parse_device_id_iff)
qed

theorem device_id_round_trip_witness:
  "parse_device_id ''accel/12'' = Some (''accel'', ''12'') \<and> accel_parse_index ''accel/12'' = 12"
proof -
  have "to_string 12 = ''12''"
    by (simp add: to_string_def dec_digits.simps digit_char_def char_of_def bit_0)
  then show ?thesis using device_id_round_trip [of "''accel''" 12] by simp
qed

text \<open>
  The index parsers do not check that the digits reach the end of the identifier: any
  suffix that does not start with a digit is ignored, so malformed identifiers alias valid
  ones.
\<close>

theorem parse_index_ignores_suffix:
  assumes "0 \<le> i" and "i < 2 ^ 31" and "\<not> is_digit c" and "CHR ''/'' \<notin> set (c # junk)"
  shows "accel_parse_index (t @ ''/'' @ to_string i @ c # junk) = i"
proof -
  have "rfind_char CHR ''/'' (t @ CHR ''/'' # (to_string i @ c # junk)) = Some (length t)"
    by (rule rfind_char_append) (use assms slash_not_in_to_string in auto)
  moreover have "from_chars (to_string i @ c # junk) = Some i"
    using assms(1,2,3) from_chars_digits [of "nat i" "c # junk"] by (simp add: to_string_def)
  ultimately show ?thesis by (simp add: accel_parse_index_def)
qed

theorem parse_index_ignores_suffix_witness: "accel_parse_index ''accel/0x1'' = 0"
proof -
  have "to_string 0 = ''0''"
    by (simp add: to_string_def dec_digits.simps digit_char_def char_of_def bit_0)
  then show ?thesis
    using parse_index_ignores_suffix [of 0 "CHR ''x''" "''1''" "''accel''"]
    by (simp add: is_digit_def)
qed

end
