(* ===== verification/Crc32_Engine.thy ===== *)
theory Crc32_Engine
  imports Reg_Map
begin

text \<open>
  The CRC32 engine: the table-driven checksum of the crc32 hardware model
  (\<^verbatim>\<open>hwip/crc32/hw-model/src/crc32_hw_model.cpp\<close>), its opcode dispatcher, the opcode maps
  generated for the RPC layer, and the Linux shash bridge
  (\<^verbatim>\<open>kernel/drivers/deepspan/deepspan_crc32_shash.c\<close>).  The reference is the bit-serial
  shift register of the IEEE 802.3 polynomial; the lemmas show that the table-driven loop
  computes it, that the checksum can be computed in pieces, and that it detects every error
  burst of up to four bytes.
\<close>

subsection \<open>The table-driven checksum\<close>

definition crc_poly :: u32 where "crc_poly = 0xEDB88320"

text \<open>One round of the inner loop that builds the table.\<close>

definition crc_bit :: "u32 \<Rightarrow> u32" where
  "crc_bit c = (if c AND 1 \<noteq> 0 then crc_poly XOR drop_bit 1 c else drop_bit 1 c)"

definition crc_table :: "u32 list" where
  "crc_table = map (\<lambda>i. (crc_bit ^^ 8) (of_nat i)) [0..<256]"

definition crc_step :: "u32 \<Rightarrow> u8 \<Rightarrow> u32" where
  "crc_step crc d = crc_table ! unat ((crc XOR ucast d) AND 0xFF) XOR drop_bit 8 crc"

text \<open>\<^verbatim>\<open>compute_crc32(data, len)\<close>, on the \<open>len\<close> bytes read from \<open>data\<close>.\<close>

definition compute_crc32 :: "u8 list \<Rightarrow> u32" where
  "compute_crc32 bs = foldl crc_step 0xFFFFFFFF bs XOR 0xFFFFFFFF"

subsection \<open>Opcode dispatch of the crc32 hardware model\<close>

definition Crc32Op_COMPUTE :: u32 where "Crc32Op_COMPUTE = 0x0001"
definition Crc32Op_GET_POLY :: u32 where "Crc32Op_GET_POLY = 0x0002"

text \<open>
  \<^verbatim>\<open>deepspan_crc32_dispatch\<close>: \<open>base\<close> is the page behind \<^verbatim>\<open>g_shm_base\<close>, or \<open>None\<close> for the
  null pointer.  The result is the return code with the two output words, or \<open>None\<close> where
  the code reads past the end of the mapped page: it takes the length from the argument
  register and does not compare it with the size of the DMA window.
\<close>

definition deepspan_crc32_dispatch ::
    "page option \<Rightarrow> u32 \<Rightarrow> u32 \<Rightarrow> u32 \<Rightarrow> (int \<times> u32 \<times> u32) option" where
  "deepspan_crc32_dispatch base opcode arg0 arg1 =
     (if opcode = Crc32Op_COMPUTE then
        (case base of
           None \<Rightarrow> Some (-1, 0, 0)
         | Some m \<Rightarrow>
             let len = arg0 in
             if len = 0 then Some (0, 0, 0)
             else if kShmDmaOffset + unat len \<le> SHM_TOTAL_SIZE
             then Some (0, compute_crc32 (load_bytes kShmDmaOffset (unat len) m), 0)
             else None)
      else if opcode = Crc32Op_GET_POLY then Some (0, 0xEDB88320, 0)
      else Some (-1, 0, 0))"

text \<open>The opcode tables generated for the RPC layer (\<^verbatim>\<open>gen/rpc/crc32.hpp\<close>).\<close>

definition crc32_proto_op_to_hw_op :: "int \<Rightarrow> u32 \<times> bool" where
  "crc32_proto_op_to_hw_op p =
     (if p = 1 then (Crc32Op_COMPUTE, True)
      else if p = 2 then (Crc32Op_GET_POLY, True)
      else (0, False))"

definition crc32_validate_opcode :: "u32 \<Rightarrow> bool" where
  "crc32_validate_opcode op = (op = Crc32Op_COMPUTE \<or> op = Crc32Op_GET_POLY)"

subsection \<open>The Linux shash bridge\<close>

record deepspan_crc32_ctx =
  ctx_crc :: u32

text \<open>
  \<open>kcrc\<close> is the kernel's \<^verbatim>\<open>crc32(seed, data, len)\<close> helper, which is not part of the
  program; the callbacks pass the running register through it.
\<close>

definition deepspan_crc32_init :: "deepspan_crc32_ctx \<Rightarrow> deepspan_crc32_ctx" where
  "deepspan_crc32_init ctx = ctx\<lparr>ctx_crc := 0xFFFFFFFF\<rparr>"

definition deepspan_crc32_update ::
    "(u32 \<Rightarrow> u8 list \<Rightarrow> u32) \<Rightarrow> u8 list \<Rightarrow> deepspan_crc32_ctx \<Rightarrow> deepspan_crc32_ctx" where
  "deepspan_crc32_update kcrc bs ctx = ctx\<lparr>ctx_crc := kcrc (ctx_crc ctx) bs\<rparr>"

definition deepspan_crc32_final :: "deepspan_crc32_ctx \<Rightarrow> u8 list" where
  "deepspan_crc32_final ctx = le_bytes32 (ctx_crc ctx XOR 0xFFFFFFFF)"

definition deepspan_crc32_finup ::
    "(u32 \<Rightarrow> u8 list \<Rightarrow> u32) \<Rightarrow> u8 list \<Rightarrow> deepspan_crc32_ctx \<Rightarrow> u8 list" where
  "deepspan_crc32_finup kcrc bs ctx = deepspan_crc32_final (deepspan_crc32_update kcrc bs ctx)"

definition deepspan_crc32_digest ::
    "(u32 \<Rightarrow> u8 list \<Rightarrow> u32) \<Rightarrow> u8 list \<Rightarrow> deepspan_crc32_ctx \<Rightarrow> u8 list" where
  "deepspan_crc32_digest kcrc bs ctx = deepspan_crc32_finup kcrc bs (deepspan_crc32_init ctx)"

text \<open>
  The algorithm descriptor handed to the kernel's crypto API, with the callbacks as function
  fields (\<^verbatim>\<open>cra_module\<close> names the module itself and is left out), and the module's entry and
  exit; \<^verbatim>\<open>crypto_register_shash\<close> and \<^verbatim>\<open>crypto_unregister_shash\<close> are kernel code and arguments here.
\<close>

datatype crypto_flag = CRYPTO_ALG_OPTIONAL_KEY

record crypto_alg =
  cra_name :: string
  cra_driver_name :: string
  cra_priority :: nat
  cra_flags :: "crypto_flag list"
  cra_blocksize :: nat

record shash_alg =
  alg_digestsize :: nat
  alg_init :: "deepspan_crc32_ctx \<Rightarrow> deepspan_crc32_ctx"
  alg_update :: "u8 list \<Rightarrow> deepspan_crc32_ctx \<Rightarrow> deepspan_crc32_ctx"
  alg_final :: "deepspan_crc32_ctx \<Rightarrow> u8 list"
  alg_finup :: "u8 list \<Rightarrow> deepspan_crc32_ctx \<Rightarrow> u8 list"
  alg_digest :: "u8 list \<Rightarrow> deepspan_crc32_ctx \<Rightarrow> u8 list"
  alg_descsize :: nat
  alg_base :: crypto_alg

definition DEEPSPAN_CRC32_DIGESTSIZE :: nat where "DEEPSPAN_CRC32_DIGESTSIZE = 4"
definition DEEPSPAN_CRC32_BLOCKSIZE :: nat where "DEEPSPAN_CRC32_BLOCKSIZE = 1"
definition DEEPSPAN_CRC32_PRIORITY :: nat where "DEEPSPAN_CRC32_PRIORITY = 200"

definition deepspan_crc32_alg :: "(u32 \<Rightarrow> u8 list \<Rightarrow> u32) \<Rightarrow> shash_alg" where
  "deepspan_crc32_alg kcrc = \<lparr>
     alg_digestsize = DEEPSPAN_CRC32_DIGESTSIZE,
     alg_init = deepspan_crc32_init,
     alg_update = deepspan_crc32_update kcrc,
     alg_final = deepspan_crc32_final,
     alg_finup = deepspan_crc32_finup kcrc,
     alg_digest = deepspan_crc32_digest kcrc,
     alg_descsize = 4,
     alg_base = \<lparr>
       cra_name = ''crc32'',
       cra_driver_name = ''crc32-deepspan'',
       cra_priority = DEEPSPAN_CRC32_PRIORITY,
       cra_flags = [CRYPTO_ALG_OPTIONAL_KEY],
       cra_blocksize = DEEPSPAN_CRC32_BLOCKSIZE\<rparr>\<rparr>"

definition deepspan_crc32_mod_init ::
    "(shash_alg \<Rightarrow> 'k \<Rightarrow> int \<times> 'k) \<Rightarrow> (u32 \<Rightarrow> u8 list \<Rightarrow> u32) \<Rightarrow> 'k \<Rightarrow> int \<times> 'k" where
  "deepspan_crc32_mod_init crypto_register_shash kcrc k =
     crypto_register_shash (deepspan_crc32_alg kcrc) k"

definition deepspan_crc32_mod_exit ::
    "(shash_alg \<Rightarrow> 'k \<Rightarrow> 'k) \<Rightarrow> (u32 \<Rightarrow> u8 list \<Rightarrow> u32) \<Rightarrow> 'k \<Rightarrow> 'k" where
  "deepspan_crc32_mod_exit crypto_unregister_shash kcrc k =
     crypto_unregister_shash (deepspan_crc32_alg kcrc) k"

subsection \<open>The reference: a bit-serial shift register\<close>

text \<open>
  The register shifts right once per message bit; when the bit that leaves differs from the
  message bit the (reflected) polynomial is added.  The message bits of a byte arrive least
  significant first.
\<close>

definition lfsr_bit :: "u32 \<Rightarrow> bool \<Rightarrow> u32" where
  "lfsr_bit c b = (if odd c \<noteq> b then crc_poly XOR drop_bit 1 c else drop_bit 1 c)"

definition byte_bits :: "u8 \<Rightarrow> bool list" where
  "byte_bits d = map (bit d) [0..<8]"

definition crc_reference :: "u8 list \<Rightarrow> u32" where
  "crc_reference bs = NOT (foldl lfsr_bit (NOT 0) (concat (map byte_bits bs)))"

text \<open>The raw update the kernel documents for \<^verbatim>\<open>crc32()\<close>: no inversion on entry or exit.\<close>

definition crc_raw :: "u32 \<Rightarrow> u8 list \<Rightarrow> u32" where
  "crc_raw seed bs = foldl lfsr_bit seed (concat (map byte_bits bs))"

subsection \<open>Linearity of the register\<close>

lemma and_1_odd: "(c AND 1 \<noteq> 0) \<longleftrightarrow> odd (c :: u32)"
  by (simp add: and_one_eq odd_iff_mod_2_eq_one)

lemma crc_bit_odd: "crc_bit c = (if odd c then crc_poly XOR drop_bit 1 c else drop_bit 1 c)"
  by (simp add: crc_bit_def and_1_odd)

lemma odd_xor: "odd ((a :: u32) XOR b) \<longleftrightarrow> odd a \<noteq> odd b"
  by (simp add: bit_0 [symmetric] bit_simps)

lemma crc_bit_xor: "crc_bit (a XOR b) = crc_bit a XOR crc_bit b"
  by (simp add: crc_bit_odd odd_xor drop_bit_xor ac_simps)

lemma crc_bits_xor: "(crc_bit ^^ n) (a XOR b) = (crc_bit ^^ n) a XOR (crc_bit ^^ n) b"
  by (induction n) (simp_all add: crc_bit_xor)

lemma crc_bit_0 [simp]: "crc_bit 0 = 0"
  by (simp add: crc_bit_def)

text \<open>Below the lowest set bit the rounds only shift.\<close>

lemma crc_bits_shift:
  "take_bit n x = 0 \<Longrightarrow> (crc_bit ^^ n) x = drop_bit n x"
proof (induction n)
  case (Suc n)
  have bits: "\<And>i. i < Suc n \<Longrightarrow> \<not> bit x i"
    using Suc.prems by (metis bit_0_eq bit_take_bit_iff bot_apply bot_bool_def)
  have "take_bit n x = 0"
    by (rule bit_word_eqI) (auto simp: bit_simps bits)
  then have "(crc_bit ^^ n) x = drop_bit n x" by (rule Suc.IH)
  moreover have "even (drop_bit n x)"
    using bits [of n] by (simp add: bit_iff_odd_drop_bit)
  ultimately show ?case
    by (simp add: crc_bit_odd [of "drop_bit n x"] drop_bit_drop_bit)
qed simp

lemma crc_bits_push: "n < 32 \<Longrightarrow> (crc_bit ^^ n) (push_bit n (of_bool b)) = of_bool b"
proof -
  assume n: "n < 32"
  have "take_bit n (push_bit n (of_bool b) :: u32) = 0"
    by (rule bit_word_eqI) (auto simp: bit_simps)
  then have "(crc_bit ^^ n) (push_bit n (of_bool b)) = drop_bit n (push_bit n (of_bool b))"
    by (rule crc_bits_shift)
  also have "\<dots> = of_bool b"
    by (rule bit_word_eqI) (use n in \<open>auto simp: bit_simps\<close>)
  finally show ?thesis .
qed

text \<open>A table entry is eight rounds on its index.\<close>

lemma FF_mask: "(0xFF :: u32) = mask 8"
  by (simp add: mask_eq_exp_minus_1)

lemma crc_table_nth:
  "crc_table ! unat (x AND mask 8) = (crc_bit ^^ 8) (x AND mask 8)"
proof -
  have "unat (x AND mask 8) < 256"
    using take_bit_nat_less_exp [of 8 "unat x"]
    by (simp add: take_bit_eq_mask [symmetric] unsigned_take_bit_eq)
  then show ?thesis by (simp add: crc_table_def)
qed

lemma low_byte_split: "(x :: u32) = (x AND mask 8) XOR (x AND NOT (mask 8))"
  by (rule bit_word_eqI) (auto simp: bit_simps)

lemma take_bit_8_clear: "take_bit 8 ((x :: u32) AND NOT (mask 8)) = 0"
  by (rule bit_word_eqI) (auto simp: bit_simps)

lemma drop_bit_8_clear: "drop_bit 8 ((x :: u32) AND NOT (mask 8)) = drop_bit 8 x"
  by (rule bit_word_eqI) (auto simp: bit_simps dest: bit_imp_le_length)

lemma drop_bit_8_ucast: "drop_bit 8 (ucast (d :: u8) :: u32) = 0"
  by (rule bit_word_eqI) (auto simp: bit_simps dest: bit_imp_le_length)

text \<open>The table step is eight rounds on the register with the byte added.\<close>

lemma crc_step_rounds: "crc_step c d = (crc_bit ^^ 8) (c XOR ucast d)"
proof -
  let ?x = "c XOR ucast d"
  have "(crc_bit ^^ 8) ?x =
      (crc_bit ^^ 8) (?x AND mask 8) XOR (crc_bit ^^ 8) (?x AND NOT (mask 8))"
    by (subst low_byte_split [of ?x]) (rule crc_bits_xor)
  also have "(crc_bit ^^ 8) (?x AND NOT (mask 8)) = drop_bit 8 ?x"
    by (simp only: crc_bits_shift [OF take_bit_8_clear] drop_bit_8_clear)
  also have "drop_bit 8 ?x = drop_bit 8 c"
    by (simp add: drop_bit_xor drop_bit_8_ucast)
  finally show ?thesis by (simp only: crc_step_def FF_mask crc_table_nth)
qed

subsection \<open>The table-driven loop against the shift register\<close>

lemma lfsr_bit_eq: "lfsr_bit c b = crc_bit (c XOR of_bool b)"
proof -
  have "drop_bit 1 (of_bool b :: u32) = 0" by (cases b) simp_all
  then show ?thesis
    by (cases b) (simp_all add: lfsr_bit_def crc_bit_odd odd_xor drop_bit_xor)
qed

text \<open>Up to 32 message bits fed one by one equal as many rounds after adding them at once.\<close>

lemma lfsr_bits:
  "n \<le> 32 \<Longrightarrow>
   foldl lfsr_bit c (map (bit (d :: u32)) [0..<n]) = (crc_bit ^^ n) (c XOR take_bit n d)"
proof (induction n)
  case (Suc n)
  have split: "take_bit (Suc n) d = take_bit n d XOR push_bit n (of_bool (bit d n))"
    by (rule bit_word_eqI) (auto simp: bit_simps less_Suc_eq)
  have "foldl lfsr_bit c (map (bit d) [0..<Suc n]) =
      lfsr_bit (foldl lfsr_bit c (map (bit d) [0..<n])) (bit d n)"
    by simp
  also have "\<dots> = crc_bit ((crc_bit ^^ n) (c XOR take_bit n d) XOR of_bool (bit d n))"
    using Suc by (simp only: lfsr_bit_eq [of "(crc_bit ^^ n) (c XOR take_bit n d)"])
  also have "of_bool (bit d n) = (crc_bit ^^ n) (push_bit n (of_bool (bit d n)))"
    using Suc.prems by (simp add: crc_bits_push)
  finally show ?case
    by (simp add: split crc_bits_xor [symmetric] xor.assoc [symmetric])
qed simp

lemma byte_bits_ucast: "byte_bits d = map (bit (ucast d :: u32)) [0..<8]"
  by (simp add: byte_bits_def bit_simps)

lemma take_bit_ucast8: "take_bit 8 (ucast (d :: u8) :: u32) = ucast d"
  by (rule bit_word_eqI) (auto simp: bit_simps dest: bit_imp_le_length)

lemma crc_step_lfsr: "crc_step c d = foldl lfsr_bit c (byte_bits d)"
  by (simp add: crc_step_rounds byte_bits_ucast lfsr_bits take_bit_ucast8)

lemma crc_loop_lfsr: "foldl crc_step c bs = crc_raw c bs"
  by (induction bs arbitrary: c) (simp_all add: crc_raw_def crc_step_lfsr)

lemma crc_raw_append: "crc_raw c (as @ bs) = crc_raw (crc_raw c as) bs"
  by (simp add: crc_raw_def)

subsection \<open>Error detection\<close>

lemma xor_cancel: "(a :: u32) XOR c = b XOR c \<longleftrightarrow> a = b"
  by (auto simp: bit_eq_iff bit_simps)

lemma bit31_crc_bit: "bit (crc_bit c) 31 = odd c"
  using bit_imp_le_length [of c 32] by (auto simp: crc_bit_odd crc_poly_def bit_simps)

lemma crc_bit_inject: "crc_bit a = crc_bit b \<longleftrightarrow> a = b"
proof
  assume eq: "crc_bit a = crc_bit b"
  then have odd: "odd a = odd b" by (metis bit31_crc_bit)
  with eq have drop: "drop_bit 1 a = drop_bit 1 b"
    by (simp add: crc_bit_odd xor_cancel xor.commute [of crc_poly] split: if_splits)
  show "a = b"
  proof (rule bit_word_eqI)
    fix n show "bit a n = bit b n"
    proof (cases n)
      case 0
      with odd show ?thesis by (simp add: bit_0)
    next
      case (Suc k)
      have "bit (drop_bit 1 a) k = bit (drop_bit 1 b) k" by (simp only: drop)
      with Suc show ?thesis by (simp add: bit_simps)
    qed
  qed
qed simp

lemma crc_bits_inject: "(crc_bit ^^ n) a = (crc_bit ^^ n) b \<longleftrightarrow> a = b"
  by (induction n) (simp_all add: crc_bit_inject)

lemma crc_step_inject: "crc_step a d = crc_step b d \<longleftrightarrow> a = b"
proof -
  have "a XOR ucast d = b XOR ucast d \<longleftrightarrow> a = b"
    by (rule xor_cancel)
  then show ?thesis by (simp only: crc_step_rounds crc_bits_inject)
qed

lemma crc_loop_inject: "foldl crc_step a bs = foldl crc_step b bs \<longleftrightarrow> a = b"
  by (induction bs arbitrary: a b) (simp_all add: crc_step_inject)

text \<open>A run of at most 32 message bits, from a fixed register, is recovered from the result.\<close>

lemma lfsr_bools:
  assumes "length bs \<le> 32"
  shows "foldl lfsr_bit c bs = (crc_bit ^^ length bs) (c XOR horner_sum of_bool 2 bs)"
proof -
  let ?d = "horner_sum of_bool 2 bs :: u32"
  have "map (bit ?d) [0..<length bs] = bs"
    using assms by (intro nth_equalityI) (simp_all add: bit_horner_sum_bit_word_iff)
  moreover have "take_bit (length bs) ?d = ?d"
    by (rule bit_word_eqI) (auto simp: bit_simps bit_horner_sum_bit_word_iff)
  ultimately show ?thesis
    using lfsr_bits [OF assms, of c ?d] by simp
qed

lemma lfsr_burst_inject:
  assumes "length bs = length bs'" and "length bs \<le> 32"
    and "foldl lfsr_bit c bs = foldl lfsr_bit c bs'"
  shows "bs = bs'"
proof -
  have "c XOR horner_sum of_bool 2 bs = c XOR (horner_sum of_bool 2 bs' :: u32)"
    using assms by (simp add: lfsr_bools crc_bits_inject)
  then have eq: "horner_sum of_bool 2 bs = (horner_sum of_bool 2 bs' :: u32)"
    by (simp add: xor.commute [of c] xor_cancel)
  show ?thesis
  proof (rule nth_equalityI)
    fix i assume i: "i < length bs"
    have "bit (horner_sum of_bool 2 bs :: u32) i = bit (horner_sum of_bool 2 bs' :: u32) i"
      by (simp only: eq)
    with i assms(1,2) show "bs ! i = bs' ! i"
      by (simp add: bit_horner_sum_bit_word_iff)
  qed (fact assms(1))
qed

lemma byte_bits_inject: "byte_bits a = byte_bits b \<longleftrightarrow> a = b"
proof
  assume "byte_bits a = byte_bits b"
  then have "\<And>i. i < 8 \<Longrightarrow> bit a i = bit b i"
    by (simp add: byte_bits_def)
  then show "a = b" by (intro bit_word_eqI) simp
qed simp

lemma length_byte_bits [simp]: "length (byte_bits d) = 8"
  by (simp add: byte_bits_def)

lemma length_concat_byte_bits [simp]: "length (concat (map byte_bits bs)) = 8 * length bs"
  by (induction bs) simp_all

lemma concat_byte_bits_inject:
  "length as = length bs \<Longrightarrow>
   concat (map byte_bits as) = concat (map byte_bits bs) \<longleftrightarrow> as = bs"
  by (induction as bs rule: list_induct2) (simp_all add: byte_bits_inject)

lemma compute_crc32_reference: "compute_crc32 bs = crc_reference bs"
proof -
  have inv: "(0xFFFFFFFF :: u32) = NOT 0" by simp
  show ?thesis
    unfolding compute_crc32_def crc_reference_def crc_loop_lfsr crc_raw_def inv
    by (rule bit_word_eqI) (auto simp: bit_simps)
qed

lemma crc_reference_Nil [simp]: "crc_reference [] = 0"
  by (simp add: crc_reference_def)

lemma crc32_dispatch_compute:
  "deepspan_crc32_dispatch (Some m) Crc32Op_COMPUTE a0 a1 =
     (if unat a0 \<le> 0xD00
      then Some (0, crc_reference (load_bytes kShmDmaOffset (unat a0) m), 0) else None)"
  by (auto simp: deepspan_crc32_dispatch_def compute_crc32_reference Let_def load_bytes_def)

lemma crc32_dispatch_other:
  "op \<noteq> Crc32Op_COMPUTE \<Longrightarrow> deepspan_crc32_dispatch b op a0 a1 =
     (if op = Crc32Op_GET_POLY then Some (0, crc_poly, 0) else Some (-1, 0, 0))"
  by (simp add: deepspan_crc32_dispatch_def crc_poly_def)

lemmas crc32_opcodes = Crc32Op_COMPUTE_def Crc32Op_GET_POLY_def

subsection \<open>Evaluation\<close>

lemma funpow_8: "(f ^^ 8) x = f (f (f (f (f (f (f (f x)))))))"
  by (simp add: eval_nat_numeral)

text \<open>The check value every CRC32 implementation is tested with.\<close>

lemma crc32_check_value:
  "compute_crc32 [0x31, 0x32, 0x33, 0x34, 0x35, 0x36, 0x37, 0x38, 0x39] = 0xCBF43926"
  apply (simp add: compute_crc32_def crc_step_rounds funpow_8)
  apply (simp add: crc_bit_def crc_poly_def)
  done

subsection \<open>Properties\<close>


text \<open>
  C27.  The checksum detects every change confined to four consecutive bytes: two messages
  that agree outside such a window and differ inside it never have the same CRC32.
\<close>

theorem compute_crc32_detects_bursts:
  assumes "length w = length w'" and "length w \<le> 4" and "w \<noteq> w'"
  shows "compute_crc32 (as @ w @ bs) \<noteq> compute_crc32 (as @ w' @ bs)"
proof
  assume "compute_crc32 (as @ w @ bs) = compute_crc32 (as @ w' @ bs)"
  then have "foldl crc_step (foldl crc_step 0xFFFFFFFF as) w
      = foldl crc_step (foldl crc_step 0xFFFFFFFF as) w'"
    by (simp add: compute_crc32_def xor_cancel crc_loop_inject)
  then have "concat (map byte_bits w) = concat (map byte_bits w')"
    using assms(1,2) by (intro lfsr_burst_inject) (simp_all add: crc_loop_lfsr crc_raw_def)
  with assms(1,3) show False by (simp add: concat_byte_bits_inject)
qed

theorem compute_crc32_detects_bursts_witness:
  "compute_crc32 ([0x31] @ [0x32, 0x33] @ [0x34]) \<noteq> compute_crc32 ([0x31] @ [0x32, 0x30] @ [0x34])"
  by (rule compute_crc32_detects_bursts) simp_all

text \<open>
  The crc32 dispatcher on every branch: with the page attached, a COMPUTE command whose
  length fits the mapped page returns success and the CRC32 of that many bytes of the DMA
  window (0 for the empty message), GET_POLY returns the polynomial, any other opcode
  returns -1 with zero results, and a longer COMPUTE length runs off the page; the opcodes it
  rejects are exactly those the generated validator rejects.
\<close>

theorem crc32_dispatch_correct:
  "deepspan_crc32_dispatch (Some m) op a0 a1 =
     (if op = 1 then
        (if unat a0 \<le> 0xD00
         then Some (0, crc_reference (load_bytes 0x300 (unat a0) m), 0) else None)
      else if op = 2 then Some (0, crc_poly, 0) else Some (-1, 0, 0)) \<and>
   crc32_validate_opcode op =
     (case deepspan_crc32_dispatch (Some m) op a0 a1 of None \<Rightarrow> True
      | Some (rc, r0, r1) \<Rightarrow> rc = 0)"
  using crc32_dispatch_compute [of m a0 a1] crc32_dispatch_other [of op "Some m" a0 a1]
  by (auto simp: crc32_validate_opcode_def crc32_opcodes)

lemma shash_fold_update:
  assumes "\<And>seed bs. kcrc seed bs = crc_raw seed bs"
  shows "ctx_crc (fold (deepspan_crc32_update kcrc) cs c) = crc_raw (ctx_crc c) (concat cs)"
  by (induction cs arbitrary: c)
    (simp_all add: deepspan_crc32_update_def assms crc_raw_append, simp add: crc_raw_def)

text \<open>
  C28.  The shash bridge and the hardware model agree: if the kernel's helper is the raw
  (uninverted) CRC update it documents, then the algorithm the module registers, driven
  through its descriptor with any sequence of chunks (init, update and final; the last chunk
  through finup; all at once through digest), yields the little-endian bytes of the checksum
  the hardware model computes for the concatenated data, of the digest size it declares.
\<close>

theorem shash_matches_hw_model:
  assumes "\<And>seed bs. kcrc seed bs = crc_raw seed bs"
    and "deepspan_crc32_mod_init (\<lambda>a k. (0, a # k)) kcrc [] = (0, [alg])"
  shows "alg_final alg (fold (alg_update alg) chunks (alg_init alg ctx)) = le_bytes32 (compute_crc32 (concat chunks)) \<and>
         alg_finup alg bs (fold (alg_update alg) chunks (alg_init alg ctx)) =
           le_bytes32 (compute_crc32 (concat chunks @ bs)) \<and>
         alg_digest alg (concat chunks) ctx = le_bytes32 (compute_crc32 (concat chunks)) \<and>
         length (alg_digest alg bs ctx) = alg_digestsize alg"
proof -
  have "alg = deepspan_crc32_alg kcrc"
    using assms(2) by (simp add: deepspan_crc32_mod_init_def)
  then show ?thesis
    by (simp add: deepspan_crc32_alg_def DEEPSPAN_CRC32_DIGESTSIZE_def deepspan_crc32_digest_def
        deepspan_crc32_finup_def deepspan_crc32_update_def deepspan_crc32_final_def
        shash_fold_update [OF assms(1)]
        deepspan_crc32_init_def assms(1) compute_crc32_def crc_loop_lfsr crc_raw_append)
qed

theorem shash_matches_hw_model_witness:
  "alg_final (deepspan_crc32_alg crc_raw) (fold (alg_update (deepspan_crc32_alg crc_raw)) [[0x31, 0x32], [], [0x33]]
       (alg_init (deepspan_crc32_alg crc_raw) \<lparr>ctx_crc = 0\<rparr>))
     = le_bytes32 (compute_crc32 (concat [[0x31, 0x32], [], [0x33]]))"
  using shash_matches_hw_model [of crc_raw "deepspan_crc32_alg crc_raw"
      "[[0x31, 0x32], [], [0x33]]" "\<lparr>ctx_crc = 0\<rparr>" "[]"]
  by (simp only: deepspan_crc32_mod_init_def)

end
