(* ===== verification/Plugins.thy ===== *)
theory Plugins
  imports Hw_Model Device_Id Crc32_Engine
begin

text \<open>
  The HWIP plugins (\<^verbatim>\<open>hwip/accel/plugin\<close>, \<^verbatim>\<open>hwip/crc32/plugin\<close>, \<^verbatim>\<open>hwip/_template/plugin\<close>) and
  the \<^verbatim>\<open>Submitter\<close> interface they implement.  A plugin talks to the hardware model through
  the shared page; what the other side does between two polls of the plugin is an input
  (\<open>env\<close>, by poll number), instantiated by the hardware model's own poll step.
\<close>

subsection \<open>The Submitter interface\<close>

record SubmitResult =
  request_id :: string
  response_data :: "u8 list"

record DeviceInfo =
  di_device_id :: string
  di_state :: int

type_synonym env = "nat \<Rightarrow> page \<Rightarrow> page"

text \<open>
  A \<^verbatim>\<open>unique_ptr<Submitter>\<close>: its virtual methods and its destructor, as functions of the
  world.
\<close>

record submitter =
  sub_submit :: "env \<Rightarrow> u32 \<Rightarrow> u8 list \<Rightarrow> os \<Rightarrow> (cxx_exn + SubmitResult) \<times> os"
  sub_device_state :: "os \<Rightarrow> int"
  sub_device_id :: string
  sub_destroy :: "os \<Rightarrow> os"

subsection \<open>Members shared by the two shared-memory plugins\<close>

record ShmPlugin =
  p_device_id :: string
  p_device_index :: int
  p_shm_fd :: int
  p_shm_base :: "nat option"

text \<open>
  The constructors of \<^verbatim>\<open>AccelPlugin\<close> and \<^verbatim>\<open>Crc32Plugin\<close> differ in the class name of their
  messages and in the (equal) copy of the index parser.
\<close>

definition shm_plugin_new ::
    "string \<Rightarrow> (string \<Rightarrow> int) \<Rightarrow> sys \<Rightarrow> string \<Rightarrow> os \<Rightarrow> (cxx_exn + ShmPlugin) \<times> os" where
  "shm_plugin_new cls parse y device_id w =
     (let idx = parse device_id in
      if idx < 0 then (Inl (Invalid_argument (cls @ '': bad device_id: '' @ device_id)), w)
      else
        let (fd, w) = shm_open y (shm_name_of idx) False w in
        if fd < 0 then
          (Inr \<lparr>p_device_id = device_id, p_device_index = idx, p_shm_fd = fd, p_shm_base = None\<rparr>, w)
        else
          (case sys_mmap y fd w of
             (None, w) \<Rightarrow>
               (Inl (Runtime_error (cls @ '': mmap failed for '' @ shm_name_of idx)), sys_close fd w)
           | (Some obj, w) \<Rightarrow>
               (Inr \<lparr>p_device_id = device_id, p_device_index = idx, p_shm_fd = fd,
                     p_shm_base = Some obj\<rparr>, w)))"

definition AccelPlugin_new :: "sys \<Rightarrow> string \<Rightarrow> os \<Rightarrow> (cxx_exn + ShmPlugin) \<times> os" where
  "AccelPlugin_new = shm_plugin_new ''AccelPlugin'' accel_parse_index"

definition Crc32Plugin_new :: "sys \<Rightarrow> string \<Rightarrow> os \<Rightarrow> (cxx_exn + ShmPlugin) \<times> os" where
  "Crc32Plugin_new = shm_plugin_new ''Crc32Plugin'' crc32_parse_index"

text \<open>The destructors are equal.\<close>

definition AccelPlugin_destroy :: "ShmPlugin \<Rightarrow> os \<Rightarrow> os" where
  "AccelPlugin_destroy p w =
     (let w = (case p_shm_base p of None \<Rightarrow> w | Some obj \<Rightarrow> sys_munmap obj w)
      in if p_shm_fd p \<ge> 0 then sys_close (p_shm_fd p) w else w)"

definition Crc32Plugin_destroy :: "ShmPlugin \<Rightarrow> os \<Rightarrow> os" where
  "Crc32Plugin_destroy = AccelPlugin_destroy"

definition kMaxPolls :: nat where "kMaxPolls = 50000"

text \<open>
  The poll loop of \<^verbatim>\<open>submit\<close>: load the control register until START is clear, at most \<open>n\<close>
  times.  Poll \<open>i\<close> sees what the other side did up to then.
\<close>

fun poll_start_clear :: "env \<Rightarrow> nat \<Rightarrow> nat \<Rightarrow> nat \<Rightarrow> page \<Rightarrow> bool \<times> page" where
  "poll_start_clear env off i 0 m = (False, m)"
| "poll_start_clear env off i (Suc n) m =
     (let m = env i m in
      if load32 off m AND ctrl_START = 0 then (True, m)
      else poll_start_clear env off (Suc i) n m)"

subsection \<open>AccelPlugin::submit\<close>

definition accel_submit_page ::
    "env \<Rightarrow> string \<Rightarrow> u32 \<Rightarrow> u8 list \<Rightarrow> page \<Rightarrow> (cxx_exn + SubmitResult) \<times> page" where
  "accel_submit_page env dev opcode payload m =
     (let arg0 = (if length payload \<ge> 4 then word32_at 0 payload else 0);
          arg1 = (if length payload \<ge> 8 then word32_at 4 payload else 0);
          m = store32 (accel_RegOffsets CMD_OPCODE) opcode m;
          m = store32 (accel_RegOffsets CMD_ARG0) arg0 m;
          m = store32 (accel_RegOffsets CMD_ARG1) arg1 m;
          m = store32 (accel_RegOffsets CTRL) (load32 (accel_RegOffsets CTRL) m OR ctrl_START) m;
          (completed, m) = poll_start_clear env (accel_RegOffsets CTRL) 0 kMaxPolls m in
      if \<not> completed then (Inl (Runtime_error (''AccelPlugin: submit timeout for '' @ dev)), m)
      else
        let m = env kMaxPolls m; r0 = load32 (accel_RegOffsets RESULT_DATA0) m;
            m = env (kMaxPolls + 1) m; r1 = load32 (accel_RegOffsets RESULT_DATA1) m in
        (Inr \<lparr>request_id = dev @ ''-'' @ to_string (uint opcode),
              response_data = le_bytes32 r0 @ le_bytes32 r1\<rparr>, m))"

definition AccelPlugin_submit ::
    "ShmPlugin \<Rightarrow> env \<Rightarrow> u32 \<Rightarrow> u8 list \<Rightarrow> os \<Rightarrow> (cxx_exn + SubmitResult) \<times> os" where
  "AccelPlugin_submit p env opcode payload w =
     (case p_shm_base p of
        None \<Rightarrow> (Inl (Runtime_error (''AccelPlugin: SHM not mapped for '' @ p_device_id p)), w)
      | Some obj \<Rightarrow>
          let (r, m) = accel_submit_page env (p_device_id p) opcode payload (shm_mem w obj)
          in (r, upd_page obj (\<lambda>_. m) w))"

definition AccelPlugin_device_state :: "ShmPlugin \<Rightarrow> os \<Rightarrow> int" where
  "AccelPlugin_device_state p w =
     (case p_shm_base p of
        None \<Rightarrow> -1
      | Some obj \<Rightarrow>
          if load32 (accel_RegOffsets STATUS) (shm_mem w obj) AND status_READY \<noteq> 0 then 2 else 1)"

subsection \<open>Crc32Plugin::submit\<close>

definition crc32_submit_page ::
    "env \<Rightarrow> string \<Rightarrow> u32 \<Rightarrow> u8 list \<Rightarrow> page \<Rightarrow> (cxx_exn + SubmitResult) \<times> page" where
  "crc32_submit_page env dev opcode payload m =
     (let (arg0, arg1, m) =
            (if opcode = Crc32Op_COMPUTE then
               let len = min (length payload) kShmDmaMaxLen;
                   m = (if len > 0 then store_bytes kShmDmaOffset (take len payload) m else m)
               in (of_nat len, 0, m)
             else
               (if length payload \<ge> 4 then word32_at 0 payload else 0,
                if length payload \<ge> 8 then word32_at 4 payload else 0, m));
          m = store32 (crc32_RegOffsets CMD_OPCODE) opcode m;
          m = store32 (crc32_RegOffsets CMD_ARG0) arg0 m;
          m = store32 (crc32_RegOffsets CMD_ARG1) arg1 m;
          m = store32 (crc32_RegOffsets CTRL) (load32 (crc32_RegOffsets CTRL) m OR ctrl_START) m;
          (completed, m) = poll_start_clear env (crc32_RegOffsets CTRL) 0 kMaxPolls m in
      if \<not> completed then (Inl (Runtime_error (''Crc32Plugin: submit timeout for '' @ dev)), m)
      else
        let m = env kMaxPolls m; r0 = load32 (crc32_RegOffsets RESULT_DATA0) m;
            m = env (kMaxPolls + 1) m; r1 = load32 (crc32_RegOffsets RESULT_DATA1) m in
        (Inr \<lparr>request_id = dev @ ''-'' @ to_string (uint opcode),
              response_data = le_bytes32 r0 @ le_bytes32 r1\<rparr>, m))"

definition Crc32Plugin_submit ::
    "ShmPlugin \<Rightarrow> env \<Rightarrow> u32 \<Rightarrow> u8 list \<Rightarrow> os \<Rightarrow> (cxx_exn + SubmitResult) \<times> os" where
  "Crc32Plugin_submit p env opcode payload w =
     (case p_shm_base p of
        None \<Rightarrow> (Inl (Runtime_error (''Crc32Plugin: SHM not mapped for '' @ p_device_id p)), w)
      | Some obj \<Rightarrow>
          let (r, m) = crc32_submit_page env (p_device_id p) opcode payload (shm_mem w obj)
          in (r, upd_page obj (\<lambda>_. m) w))"

definition Crc32Plugin_device_state :: "ShmPlugin \<Rightarrow> os \<Rightarrow> int" where
  "Crc32Plugin_device_state p w =
     (case p_shm_base p of
        None \<Rightarrow> -1
      | Some obj \<Rightarrow>
          if load32 (crc32_RegOffsets STATUS) (shm_mem w obj) AND status_READY \<noteq> 0 then 2 else 1)"

subsection \<open>The plugins as submitters\<close>

definition AccelPlugin_submitter :: "ShmPlugin \<Rightarrow> submitter" where
  "AccelPlugin_submitter p =
     \<lparr>sub_submit = AccelPlugin_submit p, sub_device_state = AccelPlugin_device_state p,
      sub_device_id = p_device_id p, sub_destroy = AccelPlugin_destroy p\<rparr>"

definition Crc32Plugin_submitter :: "ShmPlugin \<Rightarrow> submitter" where
  "Crc32Plugin_submitter p =
     \<lparr>sub_submit = Crc32Plugin_submit p, sub_device_state = Crc32Plugin_device_state p,
      sub_device_id = p_device_id p, sub_destroy = Crc32Plugin_destroy p\<rparr>"

text \<open>The template plugin: no hardware, a fixed answer.\<close>

record MychipPlugin =
  my_device_id :: string
  my_device_index :: int

definition MychipPlugin_new :: "string \<Rightarrow> cxx_exn + MychipPlugin" where
  "MychipPlugin_new device_id =
     (let idx = mychip_parse_index device_id in
      if idx < 0 then Inl (Invalid_argument (''MychipPlugin: bad device_id: '' @ device_id))
      else Inr \<lparr>my_device_id = device_id, my_device_index = idx\<rparr>)"

definition MychipPlugin_submit :: "MychipPlugin \<Rightarrow> u32 \<Rightarrow> u8 list \<Rightarrow> SubmitResult" where
  "MychipPlugin_submit p opcode payload =
     \<lparr>request_id = my_device_id p @ ''-'' @ to_string (uint opcode), response_data = []\<rparr>"

definition MychipPlugin_device_state :: "MychipPlugin \<Rightarrow> int" where
  "MychipPlugin_device_state p = (if my_device_index p < 1 then 1 else -1)"

subsection \<open>The hardware side\<close>

text \<open>
  One poll of the hardware model on the page alone, with its counter and the IRQ option:
  \<open>poll_iteration\<close> of the hardware model, restricted to the page (lemma
  \<open>hw_page_poll_refines\<close>).
\<close>

definition hw_page_poll :: "cmd_handler \<Rightarrow> bool \<Rightarrow> u64 \<Rightarrow> page \<Rightarrow> page option" where
  "hw_page_poll h irq count m =
     (if load32 (reg_off F_ctrl) m AND ctrl_START \<noteq> 0 then
        (case serve_command h count m of
           None \<Rightarrow> None
         | Some (_, m') \<Rightarrow>
             Some (if irq then store32 (reg_off F_irq_status)
                                 (load32 (reg_off F_irq_status) m' OR 1) m' else m'))
      else Some m)"

text \<open>The hardware model reaches the command at the plugin's poll number \<open>k\<close> and keeps polling.\<close>

definition hw_env :: "cmd_handler \<Rightarrow> bool \<Rightarrow> u64 \<Rightarrow> nat \<Rightarrow> env" where
  "hw_env h irq count k i m =
     (if i < k then m else case hw_page_poll h irq count m of Some m' \<Rightarrow> m' | None \<Rightarrow> m)"

text \<open>The accel opcode dispatcher (\<^verbatim>\<open>hwip/accel/hw-model\<close>) and the generated opcode maps.\<close>

definition AccelOp_ECHO :: u32 where "AccelOp_ECHO = 0x0001"
definition AccelOp_PROCESS :: u32 where "AccelOp_PROCESS = 0x0002"
definition AccelOp_STATUS :: u32 where "AccelOp_STATUS = 0x0003"

definition deepspan_accel_dispatch :: "u32 \<Rightarrow> u32 \<Rightarrow> u32 \<Rightarrow> int \<times> u32 \<times> u32" where
  "deepspan_accel_dispatch opcode arg0 arg1 =
     (if opcode = AccelOp_ECHO then (0, arg0, arg1)
      else if opcode = AccelOp_STATUS then (0, 0x1, 0)
      else if opcode = AccelOp_PROCESS then (0, 0, 0)
      else (-1, 0, 0))"

definition accel_proto_op_to_hw_op :: "int \<Rightarrow> u32 \<times> bool" where
  "accel_proto_op_to_hw_op p =
     (if p = 1 then (AccelOp_ECHO, True)
      else if p = 2 then (AccelOp_PROCESS, True)
      else if p = 3 then (AccelOp_STATUS, True)
      else (0, False))"

definition accel_validate_opcode :: "u32 \<Rightarrow> bool" where
  "accel_validate_opcode op = (op = AccelOp_ECHO \<or> op = AccelOp_PROCESS \<or> op = AccelOp_STATUS)"

text \<open>The handler the crc32 end-to-end fixture installs around the dispatcher.\<close>

definition crc32_cmd_handler :: cmd_handler where
  "crc32_cmd_handler m op a0 a1 =
     (case deepspan_crc32_dispatch (Some m) op a0 a1 of
        None \<Rightarrow> None
      | Some (rc, r0, r1) \<Rightarrow> Some (if rc = 0 then 0 else 1, r0, r1))"

end
