(* ===== verification/Submit_Path.thy ===== *)
theory Submit_Path
  imports Plugins
begin

text \<open>
  The simulated submit path end to end: a plugin writes a command, the hardware model serves
  it, the plugin reads the result.  The lemmas compose the plugin's poll loop with the
  hardware model's poll step and give the functional behaviour of \<^verbatim>\<open>submit\<close> for any command
  handler, its behaviour under a timeout, and the resource behaviour of the plugin objects
  (the contract \<open>submitter_contract\<close>, interpreted on both plugins).
\<close>

subsection \<open>The poll loop\<close>

text \<open>The loop returns at the first poll that finds START clear.\<close>

lemma poll_start_clear_at:
  assumes "k < n" and "\<And>j. j < k \<Longrightarrow> env (i + j) m = m"
    and "load32 off m AND ctrl_START \<noteq> 0"
    and "env (i + k) m = m'" and "load32 off m' AND ctrl_START = 0"
  shows "poll_start_clear env off i n m = (True, m')"
  using assms
proof (induction k arbitrary: i n)
  case 0
  then show ?case by (cases n) (simp_all add: Let_def)
next
  case (Suc k)
  then obtain n' where n: "n = Suc n'" by (cases n) simp_all
  have here: "env i m = m" using Suc.prems(2) [of 0] by simp
  have "poll_start_clear env off (Suc i) n' m = (True, m')"
    using Suc.prems(1,3,4,5) Suc.prems(2) [of "Suc j" for j]
    by (intro Suc.IH) (simp_all add: n)
  then show ?case using Suc.prems(3) by (simp add: n Let_def here)
qed

text \<open>If no step of the other side clears START the loop gives up with START still set.\<close>

lemma poll_start_clear_timeout:
  assumes "\<And>j m. load32 off m AND ctrl_START \<noteq> 0 \<Longrightarrow> load32 off (env j m) AND ctrl_START \<noteq> 0"
    and "load32 off m AND ctrl_START \<noteq> 0"
  shows "\<exists>m'. poll_start_clear env off i n m = (False, m') \<and> load32 off m' AND ctrl_START \<noteq> 0"
  using assms(2)
proof (induction n arbitrary: i m)
  case (Suc n)
  have "load32 off (env i m) AND ctrl_START \<noteq> 0" using assms(1) Suc.prems by blast
  then show ?case using Suc.IH by (simp add: Let_def)
qed simp

text \<open>A positive answer always comes from a page whose START bit is clear.\<close>

lemma poll_start_clear_True:
  "poll_start_clear env off i n m = (True, m') \<Longrightarrow> load32 off m' AND ctrl_START = 0"
  by (induction n arbitrary: i m) (auto simp: Let_def split: if_splits)

subsection \<open>The hardware model's step on the page\<close>

text \<open>\<open>hw_page_poll\<close> is \<open>poll_iteration\<close> seen through the page.\<close>

lemma hw_page_poll_refines:
  assumes "t_reg_base (hw_transport s) = Some obj"
  shows "map_option (\<lambda>(s', w'). shm_mem w' obj) (poll_iteration s w) =
    hw_page_poll (hw_handler s) (cfg_auto_irq (hw_cfg s)) (hw_cmd_count s) (shm_mem w obj)"
  using assms
  by (auto simp: poll_iteration_def hw_page_poll_def Let_def shm_mem_raise_irq split: option.splits)

lemma hw_page_poll_idle:
  "load32 0 m AND ctrl_START = 0 \<Longrightarrow> hw_page_poll h irq count m = Some m"
  by (simp add: hw_page_poll_def)

text \<open>The statistics block one served command later: one more command, start time and firmware counter kept.\<close>

definition stats_served :: "u64 \<Rightarrow> page \<Rightarrow> page \<Rightarrow> bool" where
  "stats_served count m m' \<longleftrightarrow>
     load64 (stats_off S_cmd_count) m' = count + 1 \<and>
     load64 (stats_off S_start_time_sec) m' = load64 (stats_off S_start_time_sec) m \<and>
     load64 (stats_off S_fw_cmd_count) m' = load64 (stats_off S_fw_cmd_count) m"

lemma stats_served_store32:
  "a + 4 \<le> 0x200 \<Longrightarrow> stats_served count (store32 a v m) m' = stats_served count m m'"
  by (simp add: stats_served_def mem_simps)

lemma stats_served_store_bytes:
  "0x220 \<le> a \<Longrightarrow> stats_served count (store_bytes a bs m) m' = stats_served count m m'"
  by (simp add: stats_served_def load64_def load_bytes_store_bytes_other layout_simps)

lemma hw_page_poll_serves:
  assumes "load32 0 m AND ctrl_START \<noteq> 0"
    and "h m (load32 0x100 m) (load32 0x104 m) (load32 0x108 m) = Some (st, r0, r1)"
  obtains m' where "hw_page_poll h irq count m = Some m'"
    and "load32 0 m' AND ctrl_START = 0" and "load32 0x114 m' = r0" and "load32 0x118 m' = r1"
    and "load32 0x110 m' = st" and "load32 4 m' = status_READY" and "stats_served count m m'"
    and "\<And>n. load_bytes kShmDmaOffset n m' = load_bytes kShmDmaOffset n m"
  using assms
  by (simp add: hw_page_poll_def serve_command_def Let_def mem_simps stats_served_def)

text \<open>
  A complete exchange: from a page with a pending command, the plugin's loop ends at poll
  \<open>k\<close> with the handler's results in the page, and nothing changes any more.
\<close>

lemma exchange:
  assumes "k < kMaxPolls" and "load32 0 m AND ctrl_START \<noteq> 0"
    and "h m (load32 0x100 m) (load32 0x104 m) (load32 0x108 m) = Some (st, r0, r1)"
  obtains m' where "poll_start_clear (hw_env h irq count k) 0 0 kMaxPolls m = (True, m')"
    and "\<And>i. k \<le> i \<Longrightarrow> hw_env h irq count k i m' = m'"
    and "load32 0x114 m' = r0" and "load32 0x118 m' = r1" and "load32 0x110 m' = st"
    and "load32 4 m' = status_READY" and "load32 0 m' AND ctrl_START = 0" and "stats_served count m m'"
proof -
  obtain m' where m': "hw_page_poll h irq count m = Some m'" "load32 0 m' AND ctrl_START = 0"
    "load32 0x114 m' = r0" "load32 0x118 m' = r1" "load32 0x110 m' = st"
    "load32 4 m' = status_READY" "stats_served count m m'"
    using hw_page_poll_serves [of m h, OF assms(2,3)] by metis
  show ?thesis
  proof
    show "poll_start_clear (hw_env h irq count k) 0 0 kMaxPolls m = (True, m')"
      using assms(1,2) m'(1,2) by (intro poll_start_clear_at) (auto simp: hw_env_def)
    show "hw_env h irq count k i m' = m'" if "k \<le> i" for i
      using that m'(2) by (simp add: hw_env_def hw_page_poll_idle)
  qed (fact m')+
qed

subsection \<open>Functional behaviour of submit\<close>

text \<open>The payload bytes the two argument registers receive.\<close>

definition arg_bytes :: "u8 list \<Rightarrow> u8 list" where
  "arg_bytes payload =
     (if length payload \<ge> 8 then take 8 payload
      else if length payload \<ge> 4 then take 4 payload @ [0, 0, 0, 0]
      else [0, 0, 0, 0, 0, 0, 0, 0])"

lemma le_bytes32_word32_at:
  "off + 4 \<le> length bs \<Longrightarrow> le_bytes32 (word32_at off bs) = take 4 (drop off bs)"
  by (intro nth_equalityI)
    (auto simp: word32_at_def less_Suc_eq numeral_eq_Suc ac_simps)

lemma le_bytes32_0 [simp]: "le_bytes32 0 = [0, 0, 0, 0]"
  by (simp add: le_bytes32_def)

lemma arg_bytes_encoding:
  "le_bytes32 (if length payload \<ge> 4 then word32_at 0 payload else 0) @
   le_bytes32 (if length payload \<ge> 8 then word32_at 4 payload else 0) = arg_bytes payload"
proof (cases "length payload \<ge> 8")
  case True
  then have "take 4 payload @ take 4 (drop 4 payload) = take 8 payload"
    using take_add [of 4 4 payload] by simp
  with True show ?thesis by (simp add: arg_bytes_def le_bytes32_word32_at)
next
  case False
  then show ?thesis by (simp add: arg_bytes_def le_bytes32_word32_at)
qed

lemma accel_submit_page_exchange:
  assumes "k < kMaxPolls"
    and "\<And>m. h m opcode (if length payload \<ge> 4 then word32_at 0 payload else 0)
              (if length payload \<ge> 8 then word32_at 4 payload else 0) = Some (st, r0, r1)"
  shows "\<exists>m'. accel_submit_page (hw_env h irq count k) dev opcode payload m =
      (Inr \<lparr>request_id = dev @ ''-'' @ to_string (uint opcode),
            response_data = le_bytes32 r0 @ le_bytes32 r1\<rparr>, m') \<and>
      load32 0x110 m' = st \<and> load32 4 m' = status_READY \<and> load32 0 m' AND ctrl_START = 0"
proof -
  let ?a0 = "if length payload \<ge> 4 then word32_at 0 payload else 0"
  let ?a1 = "if length payload \<ge> 8 then word32_at 4 payload else 0"
  let ?m1 = "store32 0x108 ?a1 (store32 0x104 ?a0 (store32 0x100 opcode m))"
  let ?m2 = "store32 0 (load32 0 ?m1 OR ctrl_START) ?m1"
  have start: "load32 0 ?m2 AND ctrl_START \<noteq> 0" by (simp add: mem_simps)
  have "h ?m2 (load32 0x100 ?m2) (load32 0x104 ?m2) (load32 0x108 ?m2) = Some (st, r0, r1)"
    using assms(2) by (simp add: mem_simps)
  then obtain m' where m': "poll_start_clear (hw_env h irq count k) 0 0 kMaxPolls ?m2 = (True, m')"
    "\<And>i. k \<le> i \<Longrightarrow> hw_env h irq count k i m' = m'"
    "load32 0x114 m' = r0" "load32 0x118 m' = r1" "load32 0x110 m' = st"
    "load32 4 m' = status_READY" "load32 0 m' AND ctrl_START = 0"
    using exchange [OF assms(1) start] by metis
  then show ?thesis
    using assms(1) by (simp add: accel_submit_page_def Let_def)
qed

text \<open>
  C4.  The accel path end to end.  Against a hardware model that reaches the command within
  the poll budget, a submit on a mapped plugin returns normally, for any opcode and payload
  and any handler; the response is the little-endian image of the handler's two result
  words, the request id names device and opcode, the START bit is clear again and the device
  is ready.
\<close>

theorem accel_submit_end_to_end:
  assumes "k < kMaxPolls" and "p_shm_base p = Some obj"
    and "\<And>m. h m opcode (if length payload \<ge> 4 then word32_at 0 payload else 0)
              (if length payload \<ge> 8 then word32_at 4 payload else 0) = Some (st, r0, r1)"
  shows "\<exists>w'. AccelPlugin_submit p (hw_env h irq count k) opcode payload w =
      (Inr \<lparr>request_id = p_device_id p @ ''-'' @ to_string (uint opcode),
            response_data = le_bytes32 r0 @ le_bytes32 r1\<rparr>, w') \<and>
      load32 (reg_off F_result_status) (shm_mem w' obj) = st \<and>
      load32 (reg_off F_ctrl) (shm_mem w' obj) AND ctrl_START = 0 \<and>
      AccelPlugin_device_state p w' = 2"
proof -
  obtain m' where m': "accel_submit_page (hw_env h irq count k) (p_device_id p) opcode payload
      (shm_mem w obj) = (Inr \<lparr>request_id = p_device_id p @ ''-'' @ to_string (uint opcode),
            response_data = le_bytes32 r0 @ le_bytes32 r1\<rparr>, m')"
    and eff: "load32 0x110 m' = st" "load32 4 m' = status_READY" "load32 0 m' AND ctrl_START = 0"
    using accel_submit_page_exchange [where h = h, OF assms(1,3)] by metis
  then show ?thesis
    using assms(2) by (simp add: AccelPlugin_submit_def AccelPlugin_device_state_def)
qed

definition example_plugin :: "string \<Rightarrow> ShmPlugin" where
  "example_plugin dev =
     \<lparr>p_device_id = dev, p_device_index = 0, p_shm_fd = 3, p_shm_base = Some 0\<rparr>"

theorem accel_submit_end_to_end_witness:
  "\<exists>w'. AccelPlugin_submit (example_plugin ''accel/0'')
        (hw_env (\<lambda>m op a0 a1. Some (0, a0 + 1, op)) True 0 7) 5 [1, 0, 0, 0]
        (example_world (\<lambda>_. 0)) =
      (Inr \<lparr>request_id = ''accel/0-'' @ to_string 5,
            response_data = [2, 0, 0, 0, 5, 0, 0, 0]\<rparr>, w')"
  using accel_submit_end_to_end [of 7 "example_plugin ''accel/0''" 0
      "\<lambda>m op a0 a1. Some (0, a0 + 1, op)" 5 "[1, 0, 0, 0]" 0 2 5 True 0 "example_world (\<lambda>_. 0)"]
  by (auto simp: kMaxPolls_def example_plugin_def word32_at_def le_word32_def le_bytes32_def)

text \<open>
  Echo round trip: with the hardware model's default handler the response to any payload
  is its first eight bytes, with every argument word that the payload does not fill
  completely replaced by zeros.
\<close>

theorem accel_echo_round_trip:
  assumes "k < kMaxPolls" and "p_shm_base p = Some obj"
  shows "\<exists>r. fst (AccelPlugin_submit p (hw_env default_handler irq count k) opcode payload w) =
      Inr r \<and> response_data r = arg_bytes payload"
proof -
  obtain m' where "accel_submit_page (hw_env default_handler irq count k) (p_device_id p) opcode
      payload (shm_mem w obj) = (Inr \<lparr>request_id = p_device_id p @ ''-'' @ to_string (uint opcode),
         response_data = arg_bytes payload\<rparr>, m')"
    using accel_submit_page_exchange [where h = default_handler and payload = payload and st = 0
        and opcode = opcode and dev = "p_device_id p" and m = "shm_mem w obj" and irq = irq
        and count = count, OF assms(1)] arg_bytes_encoding [of payload]
    by (auto simp: default_handler_def simp del: if_split)
  with assms(2) show ?thesis by (simp add: AccelPlugin_submit_def)
qed

theorem accel_echo_round_trip_witness:
  "\<exists>r. fst (AccelPlugin_submit (example_plugin ''accel/0'') (hw_env default_handler True 0 3) 1
        [0xEF, 0xBE, 0xAD, 0xDE, 0xBE, 0xBA] (example_world (\<lambda>_. 0))) = Inr r \<and>
      response_data r = [0xEF, 0xBE, 0xAD, 0xDE, 0, 0, 0, 0]"
  using accel_echo_round_trip [of 3 "example_plugin ''accel/0''" 0 True 0 1
      "[0xEF, 0xBE, 0xAD, 0xDE, 0xBE, 0xBA]" "example_world (\<lambda>_. 0)"]
  by (auto simp: kMaxPolls_def example_plugin_def arg_bytes_def)

subsection \<open>The crc32 path\<close>

text \<open>The page as \<^verbatim>\<open>Crc32Plugin::submit\<close> leaves it for the hardware model.\<close>

lemma crc32_submit_page_exchange:
  assumes "k < kMaxPolls"
    and m1: "m1 = (if opcode = Crc32Op_COMPUTE
              then store_bytes kShmDmaOffset (take kShmDmaMaxLen payload) m else m)"
    and a0: "a0 = (if opcode = Crc32Op_COMPUTE then of_nat (min (length payload) kShmDmaMaxLen)
              else if length payload \<ge> 4 then word32_at 0 payload else 0)"
    and a1: "a1 = (if opcode \<noteq> Crc32Op_COMPUTE \<and> length payload \<ge> 8
              then word32_at 4 payload else 0)"
    and m2: "m2 = store32 0x108 a1 (store32 0x104 a0 (store32 0x100 opcode m1))"
    and h: "h (store32 0 (load32 0 m2 OR ctrl_START) m2) opcode a0 a1 = Some (st, r0, r1)"
  shows "\<exists>m'. crc32_submit_page (hw_env h irq count k) dev opcode payload m =
      (Inr \<lparr>request_id = dev @ ''-'' @ to_string (uint opcode),
            response_data = le_bytes32 r0 @ le_bytes32 r1\<rparr>, m') \<and>
      load32 0x110 m' = st \<and> load32 4 m' = status_READY \<and> load32 0 m' AND ctrl_START = 0 \<and> stats_served count m m'"
proof -
  let ?m3 = "store32 0 (load32 0 m2 OR ctrl_START) m2"
  have start: "load32 0 ?m3 AND ctrl_START \<noteq> 0" by (simp add: mem_simps)
  have "h ?m3 (load32 0x100 ?m3) (load32 0x104 ?m3) (load32 0x108 ?m3) = Some (st, r0, r1)"
    using h by (simp add: mem_simps m2)
  then obtain m' where m': "poll_start_clear (hw_env h irq count k) 0 0 kMaxPolls ?m3 = (True, m')"
    "\<And>i. k \<le> i \<Longrightarrow> hw_env h irq count k i m' = m'"
    "load32 0x114 m' = r0" "load32 0x118 m' = r1" "load32 0x110 m' = st"
    "load32 4 m' = status_READY" "load32 0 m' AND ctrl_START = 0" "stats_served count ?m3 m'"
    using exchange [OF assms(1) start] by metis
  have dma: "store_bytes kShmDmaOffset (take kShmDmaMaxLen payload) m =
      (if payload = [] then m
       else store_bytes kShmDmaOffset (take (min (length payload) kShmDmaMaxLen) payload) m)"
    by (auto simp: min_def)
  have "crc32_submit_page env dev opcode payload m =
      (case poll_start_clear env 0 0 kMaxPolls ?m3 of (completed, m) \<Rightarrow>
         if \<not> completed then (Inl (Runtime_error (''Crc32Plugin: submit timeout for '' @ dev)), m)
         else
           let m = env kMaxPolls m; r0 = load32 0x114 m; m = env (kMaxPolls + 1) m; r1 = load32 0x118 m
           in (Inr \<lparr>request_id = dev @ ''-'' @ to_string (uint opcode),
                    response_data = le_bytes32 r0 @ le_bytes32 r1\<rparr>, m))" for env
    unfolding m2 m1 a0 a1 dma crc32_submit_page_def Let_def
    by (cases "opcode = Crc32Op_COMPUTE"; cases "payload = []") (simp_all cong: if_cong)
  moreover have "stats_served count ?m3 m' = stats_served count m m'"
    by (simp add: m2 m1 stats_served_store32 stats_served_store_bytes)
  ultimately show ?thesis using m' assms(1) by (simp add: Let_def)
qed

lemma crc32_compute_handler:
  assumes "load_bytes kShmDmaOffset (length bs) m = bs" and "length bs \<le> kShmDmaMaxLen"
  shows "crc32_cmd_handler m Crc32Op_COMPUTE (of_nat (length bs)) a1 = Some (0, crc_reference bs, 0)"
proof -
  have "unat (of_nat (length bs) :: u32) = length bs"
    using assms(2) by (simp add: unat_of_nat take_bit_nat_eq_self_iff)
  with assms show ?thesis
    by (simp add: crc32_cmd_handler_def crc32_dispatch_compute)
qed

lemma crc32_submit_page_compute:
  assumes "k < kMaxPolls"
  shows "\<exists>m'. crc32_submit_page (hw_env crc32_cmd_handler irq count k) dev Crc32Op_COMPUTE payload m =
      (Inr \<lparr>request_id = dev @ ''-'' @ to_string (uint Crc32Op_COMPUTE),
            response_data = le_bytes32 (crc_reference (take 3072 payload)) @ [0, 0, 0, 0]\<rparr>, m') \<and>
      load32 0x110 m' = 0 \<and> load32 4 m' = status_READY \<and> load32 0 m' AND ctrl_START = 0 \<and> stats_served count m m'"
proof -
  let ?bs = "take kShmDmaMaxLen payload"
  have dma: "load_bytes kShmDmaOffset (length ?bs) (store_bytes kShmDmaOffset ?bs m) = ?bs" for m
    by (rule load_bytes_store_bytes)
  have "crc32_cmd_handler (store32 0 v (store32 0x108 0 (store32 0x104 a (store32 0x100 b
      (store_bytes kShmDmaOffset ?bs m))))) Crc32Op_COMPUTE (of_nat (length ?bs)) 0 =
      Some (0, crc_reference ?bs, 0)" for v a b m
    by (rule crc32_compute_handler) (use dma in \<open>simp_all add: mem_simps\<close>)
  then have "\<exists>m'. crc32_submit_page (hw_env crc32_cmd_handler irq count k) dev
        Crc32Op_COMPUTE payload m =
      (Inr \<lparr>request_id = dev @ ''-'' @ to_string (uint Crc32Op_COMPUTE),
            response_data = le_bytes32 (crc_reference ?bs) @ le_bytes32 0\<rparr>, m') \<and>
      load32 0x110 m' = 0 \<and> load32 4 m' = status_READY \<and> load32 0 m' AND ctrl_START = 0 \<and> stats_served count m m'"
    by (intro crc32_submit_page_exchange [OF assms refl refl refl refl]) (simp add: min.commute)
  then show ?thesis by simp
qed

text \<open>
  C2.  The crc32 path end to end: a COMPUTE submit of any payload returns the IEEE 802.3
  checksum of its first 3072 bytes (the DMA window; of all of it when it fits), little-endian,
  followed by four zero bytes, and never makes the hardware model read outside the page.
\<close>

theorem crc32_submit_end_to_end:
  assumes "k < kMaxPolls" and "p_shm_base p = Some obj"
  shows "\<exists>w'. Crc32Plugin_submit p (hw_env crc32_cmd_handler irq count k) Crc32Op_COMPUTE payload w =
      (Inr \<lparr>request_id = p_device_id p @ ''-'' @ to_string 1,
            response_data = le_bytes32 (crc_reference (take 3072 payload)) @ [0, 0, 0, 0]\<rparr>, w') \<and>
      load32 (reg_off F_result_status) (shm_mem w' obj) = 0 \<and>
      load32 (reg_off F_ctrl) (shm_mem w' obj) AND ctrl_START = 0"
  using crc32_submit_page_compute [OF assms(1), of irq count "p_device_id p" payload "shm_mem w obj"] assms(2)
  by (auto simp: Crc32Plugin_submit_def Crc32Op_COMPUTE_def)

theorem crc32_submit_end_to_end_witness:
  "\<exists>w'. Crc32Plugin_submit (example_plugin ''crc32/0'') (hw_env crc32_cmd_handler True 0 2)
        Crc32Op_COMPUTE [0x31, 0x32, 0x33, 0x34, 0x35, 0x36, 0x37, 0x38, 0x39]
        (example_world (\<lambda>_. 0)) =
      (Inr \<lparr>request_id = ''crc32/0-'' @ to_string 1,
            response_data = [0x26, 0x39, 0xF4, 0xCB, 0, 0, 0, 0]\<rparr>, w')"
proof -
  have "le_bytes32 (crc_reference [0x31, 0x32, 0x33, 0x34, 0x35, 0x36, 0x37, 0x38, 0x39]) =
      [0x26, 0x39, 0xF4, 0xCB]"
    by (simp add: compute_crc32_reference [symmetric] crc32_check_value le_bytes32_def)
  then show ?thesis
    using crc32_submit_end_to_end [of 2 "example_plugin ''crc32/0''" 0 True 0
        "[0x31, 0x32, 0x33, 0x34, 0x35, 0x36, 0x37, 0x38, 0x39]" "example_world (\<lambda>_. 0)"]
    by (auto simp: kMaxPolls_def example_plugin_def)
qed

text \<open>
  The plugin does not read the result status: when the hardware model rejects an opcode
  and reports the error in the status register, the submit still returns normally, with
  eight zero bytes.
\<close>

theorem crc32_submit_ignores_result_status:
  assumes "k < kMaxPolls" and "p_shm_base p = Some obj" and "\<not> crc32_validate_opcode opcode"
  shows "\<exists>w'. Crc32Plugin_submit p (hw_env crc32_cmd_handler irq count k) opcode payload w =
      (Inr \<lparr>request_id = p_device_id p @ ''-'' @ to_string (uint opcode),
            response_data = [0, 0, 0, 0, 0, 0, 0, 0]\<rparr>, w') \<and>
      load32 (reg_off F_result_status) (shm_mem w' obj) = 1"
proof -
  have "crc32_cmd_handler m opcode a0 a1 = Some (1, 0, 0)" for m a0 a1
    using assms(3) crc32_dispatch_other [of opcode "Some m" a0 a1]
    by (simp add: crc32_cmd_handler_def crc32_validate_opcode_def)
  then have "\<exists>m'. crc32_submit_page (hw_env crc32_cmd_handler irq count k) (p_device_id p)
        opcode payload (shm_mem w obj) =
      (Inr \<lparr>request_id = p_device_id p @ ''-'' @ to_string (uint opcode),
            response_data = le_bytes32 0 @ le_bytes32 0\<rparr>, m') \<and>
      load32 0x110 m' = 1 \<and> load32 4 m' = status_READY \<and> load32 0 m' AND ctrl_START = 0 \<and>
      stats_served count (shm_mem w obj) m'"
    by (intro crc32_submit_page_exchange [OF assms(1) refl refl refl refl])
  with assms(2) show ?thesis by (auto simp: Crc32Plugin_submit_def)
qed

theorem crc32_submit_ignores_result_status_witness:
  "\<exists>w'. Crc32Plugin_submit (example_plugin ''crc32/0'') (hw_env crc32_cmd_handler True 0 0) 9 []
        (example_world (\<lambda>_. 0)) =
      (Inr \<lparr>request_id = ''crc32/0-'' @ to_string 9,
            response_data = [0, 0, 0, 0, 0, 0, 0, 0]\<rparr>, w') \<and>
      load32 (reg_off F_result_status) (shm_mem w' 0) = 1"
  using crc32_submit_ignores_result_status [of 0 "example_plugin ''crc32/0''" 0 9 True 0 "[]"
      "example_world (\<lambda>_. 0)"]
  by (auto simp: kMaxPolls_def example_plugin_def crc32_validate_opcode_def crc32_opcodes)

text \<open>
  C21.  Timeout: if the other side never clears START, both plugins give up after the poll
  budget with their timeout exception, and leave the command pending (START still set).
\<close>

theorem submit_times_out:
  assumes "\<And>j m. load32 0 m AND ctrl_START \<noteq> 0 \<Longrightarrow> load32 0 (env j m) AND ctrl_START \<noteq> 0"
    and "p_shm_base p = Some obj"
  shows "(\<exists>w'. AccelPlugin_submit p env opcode payload w =
      (Inl (Runtime_error (''AccelPlugin: submit timeout for '' @ p_device_id p)), w') \<and>
      load32 (reg_off F_ctrl) (shm_mem w' obj) AND ctrl_START \<noteq> 0) \<and>
    (\<exists>w'. Crc32Plugin_submit p env opcode payload w =
      (Inl (Runtime_error (''Crc32Plugin: submit timeout for '' @ p_device_id p)), w') \<and>
      load32 (reg_off F_ctrl) (shm_mem w' obj) AND ctrl_START \<noteq> 0)"
proof -
  have poll: "\<exists>m'. poll_start_clear env 0 0 kMaxPolls (store32 0 (x OR ctrl_START) m) = (False, m') \<and>
      load32 0 m' AND ctrl_START \<noteq> 0" for x m
    by (rule poll_start_clear_timeout [OF assms(1)]) (simp_all add: mem_simps)
  then obtain T where T: "\<And>x m. poll_start_clear env 0 0 kMaxPolls (store32 0 (x OR ctrl_START) m) =
      (False, T x m)" "\<And>x m. load32 0 (T x m) AND ctrl_START \<noteq> 0"
    by metis
  have "\<exists>m'. accel_submit_page env dev opcode payload m =
      (Inl (Runtime_error (''AccelPlugin: submit timeout for '' @ dev)), m') \<and>
      load32 0 m' AND ctrl_START \<noteq> 0" for dev m
    unfolding accel_submit_page_def Let_def by (simp del: bit_masks add: T)
  then obtain m1 where m1: "accel_submit_page env (p_device_id p) opcode payload (shm_mem w obj) =
      (Inl (Runtime_error (''AccelPlugin: submit timeout for '' @ p_device_id p)), m1)"
      "load32 0 m1 AND ctrl_START \<noteq> 0" by blast
  have "\<exists>m'. crc32_submit_page env dev opcode payload m =
      (Inl (Runtime_error (''Crc32Plugin: submit timeout for '' @ dev)), m') \<and>
      load32 0 m' AND ctrl_START \<noteq> 0" for dev m
    unfolding crc32_submit_page_def Let_def by (simp del: bit_masks add: T split: prod.splits)
  then obtain m2 where m2: "crc32_submit_page env (p_device_id p) opcode payload (shm_mem w obj) =
      (Inl (Runtime_error (''Crc32Plugin: submit timeout for '' @ p_device_id p)), m2)"
      "load32 0 m2 AND ctrl_START \<noteq> 0" by blast
  show ?thesis
    using m1 m2 assms(2) by (simp add: AccelPlugin_submit_def Crc32Plugin_submit_def)
qed

theorem submit_times_out_witness:
  "fst (AccelPlugin_submit (example_plugin ''accel/0'') (\<lambda>_ m. m) 1 [] (example_world (\<lambda>_. 0))) =
     Inl (Runtime_error ''AccelPlugin: submit timeout for accel/0'')"
  using submit_times_out [of "\<lambda>_ m. m" "example_plugin ''accel/0''" 0 1 "[]" "example_world (\<lambda>_. 0)"]
  by (auto simp: example_plugin_def)

subsection \<open>The contract of a plugin class\<close>

text \<open>
  What the server relies on when it uses a plugin class: constructing, using and destroying
  an instance returns every descriptor and mapping, a constructor that throws leaves nothing
  behind, no method touches names, descriptors or mappings, a normal response has eight
  bytes, and the device state is one of the three values the registry understands.
\<close>

definition same_handles :: "os \<Rightarrow> os \<Rightarrow> bool" where
  "same_handles w w' \<longleftrightarrow>
     fd_table w' = fd_table w \<and> live_maps w' = live_maps w \<and> shm_ns w' = shm_ns w"

lemma same_handles_refl [simp]: "same_handles w w"
  by (simp add: same_handles_def)

lemma same_handles_trans: "same_handles a b \<Longrightarrow> same_handles b c \<Longrightarrow> same_handles a c"
  by (simp add: same_handles_def)

lemma same_handles_upd_page [simp]: "same_handles w (upd_page obj f w)"
  by (simp add: same_handles_def)

text \<open>Any number of submits on one instance, their results dropped.\<close>

fun submits :: "submitter \<Rightarrow> (env \<times> u32 \<times> u8 list) list \<Rightarrow> os \<Rightarrow> os" where
  "submits s [] w = w"
| "submits s ((env, op, payload) # rs) w = submits s rs (snd (sub_submit s env op payload w))"

locale submitter_contract =
  fixes construct :: "sys \<Rightarrow> string \<Rightarrow> os \<Rightarrow> (cxx_exn + 'p) \<times> os"
    and methods :: "'p \<Rightarrow> submitter"
  assumes construct_throws:
      "fd_table w (shm_open_fd y) = None \<Longrightarrow> construct y dev w = (Inl e, w1) \<Longrightarrow> same_handles w w1"
    and construct_mem: "construct y dev w = (c, w1) \<Longrightarrow> shm_mem w1 = shm_mem w"
    and destroy_releases:
      "fd_table w (shm_open_fd y) = None \<Longrightarrow> construct y dev w = (Inr p, w1) \<Longrightarrow>
       same_handles w1 w2 \<Longrightarrow> same_handles w (sub_destroy (methods p) w2)"
    and destroy_mem: "shm_mem (sub_destroy (methods p) w) = shm_mem w"
    and submit_handles:
      "sub_submit (methods p) env op payload w = (r, w1) \<Longrightarrow> same_handles w w1"
    and response_length:
      "sub_submit (methods p) env op payload w = (Inr res, w1) \<Longrightarrow> length (response_data res) = 8"
    and state_range: "sub_device_state (methods p) w \<in> {-1, 1, 2}"
    and device_id_kept:
      "construct y dev w = (Inr p, w1) \<Longrightarrow> sub_device_id (methods p) = dev"
begin

text \<open>A whole life of an instance, with any number of submits, is neutral for the handles.\<close>

lemma submits_handles: "same_handles w (submits (methods p) rs w)"
proof (induction rs arbitrary: w)
  case (Cons r rs)
  obtain env op payload where r: "r = (env, op, payload)" by (cases r)
  have "same_handles w (snd (sub_submit (methods p) env op payload w))"
    by (rule submit_handles [where r = "fst (sub_submit (methods p) env op payload w)"]) simp
  from same_handles_trans [OF this Cons.IH] show ?case by (simp add: r)
qed simp

lemma instance_life_neutral:
  assumes "fd_table w (shm_open_fd y) = None" and "construct y dev w = (Inr p, w1)"
  shows "same_handles w (sub_destroy (methods p) (submits (methods p) rs w1))"
  using destroy_releases [OF assms submits_handles] .

lemma one_submit_neutral:
  assumes "fd_table w (shm_open_fd y) = None" and "construct y dev w = (Inr p, w1)"
    and "sub_submit (methods p) env op payload w1 = (r, w2)"
  shows "same_handles w (sub_destroy (methods p) w2)"
  using destroy_releases [OF assms(1,2) submit_handles [OF assms(3)]] .

end

lemma AccelPlugin_destroy_mem [simp]: "shm_mem (AccelPlugin_destroy p w) = shm_mem w"
  by (simp add: AccelPlugin_destroy_def Let_def sys_munmap_def sys_close_def split: option.splits)

lemma shm_plugin_new_throws:
  "fd_table w (shm_open_fd y) = None \<Longrightarrow> shm_plugin_new cls parse y dev w = (Inl e, w1) \<Longrightarrow>
   same_handles w w1"
  by (auto simp: shm_plugin_new_def Let_def shm_open_def sys_mmap_def sys_close_def
      same_handles_def fun_eq_iff split: if_splits option.splits open_file.splits)

lemma shm_plugin_new_mem: "shm_plugin_new cls parse y dev w = (r, w1) \<Longrightarrow> shm_mem w1 = shm_mem w"
  by (auto simp: shm_plugin_new_def Let_def shm_open_def sys_mmap_def sys_close_def
      split: if_splits option.splits open_file.splits)

lemma shm_plugin_new_releases:
  "fd_table w (shm_open_fd y) = None \<Longrightarrow> shm_plugin_new cls parse y dev w = (Inr p, w1) \<Longrightarrow>
   same_handles w1 w2 \<Longrightarrow> same_handles w (AccelPlugin_destroy p w2)"
  by (auto simp: shm_plugin_new_def Let_def shm_open_def sys_mmap_def sys_close_def sys_munmap_def
      AccelPlugin_destroy_def same_handles_def fun_eq_iff
      split: if_splits option.splits open_file.splits)

lemma shm_plugin_new_id:
  "shm_plugin_new cls parse y dev w = (Inr p, w1) \<Longrightarrow> p_device_id p = dev"
  by (auto simp: shm_plugin_new_def Let_def split: if_splits option.splits prod.splits)

lemmas shm_plugin_new_facts =
  shm_plugin_new_throws shm_plugin_new_mem shm_plugin_new_releases shm_plugin_new_id

lemma accel_submit_handles:
  "AccelPlugin_submit p env op payload w = (r, w1) \<Longrightarrow> same_handles w w1"
  by (auto simp: AccelPlugin_submit_def split: option.splits prod.splits)

lemma crc32_submit_handles:
  "Crc32Plugin_submit p env op payload w = (r, w1) \<Longrightarrow> same_handles w w1"
  by (auto simp: Crc32Plugin_submit_def split: option.splits prod.splits)

lemma accel_response_length:
  "AccelPlugin_submit p env op payload w = (Inr res, w1) \<Longrightarrow> length (response_data res) = 8"
  by (auto simp: AccelPlugin_submit_def accel_submit_page_def Let_def
      split: option.splits prod.splits if_splits)

lemma crc32_response_length:
  "Crc32Plugin_submit p env op payload w = (Inr res, w1) \<Longrightarrow> length (response_data res) = 8"
  by (auto simp: Crc32Plugin_submit_def crc32_submit_page_def Let_def
      split: option.splits prod.splits if_splits)

interpretation accel: submitter_contract AccelPlugin_new AccelPlugin_submitter
  by unfold_locales
    (auto simp: AccelPlugin_new_def AccelPlugin_submitter_def AccelPlugin_device_state_def
      dest: shm_plugin_new_facts accel_submit_handles accel_response_length split: option.splits)

interpretation crc32: submitter_contract Crc32Plugin_new Crc32Plugin_submitter
  by unfold_locales
    (auto simp: Crc32Plugin_new_def Crc32Plugin_submitter_def Crc32Plugin_device_state_def
      Crc32Plugin_destroy_def
      dest: shm_plugin_new_facts crc32_submit_handles crc32_response_length split: option.splits)

end
