(* ===== verification/Registry.thy ===== *)
theory Registry
  imports Ordered_Map Submit_Path "HOL-Library.Sublist"
begin

text \<open>
  The plugin registry of the server (\<^verbatim>\<open>server/src/registry.cpp\<close>) and the registrars of the
  plugins (\<^verbatim>\<open>hwip/*/plugin/register.cpp\<close>).  The dynamic loader is modelled by its reference
  counts: \<^verbatim>\<open>dlopen\<close> of a library runs its static registrar the first time, \<^verbatim>\<open>dlclose\<close> runs the
  registrar's destructor when the last reference goes.  Which library is behind a path, and
  what its registrar registers, are inputs.
\<close>

subsection \<open>Factories and the registrars of the plugins\<close>

text \<open>A factory builds a submitter (or a null pointer), or throws; \<open>sys\<close> answers its system calls.\<close>

type_synonym factory = "sys \<Rightarrow> string \<Rightarrow> os \<Rightarrow> (cxx_exn + submitter option) \<times> os"

definition make_factory :: "(sys \<Rightarrow> string \<Rightarrow> os \<Rightarrow> (cxx_exn + 'p) \<times> os) \<Rightarrow> ('p \<Rightarrow> submitter) \<Rightarrow> factory" where
  "make_factory construct methods y dev w =
     (case construct y dev w of (Inl e, w) \<Rightarrow> (Inl e, w) | (Inr p, w) \<Rightarrow> (Inr (Some (methods p)), w))"

definition AccelRegistrar :: "string \<times> factory" where
  "AccelRegistrar = (''accel'', make_factory AccelPlugin_new AccelPlugin_submitter)"

definition Crc32Registrar :: "string \<times> factory" where
  "Crc32Registrar = (''crc32'', make_factory Crc32Plugin_new Crc32Plugin_submitter)"

definition MychipPlugin_submitter :: "MychipPlugin \<Rightarrow> submitter" where
  "MychipPlugin_submitter p =
     \<lparr>sub_submit = (\<lambda>env op data w. (Inr (MychipPlugin_submit p op data), w)),
      sub_device_state = (\<lambda>w. MychipPlugin_device_state p), sub_device_id = my_device_id p,
      sub_destroy = (\<lambda>w. w)\<rparr>"

definition MychipRegistrar :: "string \<times> factory" where
  "MychipRegistrar = (''mychip'', make_factory (\<lambda>y dev w. (MychipPlugin_new dev, w)) MychipPlugin_submitter)"

subsection \<open>The registry\<close>

record HwipRegistry =
  factories :: "(string \<times> factory) list"
  dl_handles :: "(string \<times> nat) list"
  dl_refs :: "nat \<Rightarrow> nat"

definition HwipRegistry_new :: HwipRegistry where
  "HwipRegistry_new = \<lparr>factories = [], dl_handles = [], dl_refs = (\<lambda>_. 0)\<rparr>"

definition register_type :: "string \<Rightarrow> factory \<Rightarrow> HwipRegistry \<Rightarrow> HwipRegistry" where
  "register_type hwip_type f r = r\<lparr>factories := om_put hwip_type f (factories r)\<rparr>"

definition unregister_type :: "string \<Rightarrow> HwipRegistry \<Rightarrow> HwipRegistry" where
  "unregister_type hwip_type r = r\<lparr>factories := om_erase hwip_type (factories r)\<rparr>"

record dl_loader =
  dl_lookup :: "string \<Rightarrow> nat option"
  dl_registrar :: "nat \<Rightarrow> string \<times> factory"

definition dl_open :: "dl_loader \<Rightarrow> string \<Rightarrow> HwipRegistry \<Rightarrow> nat option \<times> HwipRegistry" where
  "dl_open L path r =
     (case dl_lookup L path of
        None \<Rightarrow> (None, r)
      | Some h \<Rightarrow>
          let r' = (if dl_refs r h = 0 then register_type (fst (dl_registrar L h)) (snd (dl_registrar L h)) r else r)
          in (Some h, r'\<lparr>dl_refs := (dl_refs r')(h := Suc (dl_refs r' h))\<rparr>))"

definition dl_close :: "dl_loader \<Rightarrow> nat \<Rightarrow> HwipRegistry \<Rightarrow> HwipRegistry" where
  "dl_close L h r =
     (let r' = (if dl_refs r h = 1 then unregister_type (fst (dl_registrar L h)) r else r)
      in r'\<lparr>dl_refs := (dl_refs r')(h := dl_refs r' h - 1)\<rparr>)"

definition load_plugin :: "dl_loader \<Rightarrow> string \<Rightarrow> HwipRegistry \<Rightarrow> bool \<times> HwipRegistry" where
  "load_plugin L so_path r =
     (case dl_open L so_path r of
        (None, r) \<Rightarrow> (False, r)
      | (Some handle, r) \<Rightarrow> (True, r\<lparr>dl_handles := om_put so_path handle (dl_handles r)\<rparr>))"

text \<open>The scan of \<^verbatim>\<open>unload_plugin\<close>: erase every path that contains the type, keep the last handle.\<close>

fun unload_scan :: "string \<Rightarrow> (string \<times> nat) list \<Rightarrow> nat option \<Rightarrow> (string \<times> nat) list \<times> nat option" where
  "unload_scan t [] handle = ([], handle)"
| "unload_scan t ((path, h) # m) handle =
     (if sublist t path then unload_scan t m (Some h)
      else let (m', handle') = unload_scan t m handle in ((path, h) # m', handle'))"

definition unload_plugin :: "dl_loader \<Rightarrow> string \<Rightarrow> HwipRegistry \<Rightarrow> HwipRegistry" where
  "unload_plugin L hwip_type r =
     (case unload_scan hwip_type (dl_handles r) None of
        (m, handle) \<Rightarrow>
          let r = r\<lparr>dl_handles := m\<rparr>
          in case handle of None \<Rightarrow> r | Some h \<Rightarrow> dl_close L h r)"

definition registered_types :: "HwipRegistry \<Rightarrow> string list" where
  "registered_types r = om_keys (factories r)"

definition kEnumMax :: nat where "kEnumMax = 64"

text \<open>Enumeration: \<open>n\<close> indices are left, \<open>ys\<close> answers the system calls of each probe.\<close>

fun enum_loop ::
    "(nat \<Rightarrow> sys) \<Rightarrow> string \<Rightarrow> factory \<Rightarrow> nat \<Rightarrow> nat \<Rightarrow> os \<Rightarrow> DeviceInfo list \<times> os" where
  "enum_loop ys ty f idx 0 w = ([], w)"
| "enum_loop ys ty f idx (Suc n) w =
     (let dev_id = ty @ ''/'' @ to_string (int idx) in
      case f (ys idx) dev_id w of
        (Inl e, w) \<Rightarrow> ([], w)
      | (Inr None, w) \<Rightarrow> ([], w)
      | (Inr (Some sub), w) \<Rightarrow>
          let state = sub_device_state sub w; w = sub_destroy sub w in
          if state < 0 then ([], w)
          else
            let (devices, w) = enum_loop ys ty f (Suc idx) n w
            in (\<lparr>di_device_id = dev_id, di_state = state\<rparr> # devices, w))"

fun enum_types ::
    "(string \<Rightarrow> nat \<Rightarrow> sys) \<Rightarrow> (string \<times> factory) list \<Rightarrow> os \<Rightarrow> DeviceInfo list \<times> os" where
  "enum_types ys [] w = ([], w)"
| "enum_types ys ((ty, f) # fs) w =
     (let (ds, w) = enum_loop (ys ty) ty f 0 kEnumMax w; (ds', w) = enum_types ys fs w in (ds @ ds', w))"

definition enumerate_devices :: "(string \<Rightarrow> nat \<Rightarrow> sys) \<Rightarrow> HwipRegistry \<Rightarrow> os \<Rightarrow> DeviceInfo list \<times> os" where
  "enumerate_devices ys r w = enum_types ys (factories r) w"

text \<open>\<^verbatim>\<open>create\<close>: \<open>None\<close> for \<^verbatim>\<open>nullopt\<close>, otherwise what the factory does.\<close>

definition registry_create ::
    "HwipRegistry \<Rightarrow> string \<Rightarrow> (sys \<Rightarrow> string \<Rightarrow> os \<Rightarrow> (cxx_exn + submitter option) \<times> os) option" where
  "registry_create r hwip_type = om_find hwip_type (factories r)"

subsection \<open>Registration and lookup\<close>

definition registry_inv :: "HwipRegistry \<Rightarrow> bool" where
  "registry_inv r \<longleftrightarrow> om_inv (factories r) \<and> om_inv (dl_handles r)"

lemma registry_inv_new [simp]: "registry_inv HwipRegistry_new"
  by (simp add: registry_inv_def HwipRegistry_new_def om_inv_def)

lemma registry_inv_register [simp]: "registry_inv r \<Longrightarrow> registry_inv (register_type t f r)"
  by (simp add: registry_inv_def register_type_def om.inv_put)

lemma registry_inv_unregister [simp]: "registry_inv r \<Longrightarrow> registry_inv (unregister_type t r)"
  by (simp add: registry_inv_def unregister_type_def om.inv_erase)

lemma registry_inv_load: "registry_inv r \<Longrightarrow> registry_inv (snd (load_plugin L path r))"
  by (auto simp: registry_inv_def load_plugin_def dl_open_def register_type_def Let_def om.inv_put
      split: option.splits)

lemma unload_scan_filter: "fst (unload_scan t m h) = filter (\<lambda>(path, _). \<not> sublist t path) m"
  by (induction t m h rule: unload_scan.induct) (auto split: prod.splits)

lemma om_inv_filter: "om_inv m \<Longrightarrow> om_inv (filter P m)"
  by (simp add: om_inv_def om_keys_def sorted_wrt_map sorted_wrt_filter)

lemma registry_inv_unload: "registry_inv r \<Longrightarrow> registry_inv (unload_plugin L t r)"
  using unload_scan_filter [of t "dl_handles r" None]
  by (auto simp: registry_inv_def unload_plugin_def dl_close_def unregister_type_def Let_def
      om.inv_erase om_inv_filter split: prod.splits option.splits)

lemmas registry_invs = registry_inv_register registry_inv_unregister registry_inv_load registry_inv_unload

inductive registry_reach :: "dl_loader \<Rightarrow> HwipRegistry \<Rightarrow> bool" for L where
  new: "registry_reach L HwipRegistry_new"
| register: "registry_reach L r \<Longrightarrow> registry_reach L (register_type t f r)"
| unregister: "registry_reach L r \<Longrightarrow> registry_reach L (unregister_type t r)"
| load: "registry_reach L r \<Longrightarrow> registry_reach L (snd (load_plugin L path r))"
| unload: "registry_reach L r \<Longrightarrow> registry_reach L (unload_plugin L t r)"

lemma registry_reach_inv: "registry_reach L r \<Longrightarrow> registry_inv r"
  by (induction rule: registry_reach.induct) (simp_all add: registry_invs)



subsection \<open>Loading and unloading\<close>

lemma om_erase_absent: "om_find k m = None \<Longrightarrow> om_erase k m = m"
  by (induction k m rule: om_erase.induct) auto

lemma om_erase_put: "om_inv m \<Longrightarrow> om_find k m = None \<Longrightarrow> om_erase k (om_put k v m) = m"
  by (induction k v m rule: om_put.induct) (auto simp: om_inv_def)

lemma unload_scan_put:
  assumes "\<forall>(path', h') \<in> set m. \<not> sublist t path'" and "sublist t path"
  shows "unload_scan t (om_put path h m) None = (m, Some h)"
proof -
  have none: "unload_scan t m' x = (m', x)" if "\<forall>(path', h') \<in> set m'. \<not> sublist t path'" for m' x
    using that by (induction t m' x rule: unload_scan.induct) auto
  show ?thesis using assms
    by (induction path h m rule: om_put.induct) (auto simp: none)
qed

text \<open>
  Loading a library that is not loaded and unloading its type again gives back the
  registry, provided the path contains the type name, no other loaded path does, and the
  type was not registered.
\<close>

theorem load_unload_round_trip:
  assumes "registry_reach L r" and "dl_lookup L path = Some h" and "dl_refs r h = 0"
    and "registry_create r (fst (dl_registrar L h)) = None"
    and "sublist (fst (dl_registrar L h)) path"
    and "\<forall>(path', h') \<in> set (dl_handles r). \<not> sublist (fst (dl_registrar L h)) path'"
  shows "fst (load_plugin L path r) \<and>
    registry_create (snd (load_plugin L path r)) (fst (dl_registrar L h)) = Some (snd (dl_registrar L h)) \<and>
    unload_plugin L (fst (dl_registrar L h)) (snd (load_plugin L path r)) = r"
proof -
  let ?t = "fst (dl_registrar L h)"
  let ?f = "snd (dl_registrar L h)"
  have inv: "om_inv (factories r)" using registry_reach_inv [OF assms(1)] by (simp add: registry_inv_def)
  have load: "load_plugin L path r = (True,
      r\<lparr>factories := om_put ?t ?f (factories r), dl_refs := (dl_refs r)(h := 1),
        dl_handles := om_put path h (dl_handles r)\<rparr>)"
    using assms(2,3) by (simp add: load_plugin_def dl_open_def register_type_def)
  have scan: "unload_scan ?t (om_put path h (dl_handles r)) None = (dl_handles r, Some h)"
    by (rule unload_scan_put [OF assms(6,5)])
  have er: "om_erase ?t (om_put ?t ?f (factories r)) = factories r"
    using assms(4) inv by (simp add: om_erase_put registry_create_def)
  have "dl_refs r = (dl_refs r)(h := 0)" using assms(3) by (simp add: fun_eq_iff)
  then show ?thesis
    using load scan er
    by (simp add: unload_plugin_def dl_close_def unregister_type_def registry_create_def om_find_put)
qed

definition example_loader :: dl_loader where
  "example_loader =
     \<lparr>dl_lookup = (\<lambda>path. if path = ''/p/libhwip_accel.so'' then Some 1
        else if path = ''/q/libhwip_accel.so'' then Some 2 else None),
      dl_registrar = (\<lambda>_. AccelRegistrar)\<rparr>"

theorem load_unload_round_trip_witness:
  "unload_plugin example_loader ''accel''
     (snd (load_plugin example_loader ''/p/libhwip_accel.so'' HwipRegistry_new)) = HwipRegistry_new"
proof -
  have "''/p/libhwip_accel.so'' = ''/p/libhwip_'' @ ''accel'' @ ''.so''" by simp
  then have sub: "sublist ''accel'' ''/p/libhwip_accel.so''" unfolding sublist_def by blast
  have ty: "fst (dl_registrar example_loader h) = ''accel''" for h
    by (simp add: example_loader_def AccelRegistrar_def)
  have "dl_lookup example_loader ''/p/libhwip_accel.so'' = Some 1" "dl_refs HwipRegistry_new 1 = 0"
    "registry_create HwipRegistry_new (fst (dl_registrar example_loader 1)) = None"
    "\<forall>(path', h') \<in> set (dl_handles HwipRegistry_new). \<not> sublist (fst (dl_registrar example_loader 1)) path'"
    by (simp_all add: example_loader_def HwipRegistry_new_def registry_create_def)
  from load_unload_round_trip [OF registry_reach.new this(1-3) _ this(4)] show ?thesis
    by (simp add: ty sub)
qed

subsection \<open>Unloading a type that two libraries provide\<close>

text \<open>
  If the paths of two loaded libraries contain the type name, unloading the type drops
  both from the table of handles but closes only the library with the greater path: the
  other one keeps its reference and can no longer be unloaded.
\<close>

theorem unload_closes_one_only:
  assumes "p1 < p2" and "sublist t p1" and "sublist t p2" and "h1 \<noteq> h2"
    and "dl_handles r = [(p1, h1), (p2, h2)]"
  shows "dl_handles (unload_plugin L t r) = [] \<and>
    dl_refs (unload_plugin L t r) h1 = dl_refs r h1 \<and>
    dl_refs (unload_plugin L t r) h2 = dl_refs r h2 - 1 \<and>
    unload_plugin L t (unload_plugin L t r) = unload_plugin L t r"
  using assms by (simp add: unload_plugin_def dl_close_def unregister_type_def Let_def)

theorem unload_closes_one_only_witness:
  "let r = snd (load_plugin example_loader ''/q/libhwip_accel.so''
             (snd (load_plugin example_loader ''/p/libhwip_accel.so'' HwipRegistry_new)))
   in dl_handles (unload_plugin example_loader ''accel'' r) = [] \<and>
      dl_refs (unload_plugin example_loader ''accel'' r) 1 = 1"
proof -
  let ?r = "snd (load_plugin example_loader ''/q/libhwip_accel.so''
             (snd (load_plugin example_loader ''/p/libhwip_accel.so'' HwipRegistry_new)))"
  have "''/p/libhwip_accel.so'' = ''/p/libhwip_'' @ ''accel'' @ ''.so''"
    "''/q/libhwip_accel.so'' = ''/q/libhwip_'' @ ''accel'' @ ''.so''" by simp_all
  then have sub: "sublist ''accel'' ''/p/libhwip_accel.so''" "sublist ''accel'' ''/q/libhwip_accel.so''"
    unfolding sublist_def by blast+
  have lt: "''/p/libhwip_accel.so'' < ''/q/libhwip_accel.so''" by (simp add: less_char_def)
  have r: "dl_handles ?r = [(''/p/libhwip_accel.so'', 1), (''/q/libhwip_accel.so'', 2)]" "dl_refs ?r 1 = 1"
    using lt by (simp_all add: load_plugin_def dl_open_def example_loader_def HwipRegistry_new_def
        register_type_def Let_def less_char_def)
  from unload_closes_one_only [OF lt sub _ r(1)] r(2) show ?thesis by (simp add: Let_def)
qed

subsection \<open>Enumeration\<close>

text \<open>What a probe of index \<open>i\<close> sees: no segment, or the READY bit of its status register.\<close>

definition segment_state :: "os \<Rightarrow> nat \<Rightarrow> int" where
  "segment_state w i =
     (case shm_ns w (shm_name_of (int i)) of
        None \<Rightarrow> -1
      | Some obj \<Rightarrow> if load32 (reg_off F_status) (shm_mem w obj) AND status_READY \<noteq> 0 then 2 else 1)"

definition probe_sys_ok :: "sys \<Rightarrow> os \<Rightarrow> bool" where
  "probe_sys_ok y w \<longleftrightarrow> shm_open_fd y \<ge> 0 \<and> fd_table w (shm_open_fd y) = None \<and> mmap_ok y"

text \<open>A plugin class probed for an index leaves the world exactly as it was.\<close>

lemma shm_plugin_probe:
  assumes "probe_sys_ok y w" and "i < 2 ^ 31"
  shows "\<exists>p w1. shm_plugin_new cls accel_parse_index y (ty @ ''/'' @ to_string (int i)) w = (Inr p, w1) \<and>
    AccelPlugin_device_state p w1 = segment_state w i \<and> Crc32Plugin_device_state p w1 = segment_state w i \<and>
    AccelPlugin_destroy p w1 = w"
proof -
  have idx: "accel_parse_index (ty @ CHR ''/'' # to_string (int i)) = int i"
    using assms(2) parse_index_to_string [of "int i" ty] by simp
  have ft: "(fd_table w)(shm_open_fd y := None) = fd_table w"
    using assms(1) by (auto simp: probe_sys_ok_def fun_eq_iff)
  show ?thesis
    using assms(1) ft
    by (cases "shm_ns w (shm_name_of (int i))")
      (auto simp: shm_plugin_new_def idx Let_def shm_open_def sys_mmap_def probe_sys_ok_def segment_state_def
        AccelPlugin_device_state_def Crc32Plugin_device_state_def AccelPlugin_destroy_def
        sys_munmap_def sys_close_def)
qed

lemma registrar_probe:
  assumes "probe_sys_ok y w" and "i < 2 ^ 31" and "R \<in> {AccelRegistrar, Crc32Registrar}"
  shows "\<exists>sub w1. snd R y (fst R @ ''/'' @ to_string (int i)) w = (Inr (Some sub), w1) \<and>
    sub_device_state sub w1 = segment_state w i \<and> sub_destroy sub w1 = w"
  using assms(3) shm_plugin_probe [OF assms(1,2), of "''AccelPlugin''" "''accel''"]
    shm_plugin_probe [OF assms(1,2), of "''Crc32Plugin''" "''crc32''"]
  by (auto simp: AccelRegistrar_def Crc32Registrar_def make_factory_def AccelPlugin_new_def
      Crc32Plugin_new_def parse_index_copies AccelPlugin_submitter_def Crc32Plugin_submitter_def
      Crc32Plugin_destroy_def)

definition listed :: "string \<Rightarrow> os \<Rightarrow> nat list \<Rightarrow> DeviceInfo list" where
  "listed ty w is =
     map (\<lambda>i. \<lparr>di_device_id = ty @ ''/'' @ to_string (int i), di_state = segment_state w i\<rparr>)
       (takeWhile (\<lambda>i. segment_state w i \<ge> 0) is)"

lemma enum_loop_lists:
  assumes "\<And>i. probe_sys_ok (ys i) w" and "R \<in> {AccelRegistrar, Crc32Registrar}"
  shows "idx + n \<le> 2 ^ 31 \<Longrightarrow>
    enum_loop ys (fst R) (snd R) idx n w = (listed (fst R) w [idx..<idx + n], w)"
proof (induction n arbitrary: idx)
  case (Suc n)
  from registrar_probe [OF assms(1) _ assms(2), of idx idx] Suc.prems
  obtain sub w1 where "snd R (ys idx) (fst R @ ''/'' @ to_string (int idx)) w = (Inr (Some sub), w1)"
    "sub_device_state sub w1 = segment_state w idx" "sub_destroy sub w1 = w" by auto
  moreover have "[idx..<idx + Suc n] = idx # [Suc idx..<Suc idx + n]" by (simp add: upt_rec)
  ultimately show ?case using Suc.IH [of "Suc idx"] Suc.prems
    by (auto simp: listed_def Let_def)
qed (simp add: listed_def)

text \<open>
  C18.  With both plugins loaded, enumeration lists the types in ascending order and, for each
  of them, the devices \<open>0, 1, \<dots>\<close> up to the first index without a shared-memory segment (at
  most 64), with the state read from the segment; every descriptor and mapping is returned.
  A segment is listed under every type: the registry cannot tell which HWIP is behind it.
\<close>

theorem enumerate_devices_correct:
  assumes "factories r = [AccelRegistrar, Crc32Registrar]"
    and "\<And>ty i. probe_sys_ok (ys ty i) w"
  shows "enumerate_devices ys r w = (listed ''accel'' w [0..<64] @ listed ''crc32'' w [0..<64], w)"
proof -
  have "enum_loop (ys ''accel'') ''accel'' (snd AccelRegistrar) 0 kEnumMax w = (listed ''accel'' w [0..<64], w)"
    using enum_loop_lists [of "ys ''accel''" w AccelRegistrar 0 kEnumMax] assms(2)
    by (simp add: kEnumMax_def AccelRegistrar_def)
  moreover have "enum_loop (ys ''crc32'') ''crc32'' (snd Crc32Registrar) 0 kEnumMax w =
      (listed ''crc32'' w [0..<64], w)"
    using enum_loop_lists [of "ys ''crc32''" w Crc32Registrar 0 kEnumMax] assms(2)
    by (simp add: kEnumMax_def Crc32Registrar_def)
  ultimately show ?thesis
    by (simp add: enumerate_devices_def assms(1) AccelRegistrar_def Crc32Registrar_def)
qed

definition example_registry :: HwipRegistry where
  "example_registry =
     register_type ''crc32'' (snd Crc32Registrar) (register_type ''accel'' (snd AccelRegistrar) HwipRegistry_new)"

definition one_segment :: os where
  "one_segment =
     \<lparr>shm_ns = [shm_name_of 0 \<mapsto> 0], shm_mem = (\<lambda>_. store32 4 1 (\<lambda>_. 0)), shm_next = 1,
      fd_table = Map.empty, live_maps = []\<rparr>"

lemma example_registry_factories: "factories example_registry = [AccelRegistrar, Crc32Registrar]"
  by (simp add: example_registry_def register_type_def HwipRegistry_new_def AccelRegistrar_def
      Crc32Registrar_def less_char_def)

theorem enumerate_devices_correct_witness:
  "map di_device_id (fst (enumerate_devices (\<lambda>_ _. sys_ok 5 6) example_registry one_segment)) =
     [''accel/'' @ to_string 0, ''crc32/'' @ to_string 0]"
proof -
  have y: "probe_sys_ok (sys_ok 5 6) one_segment"
    by (simp add: probe_sys_ok_def sys_ok_def one_segment_def)
  have "segment_state one_segment 0 = 2"
    by (simp add: segment_state_def one_segment_def mem_simps)
  moreover have "segment_state one_segment 1 = -1"
    by (simp add: segment_state_def one_segment_def shm_name_of_def to_string_inject)
  moreover have "[0..<64] = 0 # 1 # [2..<64]" by (simp add: upt_rec)
  ultimately have "takeWhile (\<lambda>i. segment_state one_segment i \<ge> 0) [0..<64] = [0]" by simp
  then show ?thesis
    using enumerate_devices_correct [OF example_registry_factories, of "\<lambda>_ _. sys_ok 5 6" one_segment] y
    by (simp add: listed_def)
qed

end
