(* ===== verification/Services.thy ===== *)
theory Services
  imports Registry
begin

text \<open>
  The gRPC services of the server (\<^verbatim>\<open>server/src/hwip_service.cpp\<close>, \<^verbatim>\<open>mgmt_service.cpp\<close>,
  \<^verbatim>\<open>telemetry_service.cpp\<close>).  An RPC ends with a status and a response, with an exception that
  leaves the handler, or in a null dereference; all three are outcomes of the model.  Every
  handler works on the shared-memory world of the hardware model.
\<close>

subsection \<open>Outcomes\<close>

datatype grpc_code = OK | INVALID_ARGUMENT | NOT_FOUND | INTERNAL

datatype 'r rpc = Reply grpc_code string 'r | Thrown cxx_exn | Null_deref

subsection \<open>HwipService\<close>

definition ListDevices ::
    "(string \<Rightarrow> nat \<Rightarrow> sys) \<Rightarrow> HwipRegistry \<Rightarrow> os \<Rightarrow> DeviceInfo list rpc \<times> os" where
  "ListDevices ys reg w = (let (devices, w) = enumerate_devices ys reg w in (Reply OK [] devices, w))"

definition bad_id_msg :: string where
  "bad_id_msg = ''invalid device_id format (expected <type>/<index>)''"

definition GetDeviceStatus ::
    "HwipRegistry \<Rightarrow> sys \<Rightarrow> string \<Rightarrow> os \<Rightarrow> DeviceInfo option rpc \<times> os" where
  "GetDeviceStatus reg y device_id w =
     (case parse_device_id device_id of
        None \<Rightarrow> (Reply INVALID_ARGUMENT bad_id_msg None, w)
      | Some (hwip_type, idx) \<Rightarrow>
          (case registry_create reg hwip_type of
             None \<Rightarrow> (Reply NOT_FOUND (''HWIP type not registered: '' @ hwip_type) None, w)
           | Some f \<Rightarrow>
               (case f y device_id w of
                  (Inl e, w) \<Rightarrow> (Thrown e, w)
                | (Inr None, w) \<Rightarrow> (Null_deref, w)
                | (Inr (Some sub), w) \<Rightarrow>
                    (Reply OK [] (Some \<lparr>di_device_id = device_id, di_state = sub_device_state sub w\<rparr>),
                     sub_destroy sub w))))"

record SubmitResponse =
  resp_request_id :: u32
  resp_result :: "u8 list"

text \<open>\<open>hash\<close> is \<^verbatim>\<open>std::hash<std::string>\<close>, which the language leaves to the implementation.\<close>

definition SubmitRequest ::
    "(string \<Rightarrow> u64) \<Rightarrow> HwipRegistry \<Rightarrow> sys \<Rightarrow> env \<Rightarrow> string \<Rightarrow> u32 \<Rightarrow> u8 list \<Rightarrow> os \<Rightarrow>
     SubmitResponse option rpc \<times> os" where
  "SubmitRequest hash reg y env device_id opcode payload w =
     (case parse_device_id device_id of
        None \<Rightarrow> (Reply INVALID_ARGUMENT bad_id_msg None, w)
      | Some (hwip_type, idx) \<Rightarrow>
          (case registry_create reg hwip_type of
             None \<Rightarrow> (Reply NOT_FOUND (''HWIP type not registered: '' @ hwip_type) None, w)
           | Some f \<Rightarrow>
               (case f y device_id w of
                  (Inl e, w) \<Rightarrow> (Thrown e, w)
                | (Inr None, w) \<Rightarrow> (Null_deref, w)
                | (Inr (Some sub), w) \<Rightarrow>
                    (case sub_submit sub env opcode payload w of
                       (Inl e, w) \<Rightarrow> (Reply INTERNAL (what e) None, sub_destroy sub w)
                     | (Inr res, w) \<Rightarrow>
                         (Reply OK []
                            (Some \<lparr>resp_request_id = ucast (hash (request_id res) AND 0xFFFFFFFF),
                                   resp_result = response_data res\<rparr>), sub_destroy sub w)))))"

subsection \<open>ManagementService\<close>

record ShmView =
  sv_base :: "nat option"
  sv_fd :: int

definition ShmView_new :: "sys \<Rightarrow> int \<Rightarrow> os \<Rightarrow> ShmView \<times> os" where
  "ShmView_new y device_index w =
     (let (fd, w) = shm_open y (shm_name_of device_index) False w in
      if fd < 0 then (\<lparr>sv_base = None, sv_fd = fd\<rparr>, w)
      else case sys_mmap y fd w of
          (None, w) \<Rightarrow> (\<lparr>sv_base = None, sv_fd = -1\<rparr>, sys_close fd w)
        | (Some obj, w) \<Rightarrow> (\<lparr>sv_base = Some obj, sv_fd = fd\<rparr>, w))"

definition ShmView_destroy :: "ShmView \<Rightarrow> os \<Rightarrow> os" where
  "ShmView_destroy v w =
     (let w = (case sv_base v of None \<Rightarrow> w | Some obj \<Rightarrow> sys_munmap obj w)
      in if sv_fd v \<ge> 0 then sys_close (sv_fd v) w else w)"

record FirmwareInfo =
  fi_fw_version :: string
  fi_build_date :: "string option"
  fi_protocol_version :: nat

definition version_string :: "u32 \<Rightarrow> string" where
  "version_string hw_ver =
     (let major = drop_bit 16 hw_ver AND 0xFF; minor = drop_bit 8 hw_ver AND 0xFF; patch = hw_ver AND 0xFF
      in to_string (uint major) @ ''.'' @ to_string (uint minor) @ ''.'' @ to_string (uint patch) @ ''-sim'')"

text \<open>
  \<^verbatim>\<open>gmtime\<close> and \<^verbatim>\<open>strftime("%Y-%m-%d")\<close>: the proleptic Gregorian calendar from the first of
  January 1970.  A year of more than nine digits does not fit the 16 bytes of the buffer,
  whose contents are then unspecified; that, and a start time of \<open>2 ^ 63\<close> or more, which is a
  negative \<^verbatim>\<open>time_t\<close> and not modelled, is \<open>None\<close>.
\<close>

definition leap_year :: "nat \<Rightarrow> bool" where
  "leap_year y \<longleftrightarrow> y mod 4 = 0 \<and> (y mod 100 \<noteq> 0 \<or> y mod 400 = 0)"

definition year_days :: "nat \<Rightarrow> nat" where
  "year_days y = (if leap_year y then 366 else 365)"

definition month_days :: "nat \<Rightarrow> nat list" where
  "month_days y = [31, if leap_year y then 29 else 28, 31, 30, 31, 30, 31, 31, 30, 31, 30, 31]"

function civil_year :: "nat \<Rightarrow> nat \<Rightarrow> nat \<times> nat" where
  "civil_year y d = (if d < year_days y then (y, d) else civil_year (Suc y) (d - year_days y))"
  by pat_completeness auto
termination
  by (relation "measure snd") (auto simp: year_days_def)

fun civil_month :: "nat list \<Rightarrow> nat \<Rightarrow> nat \<Rightarrow> nat \<times> nat" where
  "civil_month [] m d = (m, d)"
| "civil_month (n # ns) m d = (if d < n then (m, d) else civil_month ns (Suc m) (d - n))"

definition pad2 :: "nat \<Rightarrow> string" where
  "pad2 n = (if n < 10 then CHR ''0'' # dec_digits n else dec_digits n)"

definition date_string :: "nat \<Rightarrow> string option" where
  "date_string sec =
     (let (y, yd) = civil_year 1970 (sec div 86400); (m, d) = civil_month (month_days y) 1 yd in
      if y < 1000000000 then Some (dec_digits y @ ''-'' @ pad2 m @ ''-'' @ pad2 (Suc d)) else None)"

definition GetFirmwareInfo :: "sys \<Rightarrow> string \<Rightarrow> os \<Rightarrow> FirmwareInfo rpc \<times> os" where
  "GetFirmwareInfo y device_id w =
     (let (shm, w) = ShmView_new y (mgmt_parse_device_index device_id) w in
      case sv_base shm of
        None \<Rightarrow>
          (Reply OK [] \<lparr>fi_fw_version = ''0.0.0-stub'', fi_build_date = Some ''1970-01-01'',
                        fi_protocol_version = 1\<rparr>, ShmView_destroy shm w)
      | Some obj \<Rightarrow>
          let hw_ver = load32 kRegVersion (shm_mem w obj);
              start_sec = load64 (kShmStatsOffset + offsetof ShmStats S_start_time_sec) (shm_mem w obj) in
          (Reply OK []
             \<lparr>fi_fw_version = version_string hw_ver,
              fi_build_date = (if start_sec > 0 then date_string (unat start_sec) else Some ''1970-01-01''),
              fi_protocol_version = 1\<rparr>, ShmView_destroy shm w))"

definition ResetDevice :: "sys \<Rightarrow> string \<Rightarrow> os \<Rightarrow> (bool \<times> string) rpc \<times> os" where
  "ResetDevice y device_id w =
     (let (shm, w) = ShmView_new y (mgmt_parse_device_index device_id) w in
      case sv_base shm of
        None \<Rightarrow> (Reply OK [] (False, ''hw-model SHM not available''), ShmView_destroy shm w)
      | Some obj \<Rightarrow>
          let w = upd_page obj (\<lambda>m. store32 kRegCtrl (load32 kRegCtrl m OR kCtrlResetBit) m) w
          in (Reply OK [] (True, []), ShmView_destroy shm w))"

definition PushConfig :: "string \<Rightarrow> os \<Rightarrow> bool rpc \<times> os" where
  "PushConfig device_id w = (Reply OK [] True, w)"

definition GetConsolePath :: "string \<Rightarrow> os \<Rightarrow> string rpc \<times> os" where
  "GetConsolePath device_id w = (Reply OK [] ''/dev/null'', w)"

subsection \<open>TelemetryService\<close>

record Snapshot =
  sn_device_id :: string
  sn_timestamp :: int
  sn_uptime_ms :: "u32 option"
  sn_irq_count :: "u64 option"
  sn_pending_cmds :: "u32 option"

definition UINT32_MAX :: u64 where "UINT32_MAX = 0xFFFFFFFF"

text \<open>The metrics of a snapshot, from the statistics in the page and the clock.\<close>

definition uptime_ms32 :: "u64 \<Rightarrow> u64 \<Rightarrow> u32" where
  "uptime_ms32 start_sec now_sec =
     (let uptime_ms = (if start_sec > 0 \<and> now_sec \<ge> start_sec then (now_sec - start_sec) * 1000 else 0)
      in ucast (if uptime_ms > UINT32_MAX then UINT32_MAX else uptime_ms))"

text \<open>\<open>t1\<close> and \<open>t2\<close> are the two readings of the wall clock.\<close>

definition GetTelemetry :: "sys \<Rightarrow> int \<Rightarrow> int \<Rightarrow> string \<Rightarrow> os \<Rightarrow> Snapshot rpc \<times> os" where
  "GetTelemetry y t1 t2 device_id w =
     (let snap = \<lparr>sn_device_id = device_id, sn_timestamp = t1, sn_uptime_ms = None,
                  sn_irq_count = None, sn_pending_cmds = None\<rparr>;
          idx = telemetry_parse_device_index device_id;
          (fd, w) = (if idx \<ge> 0 then shm_open y (shm_name_of idx) False w else (-1, w)) in
      if fd < 0 then (Reply OK [] snap, w)
      else case sys_mmap y fd w of
          (None, w) \<Rightarrow> (Reply OK [] snap, sys_close fd w)
        | (Some obj, w) \<Rightarrow>
            let w = sys_close fd w; m = shm_mem w obj;
                cmd_count = load64 (kShmStatsOffset + offsetof ShmStats S_cmd_count) m;
                start_sec = load64 (kShmStatsOffset + offsetof ShmStats S_start_time_sec) m;
                fw_cmd_count = load64 (kShmStatsOffset + offsetof ShmStats S_fw_cmd_count) m in
            (Reply OK []
               (snap\<lparr>sn_uptime_ms := Some (uptime_ms32 start_sec (of_int t2)),
                     sn_irq_count := Some cmd_count,
                     sn_pending_cmds := Some (ucast (fw_cmd_count AND UINT32_MAX))\<rparr>),
             sys_munmap obj w))"

subsection \<open>Resources: every RPC gives back what it takes\<close>

text \<open>What a factory must do so that a handler can create, use and destroy an instance.\<close>

definition factory_neutral :: "factory \<Rightarrow> bool" where
  "factory_neutral f \<longleftrightarrow>
     (\<forall>y dev w. fd_table w (shm_open_fd y) = None \<longrightarrow>
        (case f y dev w of
           (Inr (Some sub), w1) \<Rightarrow>
             (\<forall>w2. same_handles w1 w2 \<longrightarrow> same_handles w (sub_destroy sub w2)) \<and>
             (\<forall>env op data w2. same_handles w2 (snd (sub_submit sub env op data w2)))
         | (_, w1) \<Rightarrow> same_handles w w1))"

context submitter_contract
begin

lemma make_factory_neutral: "factory_neutral (make_factory construct methods)"
proof -
  have "same_handles w2 (snd (sub_submit (methods p) env op data w2))" for p env op data w2
    by (rule submit_handles [OF prod.collapse [symmetric]])
  then show ?thesis
    using construct_throws destroy_releases
    by (auto simp: factory_neutral_def make_factory_def split: prod.splits sum.splits)
qed

end

lemma registrars_neutral:
  "factory_neutral (snd AccelRegistrar)" "factory_neutral (snd Crc32Registrar)"
  "factory_neutral (snd MychipRegistrar)"
proof -
  show "factory_neutral (snd AccelRegistrar)"
    by (simp add: AccelRegistrar_def accel.make_factory_neutral)
  show "factory_neutral (snd Crc32Registrar)"
    by (simp add: Crc32Registrar_def crc32.make_factory_neutral)
  show "factory_neutral (snd MychipRegistrar)"
    by (auto simp: MychipRegistrar_def make_factory_def factory_neutral_def MychipPlugin_submitter_def
        split: sum.splits)
qed

lemma factory_neutral_cases:
  assumes "factory_neutral f" and "fd_table w (shm_open_fd y) = None" and "f y dev w = (r, w1)"
  obtains (fails) "\<And>sub. r \<noteq> Inr (Some sub)" "same_handles w w1"
  | (made) sub where "r = Inr (Some sub)"
      "\<And>w2. same_handles w1 w2 \<Longrightarrow> same_handles w (sub_destroy sub w2)"
      "\<And>env op data w2. same_handles w2 (snd (sub_submit sub env op data w2))"
proof -
  have "case (r, w1) of
         (Inr (Some sub), w1) \<Rightarrow>
           (\<forall>w2. same_handles w1 w2 \<longrightarrow> same_handles w (sub_destroy sub w2)) \<and>
           (\<forall>env op data w2. same_handles w2 (snd (sub_submit sub env op data w2)))
       | (_, w1) \<Rightarrow> same_handles w w1"
    unfolding assms(3) [symmetric] using assms(1,2) by (simp add: factory_neutral_def)
  then show ?thesis using that by (cases r; cases "projr r") auto
qed

lemma same_handles_fd: "same_handles w w' \<Longrightarrow> fd_table w' = fd_table w"
  by (simp add: same_handles_def)

lemma enum_loop_neutral:
  assumes "factory_neutral f"
  shows "(\<And>i. fd_table w (shm_open_fd (ys i)) = None) \<Longrightarrow> same_handles w (snd (enum_loop ys ty f idx n w))"
proof (induction n arbitrary: idx w)
  case (Suc n)
  let ?dev = "ty @ ''/'' @ to_string (int idx)"
  obtain r w1 where f: "f (ys idx) ?dev w = (r, w1)" by fastforce
  from assms Suc.prems f show ?case
  proof (cases rule: factory_neutral_cases)
    case fails
    then show ?thesis using f by (auto simp: Let_def split: sum.splits option.splits)
  next
    case (made sub)
    have d: "same_handles w (sub_destroy sub w1)" using made(2) by simp
    then have "same_handles (sub_destroy sub w1) (snd (enum_loop ys ty f (Suc idx) n (sub_destroy sub w1)))"
      using Suc same_handles_fd by simp
    then show ?thesis using f made(1) d same_handles_trans by (auto simp: Let_def split: prod.splits)
  qed
qed simp

lemma enum_types_neutral:
  "(\<And>ty f. (ty, f) \<in> set fs \<Longrightarrow> factory_neutral f) \<Longrightarrow>
   (\<And>ty i. fd_table w (shm_open_fd (ys ty i)) = None) \<Longrightarrow> same_handles w (snd (enum_types ys fs w))"
proof (induction fs arbitrary: w)
  case (Cons tf fs)
  obtain ty f where tf: "tf = (ty, f)" by (cases tf)
  let ?w1 = "snd (enum_loop (ys ty) ty f 0 kEnumMax w)"
  have one: "same_handles w ?w1" using Cons.prems tf by (intro enum_loop_neutral) auto
  have "same_handles ?w1 (snd (enum_types ys fs ?w1))"
    by (rule Cons.IH) (use Cons.prems same_handles_fd [OF one] in auto)
  with one show ?case using same_handles_trans tf by (auto simp: Let_def split: prod.splits)
qed simp

lemma ShmView_neutral:
  assumes "fd_table w (shm_open_fd y) = None" and "ShmView_new y idx w = (v, w1)" and "same_handles w1 w2"
  shows "same_handles w (ShmView_destroy v w2)"
  using assms
  by (auto simp: ShmView_new_def ShmView_destroy_def Let_def shm_open_def sys_mmap_def sys_close_def
      sys_munmap_def same_handles_def fun_eq_iff split: if_splits option.splits open_file.splits)

lemma om_find_in_set: "om_find k m = Some v \<Longrightarrow> (k, v) \<in> set m"
  by (induction k m rule: om_find.induct) (auto split: if_splits)

text \<open>
  C22.  No RPC leaks: with any set of the three plugins registered, whatever the request, the
  system-call failures and the outcome (a reply, an error status or an exception), the open
  descriptors, the live mappings and the names are afterwards what they were before.
\<close>

theorem rpcs_release_everything:
  assumes "set (factories reg) \<subseteq> {AccelRegistrar, Crc32Registrar, MychipRegistrar}"
    and "fd_table w (shm_open_fd y) = None" and "\<And>ty i. fd_table w (shm_open_fd (ys ty i)) = None"
  shows "same_handles w (snd (ListDevices ys reg w)) \<and>
    same_handles w (snd (GetDeviceStatus reg y dev w)) \<and>
    same_handles w (snd (SubmitRequest hash reg y env dev opcode payload w)) \<and>
    same_handles w (snd (GetFirmwareInfo y dev w)) \<and>
    same_handles w (snd (ResetDevice y dev w)) \<and>
    same_handles w (snd (GetTelemetry y t1 t2 dev w))"
proof -
  have neutral: "factory_neutral f" if "(ty, f) \<in> set (factories reg)" for ty f
  proof -
    have "(ty, f) = AccelRegistrar \<or> (ty, f) = Crc32Registrar \<or> (ty, f) = MychipRegistrar"
      using that assms(1) by blast
    then show ?thesis using registrars_neutral by (metis snd_conv)
  qed
  have list: "same_handles w (snd (ListDevices ys reg w))"
  proof -
    have "same_handles w (snd (enum_types ys (factories reg) w))"
      by (rule enum_types_neutral) (fact neutral, fact assms(3))
    then show ?thesis by (auto simp: ListDevices_def enumerate_devices_def split: prod.splits)
  qed
  have f: "factory_neutral f" if "registry_create reg ty = Some f" for ty f
    using that neutral om_find_in_set by (metis registry_create_def)
  have status: "same_handles w (snd (GetDeviceStatus reg y dev w))"
  proof -
    have use: "same_handles w (snd (case f y dev w of (Inl e, w) \<Rightarrow> (Thrown e, w) | (Inr None, w) \<Rightarrow> (Null_deref, w)
        | (Inr (Some sub), w) \<Rightarrow> (g sub w, sub_destroy sub w)))" if N: "factory_neutral f" for f g
    proof (cases "f y dev w")
      case (Pair r w1)
      from N assms(2) Pair show ?thesis
        by (cases rule: factory_neutral_cases) (auto simp: Pair split: sum.splits option.splits)
    qed
    then show ?thesis by (auto simp: GetDeviceStatus_def split: option.splits intro!: use dest: f)
  qed
  have submit: "same_handles w (snd (SubmitRequest hash reg y env dev opcode payload w))"
  proof -
    have use: "same_handles w (snd (case f y dev w of (Inl e, w) \<Rightarrow> (Thrown e, w) | (Inr None, w) \<Rightarrow> (Null_deref, w)
        | (Inr (Some sub), w) \<Rightarrow>
            (case sub_submit sub env opcode payload w of
               (Inl e, w) \<Rightarrow> (g1 e, sub_destroy sub w) | (Inr res, w) \<Rightarrow> (g2 res, sub_destroy sub w))))"
      if N: "factory_neutral f" for f g1 g2
    proof (cases "f y dev w")
      case (Pair r w1)
      from N assms(2) Pair show ?thesis
      proof (cases rule: factory_neutral_cases)
        case fails
        then show ?thesis using Pair by (auto split: sum.splits option.splits)
      next
        case (made sub)
        obtain r2 w2 where s: "sub_submit sub env opcode payload w1 = (r2, w2)" by fastforce
        then have "same_handles w1 w2" using made(3) [of w1 env opcode payload] by simp
        then show ?thesis using Pair made(1) s made(2) [of w2] by (cases r2) simp_all
      qed
    qed
    then show ?thesis by (auto simp: SubmitRequest_def split: option.splits intro!: use dest: f)
  qed
  have info: "same_handles w (snd (GetFirmwareInfo y dev w))"
    using ShmView_neutral [OF assms(2)]
    by (auto simp: GetFirmwareInfo_def Let_def split: prod.splits option.splits)
  have reset: "same_handles w (snd (ResetDevice y dev w))"
    using ShmView_neutral [OF assms(2)]
    by (auto simp: ResetDevice_def Let_def split: prod.splits option.splits)
  have tele: "same_handles w (snd (GetTelemetry y t1 t2 dev w))"
    using assms(2)
    by (auto simp: GetTelemetry_def Let_def shm_open_def sys_mmap_def sys_close_def
      sys_munmap_def same_handles_def fun_eq_iff split: if_splits option.splits open_file.splits)
  show ?thesis using list status submit info reset tele by blast
qed

theorem rpcs_release_everything_witness:
  "same_handles one_segment (snd (SubmitRequest (\<lambda>_. 0) example_registry (sys_ok 5 6) (\<lambda>_ m. m)
     ''crc32/zero'' 1 [] one_segment))"
proof -
  have "set (factories example_registry) \<subseteq> {AccelRegistrar, Crc32Registrar, MychipRegistrar}"
    by (simp add: example_registry_factories)
  moreover have "fd_table one_segment (shm_open_fd (sys_ok 5 6)) = None"
    by (simp add: one_segment_def)
  ultimately show ?thesis
    using rpcs_release_everything [of example_registry one_segment "sys_ok 5 6" "\<lambda>_ _. sys_ok 5 6"] by blast
qed

subsection \<open>SubmitRequest\<close>

text \<open>A plugin class built for an existing segment.\<close>

lemma shm_plugin_connects:
  assumes "probe_sys_ok y w" and "0 \<le> i" and "i < 2 ^ 31" and "shm_ns w (shm_name_of i) = Some obj"
  shows "shm_plugin_new cls accel_parse_index y (ty @ ''/'' @ to_string i) w =
    (Inr \<lparr>p_device_id = ty @ ''/'' @ to_string i, p_device_index = i, p_shm_fd = shm_open_fd y,
          p_shm_base = Some obj\<rparr>,
     w\<lparr>fd_table := (fd_table w)(shm_open_fd y \<mapsto> Shm obj), live_maps := obj # live_maps w\<rparr>)"
  using assms parse_index_to_string [of i ty]
  by (simp add: shm_plugin_new_def Let_def shm_open_def sys_mmap_def probe_sys_ok_def)

text \<open>
  \<^verbatim>\<open>SubmitRequest\<close> end to end: with the crc32 plugin registered and a hardware model
  serving the segment within the poll budget, a COMPUTE request to \<^verbatim>\<open>crc32/<i>\<close> is answered with
  OK and the IEEE checksum of the payload (of its first 3072 bytes), the handler has
  returned its descriptor and its mapping, and the page counts one more command.
\<close>

theorem SubmitRequest_crc32:
  assumes "registry_create reg ''crc32'' = Some (snd Crc32Registrar)"
    and "probe_sys_ok y w" and "0 \<le> i" and "i < 2 ^ 31" and "shm_ns w (shm_name_of i) = Some obj"
    and "k < kMaxPolls"
  shows "\<exists>w'. SubmitRequest hash reg y (hw_env crc32_cmd_handler irq count k)
      (''crc32/'' @ to_string i) Crc32Op_COMPUTE payload w =
    (Reply OK [] (Some \<lparr>resp_request_id = ucast (hash (''crc32/'' @ to_string i @ ''-'' @ to_string 1) AND 0xFFFFFFFF),
                        resp_result = le_bytes32 (crc_reference (take 3072 payload)) @ [0, 0, 0, 0]\<rparr>), w') \<and>
    same_handles w w' \<and> stats_served count (shm_mem w obj) (shm_mem w' obj)"
proof -
  let ?dev = "''crc32/'' @ to_string i"
  let ?p = "\<lparr>p_device_id = ?dev, p_device_index = i, p_shm_fd = shm_open_fd y, p_shm_base = Some obj\<rparr>"
  let ?w1 = "w\<lparr>fd_table := (fd_table w)(shm_open_fd y \<mapsto> Shm obj), live_maps := obj # live_maps w\<rparr>"
  have id: "parse_device_id ?dev = Some (''crc32'', to_string i)"
    using parse_device_id_iff [of ?dev "''crc32''" "to_string i"] assms(3)
    by (simp add: to_string_def)
  have new: "snd Crc32Registrar y ?dev w = (Inr (Some (Crc32Plugin_submitter ?p)), ?w1)"
    using shm_plugin_connects [OF assms(2-5), of "''Crc32Plugin''" "''crc32''"]
    by (simp add: Crc32Registrar_def make_factory_def Crc32Plugin_new_def parse_index_copies)
  obtain m' where m': "crc32_submit_page (hw_env crc32_cmd_handler irq count k) ?dev Crc32Op_COMPUTE payload
      (shm_mem w obj) = (Inr \<lparr>request_id = ?dev @ ''-'' @ to_string (uint Crc32Op_COMPUTE),
            response_data = le_bytes32 (crc_reference (take 3072 payload)) @ [0, 0, 0, 0]\<rparr>, m')"
    and stats: "stats_served count (shm_mem w obj) m'"
    using crc32_submit_page_compute [OF assms(6)] by blast
  have "(fd_table w)(shm_open_fd y := None) = fd_table w" "shm_open_fd y \<ge> 0"
    using assms(2) by (auto simp: probe_sys_ok_def fun_eq_iff)
  then show ?thesis
    using id new m' stats assms(1)
    by (simp add: SubmitRequest_def Crc32Plugin_submitter_def Crc32Plugin_submit_def
        Crc32Plugin_destroy_def AccelPlugin_destroy_def sys_munmap_def sys_close_def same_handles_def
        Crc32Op_COMPUTE_def)
qed

theorem SubmitRequest_crc32_witness:
  "\<exists>w' rid. SubmitRequest (\<lambda>_. 7) example_registry (sys_ok 5 6) (hw_env crc32_cmd_handler True 0 3)
      (''crc32/'' @ to_string 0) Crc32Op_COMPUTE [0x31, 0x32, 0x33, 0x34, 0x35, 0x36, 0x37, 0x38, 0x39] one_segment =
    (Reply OK [] (Some \<lparr>resp_request_id = rid, resp_result = [0x26, 0x39, 0xF4, 0xCB, 0, 0, 0, 0]\<rparr>), w')"
proof -
  have c: "le_bytes32 (crc_reference [0x31, 0x32, 0x33, 0x34, 0x35, 0x36, 0x37, 0x38, 0x39]) =
      [0x26, 0x39, 0xF4, 0xCB]"
    by (simp add: compute_crc32_reference [symmetric] crc32_check_value le_bytes32_def)
  have h: "registry_create example_registry ''crc32'' = Some (snd Crc32Registrar)"
    "probe_sys_ok (sys_ok 5 6) one_segment" "(0::int) \<le> 0" "(0::int) < 2 ^ 31"
    "shm_ns one_segment (shm_name_of 0) = Some 0" "3 < kMaxPolls"
    by (simp_all add: registry_create_def example_registry_factories AccelRegistrar_def
        Crc32Registrar_def probe_sys_ok_def sys_ok_def one_segment_def kMaxPolls_def)
  from SubmitRequest_crc32 [OF h, of "\<lambda>_. 7" True 0
      "[0x31, 0x32, 0x33, 0x34, 0x35, 0x36, 0x37, 0x38, 0x39]"]
  show ?thesis using c by auto
qed

text \<open>
  C23.  The error outcomes of \<^verbatim>\<open>SubmitRequest\<close>, each with the world untouched: a device id without
  type or index is INVALID_ARGUMENT, an unregistered type NOT_FOUND, an index without a
  segment INTERNAL; but an index that is not a number makes the plugin's constructor throw
  outside the handler's \<^verbatim>\<open>try\<close>, and the exception leaves the RPC.
\<close>

theorem SubmitRequest_errors:
  assumes "shm_open_fd y \<ge> 0"
  shows "(parse_device_id dev = None \<longrightarrow>
      SubmitRequest hash reg y env dev op data w = (Reply INVALID_ARGUMENT bad_id_msg None, w)) \<and>
    (parse_device_id dev = Some (ty, idx) \<and> registry_create reg ty = None \<longrightarrow>
      SubmitRequest hash reg y env dev op data w =
        (Reply NOT_FOUND (''HWIP type not registered: '' @ ty) None, w)) \<and>
    (parse_device_id dev = Some (ty, idx) \<and> registry_create reg ty = Some (snd AccelRegistrar) \<longrightarrow>
      (accel_parse_index dev < 0 \<longrightarrow>
        SubmitRequest hash reg y env dev op data w =
          (Thrown (Invalid_argument (''AccelPlugin: bad device_id: '' @ dev)), w)) \<and>
      (0 \<le> accel_parse_index dev \<and> shm_ns w (shm_name_of (accel_parse_index dev)) = None \<longrightarrow>
        SubmitRequest hash reg y env dev op data w =
          (Reply INTERNAL (''AccelPlugin: SHM not mapped for '' @ dev) None, w)))"
  using assms
  by (auto simp: SubmitRequest_def AccelRegistrar_def make_factory_def AccelPlugin_new_def
      shm_plugin_new_def Let_def shm_open_def AccelPlugin_submitter_def AccelPlugin_submit_def
      AccelPlugin_destroy_def)

theorem SubmitRequest_errors_witness:
  "SubmitRequest (\<lambda>_. 0) example_registry (sys_ok 5 6) (\<lambda>_ m. m) ''accel/one'' 1 [] one_segment =
     (Thrown (Invalid_argument ''AccelPlugin: bad device_id: accel/one''), one_segment)"
proof -
  have "parse_device_id ''accel/one'' = Some (''accel'', ''one'')" by (simp add: parse_device_id_iff)
  moreover have "accel_parse_index ''accel/one'' < 0"
    by (simp add: accel_parse_index_def from_chars_def is_digit_def)
  moreover have "registry_create example_registry ''accel'' = Some (snd AccelRegistrar)"
    by (simp add: registry_create_def example_registry_factories AccelRegistrar_def)
  ultimately show ?thesis
    using SubmitRequest_errors [of "sys_ok 5 6" "''accel/one''" "\<lambda>_. 0" example_registry "\<lambda>_ m. m" 1 "[]"
        one_segment "''accel''" "''one''"]
    by (simp add: sys_ok_def)
qed

subsection \<open>ResetDevice\<close>

lemma poll_loop_reset_bit:
  assumes "\<forall>(running, env) \<in> set sched. \<forall>w. load32 (reg_off F_ctrl) (shm_mem (env w) obj) AND ctrl_RESET =
      load32 (reg_off F_ctrl) (shm_mem w obj) AND ctrl_RESET"
    and "t_reg_base (hw_transport s) = Some obj" and "poll_loop sched s w = Some (s', w')"
  shows "load32 (reg_off F_ctrl) (shm_mem w' obj) AND ctrl_RESET =
    load32 (reg_off F_ctrl) (shm_mem w obj) AND ctrl_RESET"
  using assms
proof (induction sched s w rule: poll_loop.induct)
  case (2 running env sched s w)
  have env: "load32 (reg_off F_ctrl) (shm_mem (env w) obj) AND ctrl_RESET =
      load32 (reg_off F_ctrl) (shm_mem w obj) AND ctrl_RESET" using "2.prems"(1) by fastforce
  show ?case
  proof (cases "running")
    case True
    then obtain s1 w1 where it: "poll_iteration s (env w) = Some (s1, w1)" "poll_loop sched s1 w1 = Some (s', w')"
      using "2.prems"(2,3) by (auto split: option.splits)
    note bit = poll_iteration_reset_bit [OF it(1) "2.prems"(2)]
    have "load32 (reg_off F_ctrl) (shm_mem w' obj) AND ctrl_RESET =
        load32 (reg_off F_ctrl) (shm_mem w1 obj) AND ctrl_RESET"
      by (rule "2.IH" [of "(s1, w1)"]) (use True "2.prems" it bit in auto)
    then show ?thesis using bit(1) env by simp
  qed (use "2.prems" env in auto)
qed simp

text \<open>
  \<^verbatim>\<open>ResetDevice\<close> on a live segment answers success and sets the RESET bit of the control
  register; and however long the hardware model polls afterwards (with other processes that
  do not touch the bit in between), the bit stays set: nothing acknowledges the reset.
\<close>

theorem reset_is_never_acknowledged:
  assumes "probe_sys_ok y w" and "mgmt_parse_device_index dev = i" and "shm_ns w (shm_name_of i) = Some obj"
    and "ResetDevice y dev w = (r, w1)" and "t_reg_base (hw_transport s) = Some obj"
    and "\<forall>(running, env) \<in> set sched. \<forall>w. load32 (reg_off F_ctrl) (shm_mem (env w) obj) AND ctrl_RESET =
      load32 (reg_off F_ctrl) (shm_mem w obj) AND ctrl_RESET"
    and "poll_loop sched s w1 = Some (s', w2)"
  shows "r = Reply OK [] (True, []) \<and>
    load32 (reg_off F_ctrl) (shm_mem w1 obj) = load32 (reg_off F_ctrl) (shm_mem w obj) OR ctrl_RESET \<and>
    load32 (reg_off F_ctrl) (shm_mem w2 obj) AND ctrl_RESET \<noteq> 0"
proof -
  have r: "r = Reply OK [] (True, [])"
    "load32 (reg_off F_ctrl) (shm_mem w1 obj) = load32 (reg_off F_ctrl) (shm_mem w obj) OR ctrl_RESET"
    using assms(1-4)
    by (auto simp: ResetDevice_def ShmView_new_def ShmView_destroy_def shm_open_def sys_mmap_def
        probe_sys_ok_def sys_munmap_def sys_close_def kRegCtrl_def kCtrlResetBit_def mem_simps)
  have "load32 (reg_off F_ctrl) (shm_mem w1 obj) AND ctrl_RESET = ctrl_RESET"
    unfolding r(2) by (simp add: bit.conj_disj_distrib2)
  then show ?thesis using r poll_loop_reset_bit [OF assms(6,5,7)] by simp
qed

theorem reset_is_never_acknowledged_witness:
  "load32 (reg_off F_ctrl) (shm_mem (snd (ResetDevice (sys_ok 5 6) ''accel/0'' one_segment)) 0) AND ctrl_RESET \<noteq> 0"
proof -
  have "to_string 0 = ''0''" by (simp add: to_string_def dec_digits.simps digit_char_def char_of_def bit_0)
  then have "mgmt_parse_device_index ''accel/0'' = 0"
    using parse_index_to_string [of 0 "''accel''"] by (simp add: parse_index_copies)
  moreover have "probe_sys_ok (sys_ok 5 6) one_segment" "shm_ns one_segment (shm_name_of 0) = Some 0"
    by (simp_all add: probe_sys_ok_def sys_ok_def one_segment_def)
  moreover have "t_reg_base (hw_transport example_server) = Some 0" by (simp add: example_server_def)
  ultimately show ?thesis
    using reset_is_never_acknowledged [of "sys_ok 5 6" one_segment "''accel/0''" 0 0
        "fst (ResetDevice (sys_ok 5 6) ''accel/0'' one_segment)"
        "snd (ResetDevice (sys_ok 5 6) ''accel/0'' one_segment)" example_server "[]"]
    by simp
qed

subsection \<open>Telemetry and firmware information\<close>

lemma unat_uptime:
  assumes "s \<le> n" and "(unat n - unat s) * 1000 < 2 ^ 64"
  shows "unat ((n - s) * 1000 :: u64) = (unat n - unat s) * 1000"
proof -
  have "unat (n - s) = unat n - unat s" using assms(1) by (simp add: unat_sub)
  moreover have "unat (1000 :: u64) = 1000" by simp
  ultimately have "unat (n - s) * unat (1000 :: u64) < 2 ^ 64" using assms(2) by simp
  moreover have "unat (a * b :: u64) = unat a * unat b" if "unat a * unat b < 2 ^ 64" for a b
    using that by (simp add: unat_word_ariths)
  ultimately have "unat ((n - s) * 1000 :: u64) = unat (n - s) * unat (1000 :: u64)" by blast
  then show ?thesis using \<open>unat (n - s) = unat n - unat s\<close> by simp
qed

text \<open>
  C31.  The reported uptime is the time since the recorded start in milliseconds, saturated at
  the largest 32-bit value; it is zero before a start was recorded and when the clock is
  behind it.  The 64-bit product does not wrap for any clock reading before the year
  500 million.
\<close>

theorem telemetry_uptime_saturates:
  assumes "(unat n - unat s) * 1000 < 2 ^ 64"
  shows "unat (uptime_ms32 s n) =
    (if s = 0 \<or> n < s then 0 else min (2 ^ 32 - 1) ((unat n - unat s) * 1000))"
proof (cases "s = 0 \<or> n < s")
  case True
  then show ?thesis by (auto simp: uptime_ms32_def UINT32_MAX_def)
next
  case False
  then have le: "s \<le> n" by (simp add: not_less)
  define u where "u = (n - s) * 1000"
  have u: "unat u = (unat n - unat s) * 1000" unfolding u_def by (rule unat_uptime [OF le assms])
  have gt: "u > UINT32_MAX \<longleftrightarrow> (unat n - unat s) * 1000 > 2 ^ 32 - 1"
    by (simp add: word_less_nat_alt u UINT32_MAX_def)
  have "s > 0" using False by (simp add: word_neq_0_conv)
  then have e: "uptime_ms32 s n = ucast (if u > UINT32_MAX then UINT32_MAX else u)"
    using le by (simp add: uptime_ms32_def u_def)
  show ?thesis
  proof (cases "u > UINT32_MAX")
    case True
    then show ?thesis using gt e False by (simp add: UINT32_MAX_def)
  next
    case no: False
    then have "(unat n - unat s) * 1000 < 2 ^ 32" using gt by simp
    then have "unat (ucast u :: u32) = (unat n - unat s) * 1000"
      by (simp add: unsigned_ucast_eq u take_bit_nat_eq_self)
    then show ?thesis using no gt e False by simp
  qed
qed

theorem telemetry_uptime_saturates_witness:
  "unat (uptime_ms32 1700000000 1700000005) = 5000 \<and> unat (uptime_ms32 1 1700000000) = 4294967295"
  using telemetry_uptime_saturates [of 1700000005 1700000000] telemetry_uptime_saturates [of 1700000000 1]
  by simp

text \<open>The page and the name space right after a successful start of the hardware model.\<close>

lemma init_page_effect:
  assumes "HwModelServer_init y now s w = (True, s', w')"
    and "shm_ns w (t_shm_name (hw_transport s)) = None"
  obtains obj where "shm_ns w' (t_shm_name (hw_transport s)) = Some obj"
    and "load32 0x10 (shm_mem w' obj) = HW_VERSION" and "load64 0x208 (shm_mem w' obj) = now"
    and "load64 0x200 (shm_mem w' obj) = 0" and "load64 0x218 (shm_mem w' obj) = 0"
  using assms
  by (auto simp: HwModelServer_init_def SimTransport_init_def Let_def init_registers_def
      RegMap_size shm_open_def sys_mmap_def sys_eventfd_def mem_simps
      split: if_splits option.splits open_file.splits)

lemma view_of_segment:
  assumes "probe_sys_ok y w" and "shm_ns w (shm_name_of i) = Some obj"
  shows "ShmView_new y i w = (\<lparr>sv_base = Some obj, sv_fd = shm_open_fd y\<rparr>,
    w\<lparr>fd_table := (fd_table w)(shm_open_fd y \<mapsto> Shm obj), live_maps := obj # live_maps w\<rparr>)"
  using assms by (simp add: ShmView_new_def shm_open_def sys_mmap_def probe_sys_ok_def)

lemma telemetry_of_segment:
  assumes "probe_sys_ok y w" and "shm_ns w (shm_name_of i) = Some obj" and "0 \<le> i" and "i < 2 ^ 31"
  shows "fst (GetTelemetry y t1 t2 (ty @ ''/'' @ to_string i) w) =
    Reply OK [] \<lparr>sn_device_id = ty @ ''/'' @ to_string i, sn_timestamp = t1,
                 sn_uptime_ms = Some (uptime_ms32 (load64 0x208 (shm_mem w obj)) (of_int t2)),
                 sn_irq_count = Some (load64 0x200 (shm_mem w obj)),
                 sn_pending_cmds = Some (ucast (load64 0x218 (shm_mem w obj) AND UINT32_MAX))\<rparr>"
proof -
  have off: "offsetof ShmStats S_start_time_sec = 8" "offsetof ShmStats S_cmd_count = 0"
    "offsetof ShmStats S_fw_cmd_count = 24"
    by (simp_all add: layout_simps ShmStats_def offsetof_def align_up_def)
  have "telemetry_parse_device_index (ty @ CHR ''/'' # to_string i) = i"
    using parse_index_to_string [OF assms(3,4)] by (simp add: parse_index_copies)
  then show ?thesis
    using assms by (simp add: GetTelemetry_def off Let_def shm_open_def sys_mmap_def probe_sys_ok_def sys_close_def)
qed

text \<open>
  The server reports what the hardware model published: after a successful start on a new
  segment at time \<open>now\<close>, \<^verbatim>\<open>GetFirmwareInfo\<close> for its index answers \<^verbatim>\<open>1.0.0-sim\<close> with the date of
  \<open>now\<close>, and \<^verbatim>\<open>GetTelemetry\<close> reports the uptime since \<open>now\<close> and no commands.
\<close>

theorem server_reports_hw_model:
  assumes "HwModelServer_init y now s w = (True, s', w')"
    and "t_shm_name (hw_transport s) = shm_name_of i" and "shm_ns w (shm_name_of i) = None"
    and "0 \<le> i" and "i < 2 ^ 31" and "0 < now" and "probe_sys_ok y' w'"
  shows "fst (GetFirmwareInfo y' (ty @ ''/'' @ to_string i) w') =
      Reply OK [] \<lparr>fi_fw_version = ''1.0.0-sim'', fi_build_date = date_string (unat now),
                   fi_protocol_version = 1\<rparr> \<and>
    fst (GetTelemetry y' t1 t2 (ty @ ''/'' @ to_string i) w') =
      Reply OK [] \<lparr>sn_device_id = ty @ ''/'' @ to_string i, sn_timestamp = t1,
                   sn_uptime_ms = Some (uptime_ms32 now (of_int t2)), sn_irq_count = Some 0,
                   sn_pending_cmds = Some 0\<rparr>"
proof -
  obtain obj where o: "shm_ns w' (shm_name_of i) = Some obj" "load32 0x10 (shm_mem w' obj) = HW_VERSION"
    "load64 0x208 (shm_mem w' obj) = now" "load64 0x200 (shm_mem w' obj) = 0"
    "load64 0x218 (shm_mem w' obj) = 0"
    using init_page_effect [OF assms(1)] assms(2,3) by metis
  have idx: "mgmt_parse_device_index (ty @ CHR ''/'' # to_string i) = i"
    using parse_index_to_string [OF assms(4,5)] by (simp add: parse_index_copies)
  have ver: "version_string HW_VERSION = ''1.0.0-sim''"
    by (simp add: version_string_def HW_VERSION_def to_string_def dec_digits.simps digit_char_def
        char_of_def bit_0)
  have off: "offsetof ShmStats S_start_time_sec = 8" "offsetof ShmStats S_cmd_count = 0"
    "offsetof ShmStats S_fw_cmd_count = 24"
    by (simp_all add: layout_simps ShmStats_def offsetof_def align_up_def)
  have "fst (GetFirmwareInfo y' (ty @ ''/'' @ to_string i) w') =
      Reply OK [] \<lparr>fi_fw_version = ''1.0.0-sim'', fi_build_date = date_string (unat now),
                   fi_protocol_version = 1\<rparr>"
    using o view_of_segment [OF assms(7) o(1)] assms(6)
    by (simp add: GetFirmwareInfo_def idx ver off kRegVersion_def Let_def)
  moreover have "fst (GetTelemetry y' t1 t2 (ty @ ''/'' @ to_string i) w') =
      Reply OK [] \<lparr>sn_device_id = ty @ ''/'' @ to_string i, sn_timestamp = t1,
                   sn_uptime_ms = Some (uptime_ms32 now (of_int t2)), sn_irq_count = Some 0,
                   sn_pending_cmds = Some 0\<rparr>"
    using telemetry_of_segment [OF assms(7) o(1) assms(4,5)] o by simp
  ultimately show ?thesis by blast
qed

theorem server_reports_hw_model_witness:
  "\<exists>s' w' d. HwModelServer_init (sys_ok 3 4) 86400 (HwModelServer_new (HwModelConfig_default\<lparr>cfg_shm_name := shm_name_of 0\<rparr>)) empty_world =
       (True, s', w') \<and>
     fst (GetFirmwareInfo (sys_ok 5 6) (''accel/'' @ to_string 0) w') =
       Reply OK [] \<lparr>fi_fw_version = ''1.0.0-sim'', fi_build_date = d, fi_protocol_version = 1\<rparr>"
proof -
  let ?s = "HwModelServer_new (HwModelConfig_default\<lparr>cfg_shm_name := shm_name_of 0\<rparr>)"
  let ?i = "HwModelServer_init (sys_ok 3 4) 86400 ?s empty_world"
  obtain ok s' w' where i: "?i = (ok, s', w')" by (cases ?i)
  have ok: "fst ?i" and fresh: "fd_table (snd (snd ?i)) 5 = None"
    by (simp_all add: HwModelServer_init_def SimTransport_init_def Let_def shm_open_def sys_mmap_def
        sys_eventfd_def sys_ok_def empty_world_def HwModelServer_new_def SimTransport_new_def)
  with i have r: "?i = (True, s', w')" by simp
  have h: "t_shm_name (hw_transport ?s) = shm_name_of 0" "shm_ns empty_world (shm_name_of 0) = None"
    "(0::int) \<le> 0" "(0::int) < 2 ^ 31" "(0::u64) < 86400"
    by (simp_all add: HwModelServer_new_def SimTransport_new_def empty_world_def)
  have "probe_sys_ok (sys_ok 5 6) w'" using fresh i by (simp add: probe_sys_ok_def sys_ok_def)
  from server_reports_hw_model [OF r h this, of "''accel''"] r show ?thesis by auto
qed

lemma civil_year_correct:
  "civil_year y d = (y', d') \<Longrightarrow> y \<le> y' \<and> d' < year_days y' \<and> d = sum_list (map year_days [y..<y']) + d'"
proof (induction y d rule: civil_year.induct)
  case (1 y d)
  show ?case
  proof (cases "d < year_days y")
    case True
    then show ?thesis using "1.prems" by (subst (asm) civil_year.simps) auto
  next
    case False
    then have "civil_year (Suc y) (d - year_days y) = (y', d')"
      using "1.prems" by (subst (asm) civil_year.simps) simp
    from "1.IH" [OF False this] False show ?thesis by (auto simp: upt_conv_Cons)
  qed
qed

lemma civil_month_correct:
  "civil_month ns m d = (m', d') \<Longrightarrow> d < sum_list ns \<Longrightarrow>
   m \<le> m' \<and> m' < m + length ns \<and> d' < ns ! (m' - m) \<and> d = sum_list (take (m' - m) ns) + d'"
proof (induction ns m d rule: civil_month.induct)
  case (2 n ns m d)
  show ?case
  proof (cases "d < n")
    case True
    then show ?thesis using "2.prems" by simp
  next
    case False
    with "2.prems" have "civil_month ns (Suc m) (d - n) = (m', d')" "d - n < sum_list ns" by auto
    from "2.IH" [OF False this] False show ?thesis
      by (auto simp: nth_Cons' take_Cons' Suc_diff_le)
  qed
qed simp

lemma month_days_sum: "sum_list (month_days y) = year_days y"
  by (simp add: month_days_def year_days_def)

text \<open>
  The build date is the civil date of the day: day \<open>d\<close> of month \<open>m\<close> of year \<open>y\<close>, where the
  days from the first of January 1970 are those of the years before \<open>y\<close>, of the months
  before \<open>m\<close> and the \<open>d\<close> days before this one, and \<open>d\<close> is a day of that month.
\<close>

theorem date_string_correct:
  "\<exists>y m d. 1970 \<le> y \<and> 1 \<le> m \<and> m \<le> 12 \<and> d < month_days y ! (m - 1) \<and>
     sec div 86400 = sum_list (map year_days [1970..<y]) + sum_list (take (m - 1) (month_days y)) + d \<and>
     date_string sec =
       (if y < 1000000000 then Some (dec_digits y @ ''-'' @ pad2 m @ ''-'' @ pad2 (Suc d)) else None)"
proof -
  obtain y yd where y: "civil_year 1970 (sec div 86400) = (y, yd)" by fastforce
  obtain m d where m: "civil_month (month_days y) 1 yd = (m, d)" by fastforce
  note yc = civil_year_correct [OF y]
  have "yd < sum_list (month_days y)" using yc by (simp add: month_days_sum)
  note mc = civil_month_correct [OF m this]
  have "length (month_days y) = 12" by (simp add: month_days_def)
  then show ?thesis using yc mc y m
    by (intro exI [of _ y] exI [of _ m] exI [of _ d]) (simp add: date_string_def)
qed

end
