(* ===== verification/Firmware.thy ===== *)
theory Firmware
  imports Submit_Path
begin

text \<open>
  The firmware: the HWIP driver for the simulator (\<^verbatim>\<open>deepspan_hwip_sim.c\<close>) with its poll thread,
  the interrupt handler of the production driver (\<^verbatim>\<open>deepspan_hwip.c\<close>), the virtio transport, the
  data of \<^verbatim>\<open>hwip_component.hpp\<close> and the application \<^verbatim>\<open>app/src/main.cpp\<close>.  The driver's data is a record; the register file is
  the shared page.  Blocking on the semaphore is a run through a schedule that says which
  other party (poll thread, hardware model) moves next.
\<close>

subsection \<open>The simulator driver\<close>

definition IRQ_DONE :: u32 where "IRQ_DONE = push_bit 0 1"
definition SHM_OPEN_RETRIES :: nat where "SHM_OPEN_RETRIES = 50"

definition EIO :: int where "EIO = 5"
definition EINVAL :: int where "EINVAL = 22"
definition ENOTSUP :: int where "ENOTSUP = 95"
definition ETIMEDOUT :: int where "ETIMEDOUT = 110"

record hwip_sim_data =
  fw_shm_base :: "nat option"
  cmd_done :: nat
  last_status :: u32
  last_result0 :: u32
  last_result1 :: u32

text \<open>A binary semaphore (\<^verbatim>\<open>k_sem_init(.., 0, 1)\<close>): giving it saturates at one.\<close>

definition k_sem_give :: "hwip_sim_data \<Rightarrow> hwip_sim_data" where
  "k_sem_give d = d\<lparr>cmd_done := min 1 (Suc (cmd_done d))\<rparr>"

definition reg_or :: "nat \<Rightarrow> u32 \<Rightarrow> page \<Rightarrow> page" where
  "reg_or off bits m = store32 off (load32 off m OR bits) m"

text \<open>One iteration of the poll thread.\<close>

definition poll_thread_fn :: "hwip_sim_data \<times> page \<Rightarrow> hwip_sim_data \<times> page" where
  "poll_thread_fn dm =
     (case dm of (d, m) \<Rightarrow>
        if load32 (the (fw_sim_reg IRQ_STATUS)) m AND IRQ_DONE \<noteq> 0 then
          let d = d\<lparr>last_status := load32 (the (fw_sim_reg RESULT_STATUS)) m,
                    last_result0 := load32 (the (fw_sim_reg RESULT_DATA0)) m,
                    last_result1 := load32 (the (fw_sim_reg RESULT_DATA1)) m\<rparr>;
              m = store32 (the (fw_sim_reg IRQ_STATUS)) IRQ_DONE m
          in (k_sem_give d, m)
        else (d, m))"

text \<open>
  Driver start: the segment name comes from the environment or the configuration, is put
  after a slash into a buffer of 80 bytes, and is opened with retries; \<open>tick\<close> is what the
  other processes do during a sleep.
\<close>

definition fw_shm_path :: "string option \<Rightarrow> string \<Rightarrow> string" where
  "fw_shm_path env_name config_name =
     (let shm_name = (case env_name of None \<Rightarrow> config_name | Some s \<Rightarrow> if s = [] then config_name else s)
      in take 79 (''/'' @ shm_name))"

fun fw_open_retry :: "nat \<Rightarrow> sys \<Rightarrow> string \<Rightarrow> (os \<Rightarrow> os) \<Rightarrow> os \<Rightarrow> int \<times> os" where
  "fw_open_retry 0 y path tick w = (-1, w)"
| "fw_open_retry (Suc n) y path tick w =
     (let (fd, w) = shm_open y path False w in
      if fd < 0 then fw_open_retry n y path tick (tick w) else (fd, w))"

definition hwip_sim_init ::
    "sys \<Rightarrow> string option \<Rightarrow> string \<Rightarrow> (os \<Rightarrow> os) \<Rightarrow> hwip_sim_data \<Rightarrow> os \<Rightarrow> int \<times> hwip_sim_data \<times> os" where
  "hwip_sim_init y env_name config_name tick d w =
     (let (fd, w) = fw_open_retry SHM_OPEN_RETRIES y (fw_shm_path env_name config_name) tick w in
      if fd < 0 then (- EIO, d, w)
      else
        let (base, w) = sys_mmap y fd w; w = sys_close fd w in
        case base of
          None \<Rightarrow> (- EIO, d\<lparr>fw_shm_base := None\<rparr>, w)
        | Some obj \<Rightarrow>
            (0, d\<lparr>fw_shm_base := Some obj, cmd_done := 0\<rparr>,
             upd_page obj (store32 (the (fw_sim_reg IRQ_ENABLE)) IRQ_DONE) w))"

text \<open>The registers \<^verbatim>\<open>deepspan_hwip_submit_cmd\<close> writes before it waits.\<close>

definition submit_registers :: "u32 \<Rightarrow> u32 \<Rightarrow> u32 \<Rightarrow> page \<Rightarrow> page" where
  "submit_registers opcode arg0 arg1 m =
     (let m = store32 (the (fw_sim_reg CMD_OPCODE)) opcode m;
          m = store32 (the (fw_sim_reg CMD_ARG0)) arg0 m;
          m = store32 (the (fw_sim_reg CMD_ARG1)) arg1 m;
          m = store32 (the (fw_sim_reg CMD_FLAGS)) 0 m
      in reg_or (the (fw_sim_reg CTRL)) ctrl_START m)"

text \<open>
  Who moves while the caller is blocked: the poll thread or the hardware model.  The list
  ends when the timeout (\<^verbatim>\<open>timeout_ms\<close>, or 5000 ms when it is zero) expires.
\<close>

datatype fw_mover = Poll_thread | Hw_model

definition fw_move :: "(page \<Rightarrow> page) \<Rightarrow> fw_mover \<Rightarrow> hwip_sim_data \<times> page \<Rightarrow> hwip_sim_data \<times> page" where
  "fw_move hw s dm = (case s of Poll_thread \<Rightarrow> poll_thread_fn dm | Hw_model \<Rightarrow> (fst dm, hw (snd dm)))"

fun k_sem_take :: "(page \<Rightarrow> page) \<Rightarrow> fw_mover list \<Rightarrow> hwip_sim_data \<times> page \<Rightarrow> bool \<times> hwip_sim_data \<times> page" where
  "k_sem_take hw sched (d, m) =
     (if cmd_done d > 0 then (True, d\<lparr>cmd_done := cmd_done d - 1\<rparr>, m)
      else case sched of
          [] \<Rightarrow> (False, d, m)
        | s # sched \<Rightarrow> k_sem_take hw sched (fw_move hw s (d, m)))"

text \<open>The result: the return code and, for code zero, the three values written to the caller.\<close>

definition deepspan_hwip_submit_cmd ::
    "(page \<Rightarrow> page) \<Rightarrow> fw_mover list \<Rightarrow> u32 \<Rightarrow> u32 \<Rightarrow> u32 \<Rightarrow> hwip_sim_data \<times> page \<Rightarrow>
     (int \<times> (u32 \<times> u32 \<times> u32) option) \<times> hwip_sim_data \<times> page" where
  "deepspan_hwip_submit_cmd hw sched opcode arg0 arg1 dm =
     (case dm of (d, m) \<Rightarrow>
        if fw_shm_base d = None then ((- EIO, None), d, m)
        else case k_sem_take hw sched (d, submit_registers opcode arg0 arg1 m) of
            (False, d, m) \<Rightarrow> ((- ETIMEDOUT, None), d, m)
          | (True, d, m) \<Rightarrow> ((0, Some (last_status d, last_result0 d, last_result1 d)), d, m))"

definition deepspan_hwip_version :: "hwip_sim_data \<times> page \<Rightarrow> u32" where
  "deepspan_hwip_version dm =
     (case dm of (d, m) \<Rightarrow> if fw_shm_base d = None then 0 else load32 (the (fw_sim_reg VERSION)) m)"

definition deepspan_hwip_set_dma :: "u8 list \<Rightarrow> hwip_sim_data \<times> page \<Rightarrow> int \<times> hwip_sim_data \<times> page" where
  "deepspan_hwip_set_dma src dm =
     (case dm of (d, m) \<Rightarrow>
        if fw_shm_base d = None then (- EIO, d, m)
        else if length src > kShmDmaMaxLen then (- EINVAL, d, m)
        else (0, d, store_bytes kShmDmaOffset src m))"

subsection \<open>The production driver\<close>

text \<open>
  Register writes of the real device are a parameter: a device register need not read back
  what was written.
\<close>

record deepspan_hwip_data =
  hd_cmd_done :: nat
  hd_last_status :: u32
  hd_last_result0 :: u32
  hd_last_result1 :: u32

definition deepspan_hwip_isr ::
    "(nat \<Rightarrow> u32 \<Rightarrow> page \<Rightarrow> page) \<Rightarrow> deepspan_hwip_data \<times> page \<Rightarrow> deepspan_hwip_data \<times> page" where
  "deepspan_hwip_isr hwip_write dm =
     (case dm of (d, m) \<Rightarrow>
        if load32 (the (fw_hwip_reg IRQ_STATUS)) m AND IRQ_DONE \<noteq> 0 then
          let d = d\<lparr>hd_last_status := load32 (the (fw_hwip_reg RESULT_STATUS)) m,
                    hd_last_result0 := load32 (the (fw_hwip_reg RESULT_DATA0)) m,
                    hd_last_result1 := load32 (the (fw_hwip_reg RESULT_DATA1)) m\<rparr>;
              m = hwip_write (the (fw_hwip_reg IRQ_STATUS)) IRQ_DONE m
          in (d\<lparr>hd_cmd_done := min 1 (Suc (hd_cmd_done d))\<rparr>, m)
        else (d, m))"

definition deepspan_hwip_init ::
    "(nat \<Rightarrow> u32 \<Rightarrow> page \<Rightarrow> page) \<Rightarrow> deepspan_hwip_data \<times> page \<Rightarrow> int \<times> deepspan_hwip_data \<times> page" where
  "deepspan_hwip_init hwip_write dm =
     (case dm of (d, m) \<Rightarrow> (0, d\<lparr>hd_cmd_done := 0\<rparr>, hwip_write (the (fw_hwip_reg IRQ_ENABLE)) IRQ_DONE m))"

definition prod_set_dma :: "u8 list \<Rightarrow> int" where
  "prod_set_dma src = - ENOTSUP"

subsection \<open>VirtioTransport\<close>

datatype TransportError = TE_Ok | NotInitialized | BufferFull | SendFailed | InvalidChannel | TE_Timeout

record VirtioTransport =
  vt_ready :: bool

definition vt_total_shm_size :: nat where "vt_total_shm_size = 0x10000"
definition vt_buf_size :: nat where "vt_buf_size = 512"

definition vt_init :: "nat \<Rightarrow> nat \<Rightarrow> VirtioTransport \<Rightarrow> bool \<times> VirtioTransport" where
  "vt_init shm_base shm_size t =
     (if shm_size < vt_total_shm_size then (False, t) else (True, t\<lparr>vt_ready := True\<rparr>))"

definition vt_register_channel :: "string \<Rightarrow> VirtioTransport \<Rightarrow> bool \<times> VirtioTransport" where
  "vt_register_channel ch t = (True, t)"

definition vt_send :: "u8 list \<Rightarrow> VirtioTransport \<Rightarrow> TransportError + nat" where
  "vt_send data t =
     (if \<not> vt_ready t then Inl NotInitialized
      else if length data > vt_buf_size then Inl BufferFull
      else Inr (length data))"

subsection \<open>HwipComponent\<close>

text \<open>
  Data of the component of \<^verbatim>\<open>hwip_component.hpp\<close>.  Its methods \<^verbatim>\<open>start\<close>, \<^verbatim>\<open>stop\<close> and \<^verbatim>\<open>handle_cmd\<close> are
  declared and defined nowhere, so they are not modelled.
\<close>

datatype HwipEventId = Ev_Init | Ev_CmdReceived | Ev_CmdComplete | Ev_Error | Ev_Reset

fun HwipEventId_value :: "HwipEventId \<Rightarrow> u32" where
  "HwipEventId_value Ev_Init = 0"
| "HwipEventId_value Ev_CmdReceived = 1"
| "HwipEventId_value Ev_CmdComplete = 2"
| "HwipEventId_value Ev_Error = 3"
| "HwipEventId_value Ev_Reset = 4"

datatype HwipStateId = St_Uninitialized | St_Initializing | St_Ready | St_Processing | St_Error

record CmdEvent =
  ev_opcode :: u32
  ev_arg0 :: u32
  ev_arg1 :: u32

record CompleteEvent =
  ev_status :: u32
  ev_result0 :: u32
  ev_result1 :: u32

record HwipComponent =
  hc_state :: HwipStateId

definition HwipComponent_new :: HwipComponent where
  "HwipComponent_new = \<lparr>hc_state = St_Uninitialized\<rparr>"

definition HwipComponent_is_ready :: "HwipComponent \<Rightarrow> bool" where
  "HwipComponent_is_ready c \<longleftrightarrow> hc_state c = St_Ready"

text \<open>The message ids ETL dispatches on are distinct, and a fresh component is not ready.\<close>

lemma HwipEventId_value_inj: "HwipEventId_value a = HwipEventId_value b \<longleftrightarrow> a = b"
  by (cases a; cases b; simp)

lemma HwipComponent_starts_unready: "\<not> HwipComponent_is_ready HwipComponent_new"
  by (simp add: HwipComponent_is_ready_def HwipComponent_new_def)

subsection \<open>The self-test of the application\<close>

datatype fw_log =
  Poly_ok u32 | Poly_mismatch u32 | Get_poly_failed int
| Set_dma_failed int | Compute_ok u32 bool | Compute_failed int

definition fw_test_data :: "u8 list" where
  "fw_test_data = [0x31, 0x32, 0x33, 0x34, 0x35, 0x36, 0x37, 0x38, 0x39]"

definition fw_test_poly ::
    "(page \<Rightarrow> page) \<Rightarrow> fw_mover list \<Rightarrow> hwip_sim_data \<times> page \<Rightarrow> fw_log list \<times> hwip_sim_data \<times> page" where
  "fw_test_poly hw sched dm =
     (case deepspan_hwip_submit_cmd hw sched Crc32Op_GET_POLY 0 0 dm of
        ((ret, res), dm) \<Rightarrow>
          (case res of
             Some (st, poly, _) \<Rightarrow>
               (if poly \<noteq> 0xEDB88320 then [Poly_ok poly, Poly_mismatch poly] else [Poly_ok poly], dm)
           | None \<Rightarrow> ([Get_poly_failed ret], dm)))"

definition fw_test_compute ::
    "(page \<Rightarrow> page) \<Rightarrow> fw_mover list \<Rightarrow> hwip_sim_data \<times> page \<Rightarrow> fw_log list \<times> hwip_sim_data \<times> page" where
  "fw_test_compute hw sched dm =
     (case deepspan_hwip_set_dma fw_test_data dm of
        (dma_ret, dm) \<Rightarrow>
          if dma_ret \<noteq> 0 then ([Set_dma_failed dma_ret], dm)
          else case deepspan_hwip_submit_cmd hw sched Crc32Op_COMPUTE (of_nat (length fw_test_data)) 0 dm of
              ((ret, res), dm) \<Rightarrow>
                (case res of
                   Some (st, checksum, _) \<Rightarrow> ([Compute_ok checksum (checksum = 0xCBF43926)], dm)
                 | None \<Rightarrow> ([Compute_failed ret], dm)))"

text \<open>One round of the periodic loop: stage the message, compute, log the outcome.\<close>

datatype fw_round = Round_crc u32 u32 | Round_submit_failed u32 int | Round_dma_failed u32 int

definition fw_loop_data :: "u8 list" where
  "fw_loop_data = map of_char ''Hello, deepspan CRC32!''"

definition fw_loop_round ::
    "(page \<Rightarrow> page) \<Rightarrow> fw_mover list \<Rightarrow> u32 \<Rightarrow> hwip_sim_data \<times> page \<Rightarrow> fw_round \<times> hwip_sim_data \<times> page" where
  "fw_loop_round hw sched seq dm =
     (case deepspan_hwip_set_dma fw_loop_data dm of
        (dma_ret, dm) \<Rightarrow>
          if dma_ret \<noteq> 0 then (Round_dma_failed seq dma_ret, dm)
          else case deepspan_hwip_submit_cmd hw sched Crc32Op_COMPUTE (of_nat (length fw_loop_data)) 0 dm of
              ((ret, res), dm) \<Rightarrow>
                (case res of
                   Some (st, checksum, _) \<Rightarrow> (Round_crc seq checksum, dm)
                 | None \<Rightarrow> (Round_submit_failed seq ret, dm)))"

text \<open>
  The application built for the simulator driver: \<open>init_ret\<close> is what the driver's init returned
  (a device is ready when it returned zero), \<open>hws j\<close> the hardware model while command \<open>j\<close> is
  waited for, and the periodic loop is given by the schedules of its rounds so far.
\<close>

fun fw_loop_rounds ::
    "(nat \<Rightarrow> page \<Rightarrow> page) \<Rightarrow> nat \<Rightarrow> u32 \<Rightarrow> fw_mover list list \<Rightarrow> hwip_sim_data \<times> page \<Rightarrow>
     fw_round list \<times> hwip_sim_data \<times> page" where
  "fw_loop_rounds hws j seq [] dm = ([], dm)"
| "fw_loop_rounds hws j seq (sched # scheds) dm =
     (let (r, dm) = fw_loop_round (hws j) sched seq dm;
          (rs, dm) = fw_loop_rounds hws (Suc j) (seq + 1) scheds dm
      in (r # rs, dm))"

datatype fw_outcome = Fw_exit int | Fw_running u32 "fw_log list" "fw_round list"

definition firmware_main ::
    "int \<Rightarrow> (nat \<Rightarrow> page \<Rightarrow> page) \<Rightarrow> fw_mover list \<Rightarrow> fw_mover list \<Rightarrow> fw_mover list list \<Rightarrow> hwip_sim_data \<times> page \<Rightarrow>
     fw_outcome \<times> hwip_sim_data \<times> page" where
  "firmware_main init_ret hws sched0 sched1 scheds dm =
     (if init_ret \<noteq> 0 then (Fw_exit (-1), dm)
      else
        let ver = deepspan_hwip_version dm;
            (log0, dm) = fw_test_poly (hws 0) sched0 dm;
            (log1, dm) = fw_test_compute (hws 1) sched1 dm;
            (rounds, dm) = fw_loop_rounds hws 2 0 scheds dm
        in (Fw_running ver (log0 @ log1) rounds, dm))"

subsection \<open>A command against the hardware model\<close>

definition hw_step :: "cmd_handler \<Rightarrow> u64 \<Rightarrow> page \<Rightarrow> page" where
  "hw_step h count m = (case hw_page_poll h True count m of Some m' \<Rightarrow> m' | None \<Rightarrow> m)"

lemma fw_masks [simp]: "IRQ_DONE = 1"
  by (simp add: IRQ_DONE_def)

lemma submit_registers_loads:
  "load32 0x100 (submit_registers op a0 a1 m) = op" "load32 0x104 (submit_registers op a0 a1 m) = a0"
  "load32 0x108 (submit_registers op a0 a1 m) = a1"
  "load32 0 (submit_registers op a0 a1 m) AND ctrl_START \<noteq> 0"
  "load32 8 (submit_registers op a0 a1 m) = load32 8 m"
  "load_bytes kShmDmaOffset n (submit_registers op a0 a1 m) = load_bytes kShmDmaOffset n m"
  by (simp_all add: submit_registers_def reg_or_def Let_def mem_simps)

lemma hw_step_serves:
  assumes "load32 0 m AND ctrl_START \<noteq> 0"
    and "h m (load32 0x100 m) (load32 0x104 m) (load32 0x108 m) = Some (st, r0, r1)"
  shows "load32 0 (hw_step h c m) AND ctrl_START = 0 \<and> load32 0x110 (hw_step h c m) = st \<and>
    load32 0x114 (hw_step h c m) = r0 \<and> load32 0x118 (hw_step h c m) = r1 \<and>
    load32 8 (hw_step h c m) AND IRQ_DONE \<noteq> 0"
  using assms by (simp add: hw_step_def hw_page_poll_def serve_command_def Let_def mem_simps bit.conj_disj_distrib2)

lemma hw_step_idle: "load32 0 m AND ctrl_START = 0 \<Longrightarrow> hw_step h c m = m"
  by (simp add: hw_step_def hw_page_poll_idle)

lemma poll_thread_quiet: "load32 8 m AND IRQ_DONE = 0 \<Longrightarrow> poll_thread_fn (d, m) = (d, m)"
  by (simp add: poll_thread_fn_def)

lemma sem_take_quiet:
  assumes "cmd_done d = 0" and "load32 8 m AND IRQ_DONE = 0"
  shows "k_sem_take hw (replicate a Poll_thread @ sched) (d, m) = k_sem_take hw sched (d, m)"
  using assms by (induction a) (simp_all add: fw_move_def poll_thread_quiet)

lemma sem_take_idle_hw:
  assumes "cmd_done d = 0" and "load32 0 m AND ctrl_START = 0"
  shows "k_sem_take (hw_step h c) (replicate b Hw_model @ sched) (d, m) = k_sem_take (hw_step h c) sched (d, m)"
  using assms by (induction b) (simp_all add: fw_move_def hw_step_idle)

text \<open>A poll of the thread on a raised interrupt, then the semaphore is taken.\<close>

lemma sem_take_done:
  assumes "cmd_done d = 0" and "load32 8 m AND IRQ_DONE \<noteq> 0"
  shows "k_sem_take hw (Poll_thread # sched) (d, m) =
    (True, d\<lparr>last_status := load32 0x110 m, last_result0 := load32 0x114 m,
             last_result1 := load32 0x118 m, cmd_done := 0\<rparr>, store32 8 IRQ_DONE m)"
  using assms by (simp add: fw_move_def poll_thread_fn_def k_sem_give_def Let_def)

lemma submit_cmd_exchange:
  assumes "fw_shm_base d \<noteq> None" and "cmd_done d = 0"
    and "a = 0 \<or> load32 8 m AND IRQ_DONE = 0"
    and "h (submit_registers op a0 a1 m) op a0 a1 = Some (st, r0, r1)"
  shows "\<exists>d' m'. deepspan_hwip_submit_cmd (hw_step h c)
      (replicate a Poll_thread @ Hw_model # replicate b Hw_model @ Poll_thread # sched) op a0 a1 (d, m) =
    ((0, Some (st, r0, r1)), d', m') \<and>
    fw_shm_base d' = fw_shm_base d \<and> cmd_done d' = 0 \<and>
    m' = store32 8 IRQ_DONE (hw_step h c (submit_registers op a0 a1 m)) \<and>
    load32 8 m' AND IRQ_DONE \<noteq> 0 \<and> load32 0 m' AND ctrl_START = 0 \<and>
    load32 0x110 m' = st \<and> load32 0x114 m' = r0 \<and> load32 0x118 m' = r1"
proof -
  let ?m1 = "submit_registers op a0 a1 m"
  let ?m2 = "hw_step h c ?m1"
  note sr = submit_registers_loads [where op = op and ?a0.0 = a0 and ?a1.0 = a1 and m = m]
  have served: "load32 0 ?m2 AND ctrl_START = 0" "load32 0x110 ?m2 = st" "load32 0x114 ?m2 = r0"
    "load32 0x118 ?m2 = r1" "load32 8 ?m2 AND IRQ_DONE \<noteq> 0"
    using hw_step_serves [of ?m1 h st r0 r1 c] sr assms(4) by simp_all
  have "k_sem_take (hw_step h c) (replicate a Poll_thread @ Hw_model # replicate b Hw_model @ Poll_thread # sched)
      (d, ?m1) = k_sem_take (hw_step h c) (Hw_model # replicate b Hw_model @ Poll_thread # sched) (d, ?m1)"
    using assms(2,3) sr(5) sem_take_quiet [of d ?m1] by auto
  also have "\<dots> = k_sem_take (hw_step h c) (replicate b Hw_model @ Poll_thread # sched) (d, ?m2)"
    using assms(2) by (simp add: fw_move_def)
  also have "\<dots> = k_sem_take (hw_step h c) (Poll_thread # sched) (d, ?m2)"
    using assms(2) served(1) by (rule sem_take_idle_hw)
  also note sem_take_done [OF assms(2) served(5)]
  finally show ?thesis
    using assms(1) served by (auto simp: deepspan_hwip_submit_cmd_def mem_simps)
qed

lemma get_poly_handler: "crc32_cmd_handler m Crc32Op_GET_POLY 0 0 = Some (0, 0xEDB88320, 0)"
  by (simp add: crc32_cmd_handler_def deepspan_crc32_dispatch_def crc32_opcodes crc_poly_def)

lemma crc32_handler_after_dma:
  assumes "length data \<le> 3072"
  shows "crc32_cmd_handler (submit_registers Crc32Op_COMPUTE (of_nat (length data)) 0
      (store_bytes kShmDmaOffset data m)) Crc32Op_COMPUTE (of_nat (length data)) 0 =
    Some (0, crc_reference data, 0)"
proof (rule crc32_compute_handler)
  show "load_bytes kShmDmaOffset (length data) (submit_registers Crc32Op_COMPUTE
      (of_nat (length data)) 0 (store_bytes kShmDmaOffset data m)) = data"
    by (simp only: submit_registers_loads load_bytes_store_bytes)
qed (use assms in simp)

text \<open>
  C6.  Firmware end to end: after staging data of at most 3072 bytes, a COMPUTE command on an
  idle driver returns code zero, status zero and the checksum of the data, in every schedule
  in which the hardware model moves before the poll thread next reports; more data is
  refused.  Before that the poll thread may run any number of times, provided no interrupt
  is pending.
\<close>

theorem firmware_crc32_end_to_end:
  assumes "fw_shm_base d \<noteq> None" and "cmd_done d = 0" and "a = 0 \<or> load32 8 m AND IRQ_DONE = 0"
  shows "(length data > 3072 \<longrightarrow> deepspan_hwip_set_dma data (d, m) = (- EINVAL, d, m)) \<and>
    (length data \<le> 3072 \<longrightarrow>
      (case deepspan_hwip_set_dma data (d, m) of (ret, dm) \<Rightarrow>
         ret = 0 \<and>
         fst (deepspan_hwip_submit_cmd (hw_step crc32_cmd_handler c)
           (replicate a Poll_thread @ Hw_model # replicate b Hw_model @ Poll_thread # sched)
           Crc32Op_COMPUTE (of_nat (length data)) 0 dm) = (0, Some (0, crc_reference data, 0))))"
proof (cases "length data \<le> 3072")
  case True
  let ?m = "store_bytes kShmDmaOffset data m"
  have irq: "load32 8 ?m = load32 8 m" by (simp add: mem_simps)
  have quiet: "a = 0 \<or> load32 8 ?m AND IRQ_DONE = 0" using assms(3) irq by simp
  from submit_cmd_exchange [where h = crc32_cmd_handler, OF assms(1,2) quiet
      crc32_handler_after_dma [OF True], of c b sched]
  show ?thesis using True assms(1) by (auto simp: deepspan_hwip_set_dma_def)
next
  case False
  then show ?thesis using assms(1) by (auto simp: deepspan_hwip_set_dma_def)
qed

definition fw_ready :: hwip_sim_data where
  "fw_ready = \<lparr>fw_shm_base = Some 0, cmd_done = 0, last_status = 0, last_result0 = 0, last_result1 = 0\<rparr>"

theorem firmware_crc32_end_to_end_witness:
  "fst (deepspan_hwip_submit_cmd (hw_step crc32_cmd_handler 0) [Poll_thread, Hw_model, Poll_thread]
      Crc32Op_COMPUTE 9 0 (snd (deepspan_hwip_set_dma fw_test_data (fw_ready, \<lambda>_. 0)))) =
    (0, Some (0, 0xCBF43926, 0))"
proof -
  have len: "length fw_test_data = 9" by (simp add: fw_test_data_def)
  have crc: "crc_reference fw_test_data = 0xCBF43926"
    by (simp add: fw_test_data_def compute_crc32_reference [symmetric] crc32_check_value)
  have h: "fw_shm_base fw_ready \<noteq> None" "cmd_done fw_ready = 0"
    "1 = 0 \<or> load32 8 (\<lambda>_. 0) AND IRQ_DONE = 0" by (simp_all add: fw_ready_def load32_zero)
  from firmware_crc32_end_to_end [OF h, of fw_test_data 0 0 "[]"] len crc show ?thesis
    by (simp add: split_beta)
qed

text \<open>
  C40.  The simulated interrupt is never cleared: writing one to the status word in plain shared
  memory stores a one.  So once a command has completed, the next run of the poll thread
  gives the semaphore again, and the next submit returns at once, successfully, with the
  results of the previous command, before the hardware model has seen the new one.
\<close>

theorem firmware_returns_stale_result:
  assumes "fw_shm_base d \<noteq> None" and "load32 8 m AND IRQ_DONE \<noteq> 0"
  shows "case poll_thread_fn (d, m) of (d1, m1) \<Rightarrow>
    load32 8 m1 AND IRQ_DONE \<noteq> 0 \<and>
    (\<exists>d2 m2. deepspan_hwip_submit_cmd hw sched op a0 a1 (d1, m1) =
       ((0, Some (load32 0x110 m, load32 0x114 m, load32 0x118 m)), d2, m2) \<and>
       load32 0x100 m2 = op \<and> load32 0 m2 AND ctrl_START \<noteq> 0)"
  using assms submit_registers_loads(1,4) [of op a0 a1]
  by (simp add: poll_thread_fn_def k_sem_give_def deepspan_hwip_submit_cmd_def Let_def mem_simps)

theorem firmware_returns_stale_result_witness:
  "fst (deepspan_hwip_submit_cmd (hw_step crc32_cmd_handler 0) [Hw_model, Poll_thread] Crc32Op_GET_POLY 0 0
      (poll_thread_fn (fw_ready, store32 0x114 42 (store32 8 1 (\<lambda>_. 0))))) = (0, Some (0, 42, 0))"
proof -
  let ?m = "store32 0x114 42 (store32 8 1 (\<lambda>_. 0))"
  have "fw_shm_base fw_ready \<noteq> None" "load32 8 ?m AND IRQ_DONE \<noteq> 0"
    by (simp_all add: fw_ready_def mem_simps)
  from firmware_returns_stale_result [OF this, where hw = "hw_step crc32_cmd_handler 0"
      and sched = "[Hw_model, Poll_thread]" and op = Crc32Op_GET_POLY and ?a0.0 = 0 and ?a1.0 = 0]
  show ?thesis by (auto simp: split_beta mem_simps load32_zero)
qed

text \<open>
  The self-test of the application, from a fresh driver: the polynomial is reported as
  expected, and the checksum test passes if the hardware model serves the second command
  before the poll thread runs again; if the poll thread runs first, the test reports the
  polynomial as the checksum and fails.
\<close>

theorem firmware_self_test:
  assumes "fw_shm_base d \<noteq> None" and "cmd_done d = 0" and "load32 8 m AND IRQ_DONE = 0"
    and "fw_test_poly (hw_step crc32_cmd_handler c) (replicate a Poll_thread @ Hw_model # Poll_thread # sched) (d, m)
      = (log1, dm1)"
  shows "log1 = [Poly_ok 0xEDB88320] \<and>
    fst (fw_test_compute (hw_step crc32_cmd_handler c') (Hw_model # Poll_thread # sched') dm1) =
      [Compute_ok 0xCBF43926 True] \<and>
    fst (fw_test_compute (hw_step crc32_cmd_handler c') (Poll_thread # sched') dm1) =
      [Compute_ok 0xEDB88320 False]"
proof -
  from submit_cmd_exchange [where h = crc32_cmd_handler and m = m, OF assms(1,2) _ get_poly_handler, of a c 0 sched]
    assms(3)
  obtain d1 m1 where one: "deepspan_hwip_submit_cmd (hw_step crc32_cmd_handler c)
      (replicate a Poll_thread @ Hw_model # Poll_thread # sched) Crc32Op_GET_POLY 0 0 (d, m) =
      ((0, Some (0, 0xEDB88320, 0)), d1, m1)"
    and d1: "fw_shm_base d1 \<noteq> None" "cmd_done d1 = 0"
    and m1: "load32 8 m1 AND IRQ_DONE \<noteq> 0" "load32 0x110 m1 = 0" "load32 0x114 m1 = 0xEDB88320"
      "load32 0x118 m1 = 0"
    using assms(1) by auto
  have dm1: "dm1 = (d1, m1)" and log1: "log1 = [Poly_ok 0xEDB88320]"
    using assms(4) one by (simp_all add: fw_test_poly_def)
  have len: "length fw_test_data \<le> 3072" by (simp add: fw_test_data_def)
  have crc: "crc_reference fw_test_data = 0xCBF43926"
    by (simp add: fw_test_data_def compute_crc32_reference [symmetric] crc32_check_value)
  let ?m = "store_bytes kShmDmaOffset fw_test_data m1"
  have dma: "deepspan_hwip_set_dma fw_test_data (d1, m1) = (0, d1, ?m)"
    using d1 len by (auto simp: deepspan_hwip_set_dma_def)
  have "fst (fw_test_compute (hw_step crc32_cmd_handler c') (Hw_model # Poll_thread # sched') dm1) =
      [Compute_ok 0xCBF43926 True]"
    using submit_cmd_exchange [where h = crc32_cmd_handler and a = 0, OF d1 _
        crc32_handler_after_dma [OF len], of m1 c' 0 sched'] dma
    by (auto simp: fw_test_compute_def dm1 crc)
  moreover have "fst (fw_test_compute (hw_step crc32_cmd_handler c') (Poll_thread # sched') dm1) =
      [Compute_ok 0xEDB88320 False]"
  proof -
    let ?r = "submit_registers Crc32Op_COMPUTE (of_nat (length fw_test_data)) 0 ?m"
    have "load32 8 ?r AND IRQ_DONE \<noteq> 0" "load32 0x114 ?r = 0xEDB88320"
      using m1 by (simp_all add: submit_registers_def reg_or_def Let_def mem_simps)
    with sem_take_done [OF d1(2), of ?r "hw_step crc32_cmd_handler c'" sched'] d1(1) show ?thesis
      by (simp add: fw_test_compute_def dm1 dma deepspan_hwip_submit_cmd_def)
  qed
  ultimately show ?thesis using log1 by blast
qed

theorem firmware_self_test_witness:
  "fst (fw_test_poly (hw_step crc32_cmd_handler 0) [Hw_model, Poll_thread] (fw_ready, \<lambda>_. 0)) = [Poly_ok 0xEDB88320]"
proof -
  let ?t = "fw_test_poly (hw_step crc32_cmd_handler 0) [Hw_model, Poll_thread] (fw_ready, \<lambda>_. 0)"
  have h: "fw_shm_base fw_ready \<noteq> None" "cmd_done fw_ready = 0" "load32 8 (\<lambda>_. 0) AND IRQ_DONE = 0"
    by (simp_all add: fw_ready_def load32_zero)
  have "fw_test_poly (hw_step crc32_cmd_handler 0) (replicate 0 Poll_thread @ Hw_model # Poll_thread # [])
      (fw_ready, \<lambda>_. 0) = (fst ?t, snd ?t)" by simp
  from firmware_self_test [OF h this] show ?thesis by blast
qed

subsection \<open>The application from the start of the hardware model\<close>

text \<open>A schedule in which the hardware model serves the command before the poll thread runs.\<close>

definition prompt :: "nat \<times> fw_mover list \<Rightarrow> fw_mover list" where
  "prompt br = Hw_model # replicate (fst br) Hw_model @ Poll_thread # snd br"

abbreviation crc32_hw :: "(nat \<Rightarrow> u64) \<Rightarrow> nat \<Rightarrow> page \<Rightarrow> page" where
  "crc32_hw cnt j \<equiv> hw_step crc32_cmd_handler (cnt j)"

lemma fw_poly_prompt:
  assumes "fw_shm_base d \<noteq> None" and "cmd_done d = 0" and "load32 8 m AND IRQ_DONE = 0"
  shows "\<exists>d' m'. fw_test_poly (hw_step crc32_cmd_handler c) (replicate a Poll_thread @ prompt br) (d, m) =
      ([Poly_ok 0xEDB88320], d', m') \<and> fw_shm_base d' \<noteq> None \<and> cmd_done d' = 0"
  using submit_cmd_exchange [where h = crc32_cmd_handler and m = m, OF assms(1,2) _ get_poly_handler, of a c "fst br" "snd br"]
    assms(1,3)
  by (auto simp: fw_test_poly_def prompt_def)

text \<open>Staging data and a COMPUTE command, from whatever state the previous command left.\<close>

lemma compute_prompt:
  assumes "fw_shm_base d \<noteq> None" and "cmd_done d = 0" and "length data \<le> 3072"
  shows "\<exists>d' m' d1 m1. deepspan_hwip_set_dma data (d, m) = (0, d1, m1) \<and>
    deepspan_hwip_submit_cmd (hw_step crc32_cmd_handler c) (prompt br) Crc32Op_COMPUTE (of_nat (length data)) 0 (d1, m1) =
      ((0, Some (0, crc_reference data, 0)), d', m') \<and> fw_shm_base d' \<noteq> None \<and> cmd_done d' = 0"
  using submit_cmd_exchange [where h = crc32_cmd_handler and a = 0, OF assms(1,2) _
      crc32_handler_after_dma [OF assms(3)], of m c "fst br" "snd br"] assms
  by (auto simp: deepspan_hwip_set_dma_def prompt_def)

lemma fw_loop_prompt:
  assumes "fw_shm_base d \<noteq> None" and "cmd_done d = 0"
  shows "fst (fw_loop_rounds (crc32_hw cnt) j seq (map prompt brs) (d, m)) =
    map (\<lambda>k. Round_crc (seq + of_nat k) (crc_reference fw_loop_data)) [0..<length brs]"
  using assms
proof (induction brs arbitrary: j seq d m)
  case (Cons br brs)
  have "length fw_loop_data \<le> 3072" by (simp add: fw_loop_data_def)
  from compute_prompt [OF Cons.prems this, of m "cnt j" br] obtain d' m' where
    one: "fw_loop_round (crc32_hw cnt j) (prompt br) seq (d, m) = (Round_crc seq (crc_reference fw_loop_data), d', m')"
    and d': "fw_shm_base d' \<noteq> None" "cmd_done d' = 0"
    by (fastforce simp: fw_loop_round_def)
  have "map (\<lambda>k. Round_crc (seq + of_nat k) (crc_reference fw_loop_data)) [0..<Suc (length brs)] =
      Round_crc seq (crc_reference fw_loop_data) #
      map (\<lambda>k. Round_crc (seq + 1 + of_nat k) (crc_reference fw_loop_data)) [0..<length brs]"
    by (subst upt_conv_Cons) (simp_all add: map_Suc_upt [symmetric] add.assoc del: upt_Suc)
  with one Cons.IH [OF d', of "Suc j" "seq + 1" m'] show ?case by (simp add: split_beta)
qed simp

text \<open>The driver's init against a segment that exists.\<close>

lemma hwip_sim_init_connects:
  assumes "shm_ns w (fw_shm_path env_name config_name) = Some obj"
    and "0 \<le> shm_open_fd y" and "fd_table w (shm_open_fd y) = None" and "mmap_ok y"
  shows "hwip_sim_init y env_name config_name tick d w =
    (0, d\<lparr>fw_shm_base := Some obj, cmd_done := 0\<rparr>,
     upd_page obj (store32 0x00C IRQ_DONE) (w\<lparr>live_maps := obj # live_maps w\<rparr>))"
proof -
  have retries: "SHM_OPEN_RETRIES = Suc 49" by (simp add: SHM_OPEN_RETRIES_def)
  have opens: "fw_open_retry (Suc n) y (fw_shm_path env_name config_name) tick w =
      (shm_open_fd y, w\<lparr>fd_table := (fd_table w)(shm_open_fd y \<mapsto> Shm obj)\<rparr>)" for n
    using assms by (simp add: shm_open_def)
  show ?thesis
    unfolding hwip_sim_init_def retries opens
    using assms by (simp add: sys_mmap_def sys_close_def fun_upd_idem)
qed



subsection \<open>The production interrupt handler\<close>

text \<open>
  On a device whose status register is write-one-to-clear, the production interrupt
  handler records the three result registers, acknowledges the interrupt and gives the
  semaphore once; run again without a new interrupt it does nothing.
\<close>

theorem production_isr_acknowledges:
  assumes "\<And>v m. hwip_write 8 v m = store32 8 (load32 8 m AND NOT v) m" and "load32 8 m AND IRQ_DONE \<noteq> 0"
  shows "case deepspan_hwip_isr hwip_write (d, m) of (d1, m1) \<Rightarrow>
    hd_last_status d1 = load32 0x110 m \<and> hd_last_result0 d1 = load32 0x114 m \<and>
    hd_last_result1 d1 = load32 0x118 m \<and> hd_cmd_done d1 = 1 \<and> load32 8 m1 AND IRQ_DONE = 0 \<and>
    deepspan_hwip_isr hwip_write (d1, m1) = (d1, m1)"
proof -
  have "load32 8 (store32 8 (load32 8 m AND NOT IRQ_DONE) m) AND IRQ_DONE = 0"
    by (simp only: w32.load_store) (simp add: and.assoc)
  then show ?thesis using assms by (simp add: deepspan_hwip_isr_def)
qed

theorem production_isr_acknowledges_witness:
  "hd_last_result0 (fst (deepspan_hwip_isr (\<lambda>off v m. store32 off (load32 off m AND NOT v) m)
     (\<lparr>hd_cmd_done = 0, hd_last_status = 0, hd_last_result0 = 0, hd_last_result1 = 0\<rparr>,
      store32 0x114 42 (store32 8 1 (\<lambda>_. 0))))) = 42"
  using production_isr_acknowledges [of "\<lambda>off v m. store32 off (load32 off m AND NOT v) m"
      "store32 0x114 42 (store32 8 1 (\<lambda>_. 0))"
      "\<lparr>hd_cmd_done = 0, hd_last_status = 0, hd_last_result0 = 0, hd_last_result1 = 0\<rparr>"]
  by (simp add: split_beta mem_simps)

end
