(* ===== verification/Programs.thy ===== *)
theory Programs
  imports Registry
begin

text \<open>
  The programs of the simulation: the hardware model (\<^verbatim>\<open>sim/hw-model/src/main.cpp\<close>), the
  simulated firmware (\<^verbatim>\<open>sim/hw-model/src/firmware_sim.cpp\<close>) and the start of the server
  (\<^verbatim>\<open>server/src/main.cpp\<close>).  Arguments are the strings after the program name; console output
  is kept where it reports results.
\<close>

subsection \<open>Command lines\<close>

datatype 'a main_args = Run 'a | Exit int | Uncaught string

definition starts_with :: "string \<Rightarrow> string \<Rightarrow> bool" where
  "starts_with p arg \<longleftrightarrow> take (length p) arg = p"

text \<open>\<^verbatim>\<open>std::stoul\<close> in base 10; the exceptions are named by their class.\<close>

definition is_space :: "char \<Rightarrow> bool" where
  "is_space c \<longleftrightarrow> c = CHR '' '' \<or> 9 \<le> (of_char c :: nat) \<and> (of_char c :: nat) \<le> 13"

definition stoul :: "string \<Rightarrow> string + u64" where
  "stoul s =
     (let s = dropWhile is_space s;
          neg = (s \<noteq> [] \<and> hd s = CHR ''-'');
          signed = (s \<noteq> [] \<and> (hd s = CHR ''-'' \<or> hd s = CHR ''+''));
          ds = takeWhile is_digit (if signed then tl s else s) in
      if ds = [] then Inl ''std::invalid_argument''
      else if dec_value ds \<ge> 2 ^ 64 then Inl ''std::out_of_range''
      else Inr (if neg then - of_nat (dec_value ds) else of_nat (dec_value ds)))"

fun hw_model_args :: "string list \<Rightarrow> HwModelConfig \<Rightarrow> HwModelConfig main_args" where
  "hw_model_args [] cfg = Run cfg"
| "hw_model_args (arg # args) cfg =
     (if starts_with ''--shm-name='' arg then hw_model_args args (cfg\<lparr>cfg_shm_name := drop 11 arg\<rparr>)
      else if starts_with ''--latency-us='' arg then
        (case stoul (drop 13 arg) of
           Inl e \<Rightarrow> Uncaught e
         | Inr v \<Rightarrow> hw_model_args args (cfg\<lparr>cfg_latency_us := ucast v\<rparr>))
      else if arg = ''--no-auto-irq'' then hw_model_args args (cfg\<lparr>cfg_auto_irq := False\<rparr>)
      else if arg = ''-h'' \<or> arg = ''--help'' then Exit 0
      else Exit 1)"

text \<open>
  The hardware-model program: construct, initialise, run, and the destructors at the end of
  \<^verbatim>\<open>main\<close> (\<^verbatim>\<open>stop\<close>, then the transport's clean-up).  The result is the exit status and whether the
  loop was entered.
\<close>

definition hw_model_exit :: "HwModelServer \<Rightarrow> os \<Rightarrow> os" where
  "hw_model_exit s w = snd (SimTransport_cleanup (hw_transport (HwModelServer_stop s)) w)"

definition hw_model_main ::
    "sys \<Rightarrow> u64 \<Rightarrow> (bool \<times> (os \<Rightarrow> os)) list \<Rightarrow> string list \<Rightarrow> os \<Rightarrow> (int main_args \<times> os) option" where
  "hw_model_main y now sched args w =
     (case hw_model_args args HwModelConfig_default of
        Exit c \<Rightarrow> Some (Exit c, w)
      | Uncaught e \<Rightarrow> Some (Uncaught e, w)
      | Run cfg \<Rightarrow>
          let (ok, s, w) = HwModelServer_init y now (HwModelServer_new cfg) w in
          if \<not> ok then Some (Exit 1, hw_model_exit s w)
          else case HwModelServer_run sched s w of
                 None \<Rightarrow> None
               | Some (s, w) \<Rightarrow> Some (Run 0, hw_model_exit s w))"

subsection \<open>The simulated firmware\<close>

fun fw_sim_args :: "string list \<Rightarrow> string \<times> u32 \<Rightarrow> (string \<times> u32) main_args" where
  "fw_sim_args [] cfg = Run cfg"
| "fw_sim_args (arg # args) (shm_name, interval_ms) =
     (if starts_with ''--shm-name='' arg then fw_sim_args args (drop 11 arg, interval_ms)
      else if starts_with ''--interval-ms='' arg then
        (case stoul (drop 14 arg) of
           Inl e \<Rightarrow> Uncaught e
         | Inr v \<Rightarrow> fw_sim_args args (shm_name, ucast v))
      else if arg = ''-h'' \<or> arg = ''--help'' then Exit 0
      else fw_sim_args args (shm_name, interval_ms))"

text \<open>
  Connecting: at most \<open>n\<close> attempts while \<^verbatim>\<open>g_running\<close> holds (\<open>ticks\<close> gives, per attempt, whether it
  does and what the other processes do during the sleep).
\<close>

fun fw_sim_open :: "nat \<Rightarrow> sys \<Rightarrow> string \<Rightarrow> (bool \<times> (os \<Rightarrow> os)) list \<Rightarrow> os \<Rightarrow> int \<times> os" where
  "fw_sim_open 0 y name ticks w = (-1, w)"
| "fw_sim_open (Suc n) y name [] w = (-1, w)"
| "fw_sim_open (Suc n) y name ((running, tick) # ticks) w =
     (if \<not> running then (-1, w)
      else let (fd, w) = shm_open y name False w in
           if fd \<ge> 0 then (fd, w) else fw_sim_open n y name ticks (tick w))"

definition FW_SIM_ATTEMPTS :: nat where "FW_SIM_ATTEMPTS = 50"

definition fw_sim_connect ::
    "sys \<Rightarrow> string \<Rightarrow> (bool \<times> (os \<Rightarrow> os)) list \<Rightarrow> os \<Rightarrow> nat option \<times> os" where
  "fw_sim_connect y name ticks w =
     (let (fd, w) = fw_sim_open FW_SIM_ATTEMPTS y name ticks w in
      if fd < 0 then (None, w)
      else let (base, w) = sys_mmap y fd w in (base, sys_close fd w))"

text \<open>What the firmware reports about the device: version parts and capability names.\<close>

definition fw_sim_banner :: "page \<Rightarrow> (u32 \<times> u32 \<times> u32) \<times> string list" where
  "fw_sim_banner m =
     (let version = load32 (reg_off F_version) m; caps = load32 (reg_off F_capabilities) m
      in ((drop_bit 16 version AND 0xFF, drop_bit 8 version AND 0xFF, version AND 0xFF),
          (if caps AND HW_CAPS_DMA \<noteq> 0 then [''DMA''] else []) @ (if caps AND HW_CAPS_IRQ \<noteq> 0 then [''IRQ''] else []) @
          (if caps AND HW_CAPS_MULTI \<noteq> 0 then [''MULTI''] else [])))"

text \<open>The command loop; \<^verbatim>\<open>std::cout\<close> is kept as the list of reports.\<close>

datatype fw_report =
    Fw_cmd u64 u32 u32 u32
  | Fw_result u64 u32 u32 u32
  | Fw_timed_out u64

definition fw_sim_polls :: nat where "fw_sim_polls = 2000"

text \<open>
  One round: \<open>polls\<close> is the number of polls before a signal clears \<^verbatim>\<open>g_running\<close> and \<open>env\<close> what the
  other side does before each load.
\<close>

definition fw_sim_round :: "nat \<Rightarrow> env \<Rightarrow> u64 \<Rightarrow> page \<Rightarrow> fw_report list \<times> u64 \<times> page" where
  "fw_sim_round polls env fw_count m =
     (let opcode = 1;
          arg0 = 0xDEAD0000 OR ucast (fw_count AND 0xFFFF);
          arg1 = ucast fw_count;
          m = store32 (reg_off F_cmd_opcode) opcode m;
          m = store32 (reg_off F_cmd_arg0) arg0 m;
          m = store32 (reg_off F_cmd_arg1) arg1 m;
          m = store32 (reg_off F_ctrl) (load32 (reg_off F_ctrl) m OR ctrl_START) m;
          (ok, m) = poll_start_clear env (reg_off F_ctrl) 0 (min polls fw_sim_polls) m;
          (report, m) =
            (if ok then
               let m = env fw_sim_polls m; rs = load32 (reg_off F_result_status) m;
                   m = env (fw_sim_polls + 1) m; r0 = load32 (reg_off F_result_data0) m;
                   m = env (fw_sim_polls + 2) m; r1 = load32 (reg_off F_result_data1) m
               in (Fw_result fw_count rs r0 r1, m)
             else (Fw_timed_out fw_count, m));
          next = fw_count + 1
      in ([Fw_cmd fw_count opcode arg0 arg1, report], next, store64 (stats_off S_fw_cmd_count) next m))"

fun fw_sim_loop :: "(nat \<times> env) list \<Rightarrow> u64 \<Rightarrow> page \<Rightarrow> fw_report list \<times> u64 \<times> page" where
  "fw_sim_loop [] fw_count m = ([], fw_count, m)"
| "fw_sim_loop ((polls, env) # sched) fw_count m =
     (let (out, fw_count, m) = fw_sim_round polls env fw_count m;
          (outs, fw_count, m) = fw_sim_loop sched fw_count m
      in (out @ outs, fw_count, m))"

text \<open>
  Waiting for READY, for at most \<open>n\<close> looks while \<^verbatim>\<open>g_running\<close> holds; the program goes on in any case.
\<close>

definition FW_SIM_READY_LOOKS :: nat where "FW_SIM_READY_LOOKS = 20"

fun fw_sim_wait_ready :: "nat \<Rightarrow> (bool \<times> (page \<Rightarrow> page)) list \<Rightarrow> page \<Rightarrow> page" where
  "fw_sim_wait_ready 0 waits m = m"
| "fw_sim_wait_ready (Suc n) [] m = m"
| "fw_sim_wait_ready (Suc n) ((running, tick) # waits) m =
     (if \<not> running then m
      else if load32 (reg_off F_status) m AND status_READY \<noteq> 0 then m
      else fw_sim_wait_ready n waits (tick m))"

text \<open>
  The program: \<open>ticks\<close> and \<open>waits\<close> are the attempts to connect and the looks at READY, \<open>sched\<close> the rounds
  of the loop until a signal ends it.
\<close>

definition fw_sim_main ::
    "sys \<Rightarrow> (bool \<times> (os \<Rightarrow> os)) list \<Rightarrow> (bool \<times> (page \<Rightarrow> page)) list \<Rightarrow> (nat \<times> env) list \<Rightarrow> string list \<Rightarrow> os \<Rightarrow>
     (((u32 \<times> u32 \<times> u32) \<times> string list) \<times> fw_report list \<times> u64) main_args \<times> os" where
  "fw_sim_main y ticks waits sched args w =
     (case fw_sim_args args (''/deepspan-sim'', 1000) of
        Exit c \<Rightarrow> (Exit c, w)
      | Uncaught e \<Rightarrow> (Uncaught e, w)
      | Run (shm_name, interval_ms) \<Rightarrow>
          (case fw_sim_connect y shm_name ticks w of
             (None, w) \<Rightarrow> (Exit 1, w)
           | (Some obj, w) \<Rightarrow>
               let m = fw_sim_wait_ready FW_SIM_READY_LOOKS waits (shm_mem w obj);
                   banner = fw_sim_banner m;
                   (out, fw_count, m) = fw_sim_loop sched 0 m;
                   w = upd_page obj (\<lambda>_. m) w
               in (Run (banner, out, fw_count), sys_munmap obj w)))"

subsection \<open>Start of the server\<close>

fun server_args :: "string list \<Rightarrow> string \<times> string list \<Rightarrow> (string \<times> string list) main_args" where
  "server_args [] cfg = Run cfg"
| "server_args (arg # rest) (addr, plugin_paths) =
     (case rest of
        v # rest' \<Rightarrow>
          if arg = ''--addr'' then server_args rest' (v, plugin_paths)
          else if arg = ''--hwip-plugin'' then server_args rest' (addr, plugin_paths @ [v])
          else if arg = ''--help'' \<or> arg = ''-h'' then Exit 0
          else Exit 1
      | [] \<Rightarrow> if arg = ''--help'' \<or> arg = ''-h'' then Exit 0 else Exit 1)"

fun load_all :: "dl_loader \<Rightarrow> string list \<Rightarrow> HwipRegistry \<Rightarrow> bool \<times> HwipRegistry" where
  "load_all L [] r = (True, r)"
| "load_all L (path # paths) r =
     (case load_plugin L path r of (ok, r) \<Rightarrow> if ok then load_all L paths r else (False, r))"

text \<open>
  \<^verbatim>\<open>main\<close> up to the point where the server listens; \<open>started\<close> is the answer of
  \<^verbatim>\<open>BuildAndStart\<close>.
\<close>

definition server_main :: "dl_loader \<Rightarrow> bool \<Rightarrow> string list \<Rightarrow> HwipRegistry \<Rightarrow> (string \<times> string list) main_args \<times> HwipRegistry" where
  "server_main L started args r =
     (case server_args args (''0.0.0.0:8080'', []) of
        Exit c \<Rightarrow> (Exit c, r)
      | Uncaught e \<Rightarrow> (Uncaught e, r)
      | Run (addr, plugin_paths) \<Rightarrow>
          case load_all L plugin_paths r of
            (False, r) \<Rightarrow> (Exit 1, r)
          | (True, r) \<Rightarrow> if started then (Run (addr, registered_types r), r) else (Exit 1, r))"

subsection \<open>The firmware against the hardware model\<close>

lemma fw_sim_poll_exchange:
  assumes "k < fw_sim_polls" and "load32 0 m AND ctrl_START \<noteq> 0"
    and "h m (load32 0x100 m) (load32 0x104 m) (load32 0x108 m) = Some (st, r0, r1)"
  obtains m' where "poll_start_clear (hw_env h irq count k) 0 0 fw_sim_polls m = (True, m')"
    and "\<And>i. k \<le> i \<Longrightarrow> hw_env h irq count k i m' = m'"
    and "load32 0x110 m' = st" and "load32 0x114 m' = r0" and "load32 0x118 m' = r1"
    and "load64 (stats_off S_cmd_count) m' = count + 1"
proof -
  obtain m' where m': "hw_page_poll h irq count m = Some m'" "load32 0 m' AND ctrl_START = 0"
    "load32 0x110 m' = st" "load32 0x114 m' = r0" "load32 0x118 m' = r1"
    "load64 (stats_off S_cmd_count) m' = count + 1"
    using assms(2,3) by (simp add: hw_page_poll_def serve_command_def Let_def mem_simps)
  show ?thesis
  proof
    show "poll_start_clear (hw_env h irq count k) 0 0 fw_sim_polls m = (True, m')"
      using assms(1,2) m'(1,2) by (intro poll_start_clear_at) (auto simp: hw_env_def)
    show "hw_env h irq count k i m' = m'" if "k \<le> i" for i
      using that m'(2) by (simp add: hw_env_def hw_page_poll_idle)
  qed (fact m')+
qed

definition echo_round :: "u64 \<Rightarrow> fw_report list" where
  "echo_round i =
     [Fw_cmd i 1 (0xDEAD0000 OR ucast (i AND 0xFFFF)) (ucast i),
      Fw_result i 0 (0xDEAD0000 OR ucast (i AND 0xFFFF)) (ucast i)]"

lemma fw_sim_round_echo:
  assumes "k < fw_sim_polls"
  obtains m' where "fw_sim_round fw_sim_polls (hw_env default_handler irq count k) i m = (echo_round i, i + 1, m')"
    and "load64 (stats_off S_fw_cmd_count) m' = i + 1" and "load64 (stats_off S_cmd_count) m' = count + 1"
proof -
  define a0 :: u32 where "a0 = 0xDEAD0000 OR ucast (i AND 0xFFFF)"
  define a1 :: u32 where "a1 = ucast i"
  define cmd where "cmd = (let m = store32 (reg_off F_cmd_opcode) 1 m; m = store32 (reg_off F_cmd_arg0) a0 m;
      m = store32 (reg_off F_cmd_arg1) a1 m
      in store32 (reg_off F_ctrl) (load32 (reg_off F_ctrl) m OR ctrl_START) m)"
  have "load32 0 cmd AND ctrl_START \<noteq> 0"
    by (simp add: cmd_def Let_def mem_simps ctrl_START_def bit_eq_iff [of _ "0 :: u32"] bit_simps exI [of _ 1])
  moreover have "default_handler cmd (load32 0x100 cmd) (load32 0x104 cmd) (load32 0x108 cmd) = Some (0, a0, a1)"
    by (simp add: cmd_def Let_def mem_simps default_handler_def)
  ultimately obtain m' where m': "poll_start_clear (hw_env default_handler irq count k) 0 0 fw_sim_polls cmd = (True, m')"
    "\<And>i. k \<le> i \<Longrightarrow> hw_env default_handler irq count k i m' = m'"
    "load32 0x110 m' = 0" "load32 0x114 m' = a0" "load32 0x118 m' = a1"
    "load64 (stats_off S_cmd_count) m' = count + 1"
    using fw_sim_poll_exchange [OF assms] by metis
  show ?thesis
  proof
    have "fw_sim_round fw_sim_polls (hw_env default_handler irq count k) i m =
        (let (ok, m) = poll_start_clear (hw_env default_handler irq count k) (reg_off F_ctrl) 0 fw_sim_polls cmd;
          (report, m) =
            (if ok then
               let m = hw_env default_handler irq count k fw_sim_polls m; rs = load32 (reg_off F_result_status) m;
                   m = hw_env default_handler irq count k (fw_sim_polls + 1) m; r0 = load32 (reg_off F_result_data0) m;
                   m = hw_env default_handler irq count k (fw_sim_polls + 2) m; r1 = load32 (reg_off F_result_data1) m
               in (Fw_result i rs r0 r1, m)
             else (Fw_timed_out i, m))
        in ([Fw_cmd i 1 a0 a1, report], i + 1, store64 (stats_off S_fw_cmd_count) (i + 1) m))"
      unfolding fw_sim_round_def cmd_def a0_def a1_def Let_def by simp
    then show "fw_sim_round fw_sim_polls (hw_env default_handler irq count k) i m =
        (echo_round i, i + 1, store64 (stats_off S_fw_cmd_count) (i + 1) m')"
      using assms m' by (simp add: echo_round_def a0_def a1_def)
    show "load64 (stats_off S_cmd_count) (store64 (stats_off S_fw_cmd_count) (i + 1) m') = count + 1"
      using m'(6) by (simp add: mem_simps)
  qed (simp add: mem_simps)
qed

definition echo_schedule :: "(nat \<Rightarrow> nat) \<Rightarrow> bool \<Rightarrow> u64 \<Rightarrow> nat \<Rightarrow> (nat \<times> env) list" where
  "echo_schedule k irq count n =
     map (\<lambda>j. (fw_sim_polls, hw_env default_handler irq (count + of_nat j) (k j))) [0..<n]"

lemma echo_schedule_Suc:
  "echo_schedule k irq count (Suc n) =
     echo_schedule k irq count n @ [(fw_sim_polls, hw_env default_handler irq (count + of_nat n) (k n))]"
  by (simp add: echo_schedule_def)

lemma fw_sim_loop_append:
  "fw_sim_loop (xs @ ys) i m =
     (let (out, i, m) = fw_sim_loop xs i m; (outs, i, m) = fw_sim_loop ys i m in (out @ outs, i, m))"
  by (induction xs i m rule: fw_sim_loop.induct) (simp_all add: Let_def split: prod.split)

text \<open>
  A session of the simulated firmware against the hardware model: if the model reaches
  each command within the two thousand polls, then after \<open>n\<close> rounds every command has been
  reported as completed with status 0 and its own two arguments, in order, and both command
  counters in the page, the firmware's and the model's, have advanced by \<open>n\<close>.
\<close>

lemma fw_sim_loop_echo:
  assumes "\<And>j. j < n \<Longrightarrow> k j < fw_sim_polls"
    and "load64 (stats_off S_fw_cmd_count) m = i" and "load64 (stats_off S_cmd_count) m = count"
  shows "\<exists>m'. fw_sim_loop (echo_schedule k irq count n) i m =
      (concat (map (\<lambda>j. echo_round (i + of_nat j)) [0..<n]), i + of_nat n, m') \<and>
    load64 (stats_off S_fw_cmd_count) m' = i + of_nat n \<and> load64 (stats_off S_cmd_count) m' = count + of_nat n"
  using assms(1)
proof (induction n)
  case 0
  then show ?case using assms(2,3) by (simp add: echo_schedule_def)
next
  case (Suc n)
  then obtain m1 where m1: "fw_sim_loop (echo_schedule k irq count n) i m =
      (concat (map (\<lambda>j. echo_round (i + of_nat j)) [0..<n]), i + of_nat n, m1)" by auto
  obtain m2 where m2: "fw_sim_round fw_sim_polls (hw_env default_handler irq (count + of_nat n) (k n)) (i + of_nat n) m1 =
      (echo_round (i + of_nat n), i + of_nat n + 1, m2)"
    "load64 (stats_off S_fw_cmd_count) m2 = i + of_nat n + 1" "load64 (stats_off S_cmd_count) m2 = count + of_nat n + 1"
    using fw_sim_round_echo Suc.prems [of n] by blast
  have "fw_sim_loop (echo_schedule k irq count (Suc n)) i m =
      (concat (map (\<lambda>j. echo_round (i + of_nat j)) [0..<Suc n]), i + of_nat n + 1, m2)"
    by (simp add: echo_schedule_Suc fw_sim_loop_append m1 m2(1) Let_def)
  then show ?case using m2(2,3) by (simp add: add.assoc add.commute)
qed

text \<open>Connecting to a segment that exists takes one attempt and leaves only the mapping.\<close>

lemma fw_sim_connects:
  assumes "shm_ns w name = Some obj" and "0 \<le> shm_open_fd y" and "fd_table w (shm_open_fd y) = None" and "mmap_ok y"
  shows "fw_sim_connect y name ((True, tick) # ticks) w = (Some obj, w\<lparr>live_maps := obj # live_maps w\<rparr>)"
proof -
  have attempts: "FW_SIM_ATTEMPTS = Suc 49" by (simp add: FW_SIM_ATTEMPTS_def)
  have opens: "fw_sim_open (Suc n) y name ((True, tick) # ticks) w =
      (shm_open_fd y, w\<lparr>fd_table := (fd_table w)(shm_open_fd y \<mapsto> Shm obj)\<rparr>)" for n
    using assms by (simp add: shm_open_def)
  show ?thesis
    unfolding fw_sim_connect_def attempts opens
    using assms by (simp add: sys_mmap_def sys_close_def fun_upd_idem)
qed

lemma fw_sim_no_segment:
  assumes "shm_ns w name = None"
  shows "fw_sim_connect y name (map (\<lambda>r. (r, id)) rs) w = (None, w)"
proof -
  have "fw_sim_open n y name (map (\<lambda>r. (r, id)) rs) w = (-1, w)" for n
  proof (induction n arbitrary: rs)
    case (Suc n)
    then show ?case using assms by (cases rs) (auto simp: shm_open_def)
  qed simp
  then show ?thesis by (simp add: fw_sim_connect_def)
qed

text \<open>
  C29.  The simulated firmware as a program.  Started on the segment of a hardware model that has
  just started on a new name, and served within the two thousand polls, it reports version
  1.0.0 and the three capabilities, then for every round the command and its echo with status
  0, in order; both counters in the page end at the number of rounds, and on exit descriptors
  and mappings are as before.  Without the segment it exits with 1 and has changed nothing.
\<close>

theorem firmware_sim_program:
  assumes "HwModelServer_init y now s w = (True, s', w')" and "t_shm_name (hw_transport s) = name" and "shm_ns w name = None"
    and "0 \<le> shm_open_fd y2" and "fd_table w' (shm_open_fd y2) = None" and "mmap_ok y2"
    and "\<And>j. j < n \<Longrightarrow> k j < fw_sim_polls"
  shows "(\<exists>w'' obj. fw_sim_main y2 ((True, tick) # ticks) waits (echo_schedule k irq 0 n) [''--shm-name='' @ name] w' =
      (Run (((1, 0, 0), [''DMA'', ''IRQ'', ''MULTI'']), concat (map (\<lambda>j. echo_round (of_nat j)) [0..<n]), of_nat n), w'') \<and>
    fd_table w'' = fd_table w' \<and> live_maps w'' = live_maps w' \<and> shm_ns w'' name = Some obj \<and>
    load64 (stats_off S_fw_cmd_count) (shm_mem w'' obj) = of_nat n \<and> load64 (stats_off S_cmd_count) (shm_mem w'' obj) = of_nat n) \<and>
    fw_sim_main y2 (map (\<lambda>r. (r, id)) rs) waits sched [''--shm-name='' @ name] w = (Exit 1, w)"
proof
  have args: "fw_sim_args [''--shm-name='' @ name] (''/deepspan-sim'', 1000) = Run (name, 1000)"
    by (simp add: starts_with_def)
  show "fw_sim_main y2 (map (\<lambda>r. (r, id)) rs) waits sched [''--shm-name='' @ name] w = (Exit 1, w)"
    unfolding fw_sim_main_def args using fw_sim_no_segment [OF assms(3)] by simp
  obtain obj where obj: "shm_ns w' name = Some obj" "load32 0x10 (shm_mem w' obj) = HW_VERSION"
    "load32 0x14 (shm_mem w' obj) = 7" "load32 4 (shm_mem w' obj) = 1"
    "load64 (stats_off S_cmd_count) (shm_mem w' obj) = 0" "load64 (stats_off S_fw_cmd_count) (shm_mem w' obj) = 0"
    using HwModelServer_init_registers [OF assms(1)] assms(2,3) by auto
  let ?m = "shm_mem w' obj"
  have ready: "fw_sim_wait_ready l waits ?m = ?m" for l
    using obj(4) by (cases l; cases waits) auto
  have banner: "fw_sim_banner ?m = ((1, 0, 0), [''DMA'', ''IRQ'', ''MULTI''])"
    using obj(2,3) by (simp add: fw_sim_banner_def HW_VERSION_def HW_CAPS_DMA_def HW_CAPS_IRQ_def HW_CAPS_MULTI_def)
  obtain m' where m': "fw_sim_loop (echo_schedule k irq 0 n) 0 ?m =
      (concat (map (\<lambda>j. echo_round (of_nat j)) [0..<n]), of_nat n, m')"
    "load64 (stats_off S_fw_cmd_count) m' = of_nat n" "load64 (stats_off S_cmd_count) m' = of_nat n"
    using fw_sim_loop_echo [where n = n and k = k and irq = irq, OF assms(7) obj(6,5)] by auto
  show "\<exists>w'' obj. fw_sim_main y2 ((True, tick) # ticks) waits (echo_schedule k irq 0 n) [''--shm-name='' @ name] w' =
      (Run (((1, 0, 0), [''DMA'', ''IRQ'', ''MULTI'']), concat (map (\<lambda>j. echo_round (of_nat j)) [0..<n]), of_nat n), w'') \<and>
    fd_table w'' = fd_table w' \<and> live_maps w'' = live_maps w' \<and> shm_ns w'' name = Some obj \<and>
    load64 (stats_off S_fw_cmd_count) (shm_mem w'' obj) = of_nat n \<and> load64 (stats_off S_cmd_count) (shm_mem w'' obj) = of_nat n"
    unfolding fw_sim_main_def args
    using fw_sim_connects [OF obj(1) assms(4-6)] ready banner m' obj(1)
    by (simp add: upd_page_def sys_munmap_def)
qed

theorem firmware_sim_program_witness:
  "\<exists>s' w' w''. HwModelServer_init (sys_ok 3 4) 5 (HwModelServer_new (HwModelConfig_default\<lparr>cfg_shm_name := ''/seg''\<rparr>)) empty_world =
       (True, s', w') \<and>
     fw_sim_main (sys_ok 5 6) [(True, id)] [] (echo_schedule (\<lambda>j. 3) True 0 2) [''--shm-name=/seg''] w' =
       (Run (((1, 0, 0), [''DMA'', ''IRQ'', ''MULTI'']),
             [Fw_cmd 0 1 0xDEAD0000 0, Fw_result 0 0 0xDEAD0000 0, Fw_cmd 1 1 0xDEAD0001 1, Fw_result 1 0 0xDEAD0001 1], 2), w'')"
proof -
  let ?s = "HwModelServer_new (HwModelConfig_default\<lparr>cfg_shm_name := ''/seg''\<rparr>)"
  let ?i = "HwModelServer_init (sys_ok 3 4) 5 ?s empty_world"
  obtain ok s' w' where i: "?i = (ok, s', w')" by (cases ?i)
  have "fst ?i" and fresh: "fd_table (snd (snd ?i)) 5 = None"
    by (simp_all add: HwModelServer_init_def SimTransport_init_def Let_def shm_open_def sys_mmap_def
        sys_eventfd_def sys_ok_def empty_world_def HwModelServer_new_def SimTransport_new_def)
  with i have r: "?i = (True, s', w')" by simp
  have "t_shm_name (hw_transport ?s) = ''/seg''" "shm_ns empty_world ''/seg'' = None" "0 \<le> shm_open_fd (sys_ok 5 6)"
    "fd_table w' (shm_open_fd (sys_ok 5 6)) = None" "mmap_ok (sys_ok 5 6)" "3 < fw_sim_polls"
    using fresh i by (simp_all add: HwModelServer_new_def SimTransport_new_def empty_world_def sys_ok_def fw_sim_polls_def)
  from firmware_sim_program [OF r this(1-5), where n = 2 and k = "\<lambda>_. 3" and tick = id and ticks = "[]" and waits = "[]" and irq = True] this(6)
  obtain w'' where "fw_sim_main (sys_ok 5 6) [(True, id)] [] (echo_schedule (\<lambda>j. 3) True 0 2) [''--shm-name=/seg''] w' =
      (Run (((1, 0, 0), [''DMA'', ''IRQ'', ''MULTI'']), concat (map (\<lambda>j. echo_round (of_nat j)) [0..<2]), of_nat 2), w'')"
    by auto
  moreover have "concat (map (\<lambda>j. echo_round (of_nat j)) [0..<2]) =
      [Fw_cmd 0 1 0xDEAD0000 0, Fw_result 0 0 0xDEAD0000 0, Fw_cmd 1 1 0xDEAD0001 1, Fw_result 1 0 0xDEAD0001 1]"
    by (simp add: echo_round_def upt_conv_Cons numeral_2_eq_2)
  ultimately show ?thesis using r by auto
qed

subsection \<open>The server's arguments and plugins\<close>

datatype server_option = Addr string | Plugin string

fun render_option :: "server_option \<Rightarrow> string list" where
  "render_option (Addr a) = [''--addr'', a]"
| "render_option (Plugin p) = [''--hwip-plugin'', p]"

fun apply_option :: "server_option \<Rightarrow> string \<times> string list \<Rightarrow> string \<times> string list" where
  "apply_option (Addr a) (addr, ps) = (a, ps)"
| "apply_option (Plugin p) (addr, ps) = (addr, ps @ [p])"

lemma server_args_render:
  "server_args (concat (map render_option os)) cfg = Run (foldl (\<lambda>c x. apply_option x c) cfg os)"
proof (induction os arbitrary: cfg)
  case (Cons x os)
  obtain addr ps where "cfg = (addr, ps)" by fastforce
  then show ?case by (cases x) (simp_all add: Cons.IH)
qed simp

text \<open>While libraries are only loaded, a library that is open has its type registered.\<close>

definition open_registered :: "dl_loader \<Rightarrow> HwipRegistry \<Rightarrow> bool" where
  "open_registered L r \<longleftrightarrow> registry_inv r \<and> (\<forall>h. dl_refs r h > 0 \<longrightarrow> fst (dl_registrar L h) \<in> set (registered_types r))"

lemma load_plugin_registers:
  assumes "open_registered L r" and "dl_lookup L path = Some h" and "load_plugin L path r = (ok, r')"
  shows "ok \<and> open_registered L r' \<and> set (registered_types r) \<subseteq> set (registered_types r') \<and>
    fst (dl_registrar L h) \<in> set (registered_types r')"
proof -
  have inv: "om_inv (factories r)" using assms(1) by (simp add: open_registered_def registry_inv_def)
  have r': "ok" "r' = snd (load_plugin L path r)"
    using assms(2,3) by (auto simp: load_plugin_def dl_open_def Let_def)
  have types: "set (registered_types r') =
      (if dl_refs r h = 0 then insert (fst (dl_registrar L h)) (set (registered_types r)) else set (registered_types r))"
    using assms(2) unfolding r'(2)
    by (simp add: load_plugin_def dl_open_def Let_def register_type_def registered_types_def om.keys_put [OF inv])
  have refs: "dl_refs r' h' > 0 \<longleftrightarrow> h' = h \<or> dl_refs r h' > 0" for h'
    using assms(2) unfolding r'(2) by (simp add: load_plugin_def dl_open_def Let_def register_type_def)
  show ?thesis
    using assms(1) r' types refs registry_inv_load [of r L path] by (auto simp: open_registered_def)
qed

lemma load_all_registers:
  assumes "open_registered L r" and "\<forall>p\<in>set paths. dl_lookup L p \<noteq> None" and "load_all L paths r = (ok, r')"
  shows "ok \<and> set (registered_types r) \<subseteq> set (registered_types r') \<and> sorted_wrt (<) (registered_types r') \<and>
    (\<forall>p\<in>set paths. fst (dl_registrar L (the (dl_lookup L p))) \<in> set (registered_types r'))"
  using assms
proof (induction paths arbitrary: r)
  case Nil
  then show ?case by (simp add: open_registered_def registry_inv_def om_inv_def registered_types_def)
next
  case (Cons p paths)
  obtain h where h: "dl_lookup L p = Some h" using Cons.prems(2) by auto
  obtain ok1 r1 where one: "load_plugin L p r = (ok1, r1)" by fastforce
  note loaded = load_plugin_registers [OF Cons.prems(1) h one]
  then have rest: "load_all L paths r1 = (ok, r')" using Cons.prems(3) one by simp
  show ?case using Cons.IH [OF _ _ rest] loaded Cons.prems(2) h by auto
qed

text \<open>
  What is registered while libraries are only loaded comes from a library the loader knows.
\<close>

definition from_libraries :: "dl_loader \<Rightarrow> HwipRegistry \<Rightarrow> bool" where
  "from_libraries L r \<longleftrightarrow> (\<forall>t f. registry_create r t = Some f \<longrightarrow> (\<exists>h. dl_registrar L h = (t, f)))"

lemma load_plugin_from_libraries:
  "from_libraries L r \<Longrightarrow> load_plugin L path r = (ok, r') \<Longrightarrow> from_libraries L r' \<and> (ok \<longrightarrow> dl_lookup L path \<noteq> None)"
  by (auto simp: from_libraries_def load_plugin_def dl_open_def Let_def register_type_def registry_create_def
      om_find_put split: option.splits if_splits) blast

lemma load_all_from_libraries:
  "from_libraries L r \<Longrightarrow> load_all L paths r = (ok, r') \<Longrightarrow>
   from_libraries L r' \<and> (ok \<longrightarrow> (\<forall>p\<in>set paths. dl_lookup L p \<noteq> None))"
proof (induction paths arbitrary: r)
  case (Cons p paths)
  obtain ok1 r1 where one: "load_plugin L p r = (ok1, r1)" by fastforce
  show ?case
    using load_plugin_from_libraries [OF Cons.prems(1) one] Cons.prems(2) Cons.IH [of r1] one
    by (cases ok1) auto
qed simp

text \<open>
  Starting the server: for any sequence of \<^verbatim>\<open>--addr\<close> and \<^verbatim>\<open>--hwip-plugin\<close> options whose libraries
  can be opened, the server listens on the last address given (the default if none is), and
  the types of all the plugins are registered and listed in ascending order.
\<close>

theorem server_starts_with_plugins:
  assumes "\<forall>p\<in>set (snd cfg). dl_lookup L p \<noteq> None"
    and "cfg = foldl (\<lambda>c x. apply_option x c) (''0.0.0.0:8080'', []) opts"
  shows "\<exists>types r'. server_main L True (concat (map render_option opts)) HwipRegistry_new = (Run (fst cfg, types), r') \<and>
    sorted_wrt (<) types \<and> (\<forall>p\<in>set (snd cfg). fst (dl_registrar L (the (dl_lookup L p))) \<in> set types)"
proof -
  obtain addr paths where cfg: "cfg = (addr, paths)" by fastforce
  obtain ok r' where load: "load_all L paths HwipRegistry_new = (ok, r')" by fastforce
  have "open_registered L HwipRegistry_new"
    by (simp add: open_registered_def HwipRegistry_new_def registry_inv_def om_inv_def)
  then have reg: "ok \<and> sorted_wrt (<) (registered_types r') \<and>
      (\<forall>p\<in>set paths. fst (dl_registrar L (the (dl_lookup L p))) \<in> set (registered_types r'))"
    using load_all_registers [OF _ _ load] assms(1) cfg by simp
  have "server_args (concat (map render_option opts)) (''0.0.0.0:8080'', []) = Run (addr, paths)"
    unfolding server_args_render assms(2) [symmetric] cfg by (rule refl)
  then have "server_main L True (concat (map render_option opts)) HwipRegistry_new = (Run (addr, registered_types r'), r')"
    using load reg by (simp add: server_main_def)
  then show ?thesis using reg cfg by auto
qed

definition two_plugins :: dl_loader where
  "two_plugins = \<lparr>dl_lookup = [''a.so'' \<mapsto> 1, ''c.so'' \<mapsto> 2],
     dl_registrar = (\<lambda>h. if h = 1 then AccelRegistrar else Crc32Registrar)\<rparr>"

theorem server_starts_with_plugins_witness:
  "\<exists>types r'. server_main two_plugins True [''--hwip-plugin'', ''c.so'', ''--addr'', '':9'', ''--hwip-plugin'', ''a.so'']
      HwipRegistry_new = (Run ('':9'', types), r') \<and> ''accel'' \<in> set types \<and> ''crc32'' \<in> set types"
proof -
  have look: "dl_lookup two_plugins ''a.so'' = Some 1" "dl_lookup two_plugins ''c.so'' = Some 2"
    "fst (dl_registrar two_plugins 1) = ''accel''" "fst (dl_registrar two_plugins 2) = ''crc32''"
    by (simp_all add: two_plugins_def AccelRegistrar_def Crc32Registrar_def)
  let ?opts = "[Plugin ''c.so'', Addr '':9'', Plugin ''a.so'']" and ?cfg = "('':9'', [''c.so'', ''a.so''])"
  have lib: "\<forall>p\<in>set (snd ?cfg). dl_lookup two_plugins p \<noteq> None" by (simp add: look)
  have opts: "?cfg = foldl (\<lambda>c x. apply_option x c) (''0.0.0.0:8080'', []) ?opts" by simp
  obtain types r' where run: "server_main two_plugins True (concat (map render_option ?opts)) HwipRegistry_new =
      (Run ('':9'', types), r')" and types: "\<forall>p\<in>set [''c.so'', ''a.so'']. fst (dl_registrar two_plugins (the (dl_lookup two_plugins p))) \<in> set types"
    using server_starts_with_plugins [OF lib opts] unfolding fst_conv snd_conv by blast
  have "''accel'' \<in> set types" "''crc32'' \<in> set types" using types look by simp_all
  then show ?thesis using run by (auto simp del: server_args.simps)
qed

subsection \<open>The hardware-model program gives everything back\<close>

lemma holds_only_same_handles: "holds_only t w w1 \<Longrightarrow> same_handles w1 w2 \<Longrightarrow> holds_only t w w2"
  by (simp add: holds_only_def same_handles_def)

lemma holds_only_evt_write:
  "holds_only t w w1 \<Longrightarrow> 0 \<le> t_irq_fd t \<Longrightarrow> holds_only t w (evt_write (t_irq_fd t) w1)"
  by (auto simp: holds_only_def evt_write_def split: option.splits open_file.splits)

lemma holds_only_raise_irq: "holds_only t w w1 \<Longrightarrow> holds_only t w (SimTransport_raise_irq t b w1)"
  using holds_only_same_handles [OF _ same_handles_upd_page]
  by (auto simp: SimTransport_raise_irq_def Let_def holds_only_evt_write split: option.split)

lemma poll_iteration_holds_only:
  assumes "holds_only (hw_transport s) w w1" and "poll_iteration s w1 = Some (s', w2)"
  shows "hw_transport s' = hw_transport s \<and> holds_only (hw_transport s) w w2"
  using assms holds_only_same_handles [OF assms(1) same_handles_upd_page]
  by (auto simp: poll_iteration_def Let_def holds_only_raise_irq split: option.splits if_splits)

lemma poll_loop_holds_only:
  assumes "\<forall>x\<in>set sched. \<forall>w. same_handles w (snd x w)"
    and "holds_only (hw_transport s) w w1" and "poll_loop sched s w1 = Some (s', w2)"
  shows "hw_transport s' = hw_transport s \<and> holds_only (hw_transport s) w w2"
  using assms
proof (induction sched s w1 rule: poll_loop.induct)
  case (2 running env sched s w1)
  have env: "holds_only (hw_transport s) w (env w1)"
    using holds_only_same_handles [OF "2.prems"(2)] "2.prems"(1) by simp
  show ?case
  proof (cases "t_reg_base (hw_transport s) = None \<or> \<not> running")
    case True
    then show ?thesis using "2.prems"(3) env by auto
  next
    case False
    then obtain s1 w3 where one: "poll_iteration s (env w1) = Some (s1, w3)" "poll_loop sched s1 w3 = Some (s', w2)"
      using "2.prems"(3) by (auto split: option.splits)
    note it = poll_iteration_holds_only [OF env one(1)]
    have "hw_transport s' = hw_transport s1 \<and> holds_only (hw_transport s1) w w2"
      using "2.IH" [OF False one(1) refl _ _ one(2)] "2.prems"(1) it by simp
    then show ?thesis using it by simp
  qed
qed simp

lemma HwModelServer_init_holds_only:
  assumes "fd_table w (shm_open_fd y) = None" "fd_table w (eventfd_fd y) = None"
    and "HwModelServer_init y now (HwModelServer_new cfg) w = (ok, s, w1)"
  shows "holds_only (hw_transport s) w w1" "t_shm_name (hw_transport s) = cfg_shm_name cfg"
    "shm_open_fd y < 0 \<or> t_shm_fd (hw_transport s) = shm_open_fd y"
proof -
  obtain ok0 t w0 where init: "SimTransport_init y (SimTransport_new (cfg_shm_name cfg)) w = (ok0, t, w0)"
    by (metis prod_cases3)
  note held = SimTransport_init_holds_only [OF assms(1,2) init]
  have s: "hw_transport s = t" "same_handles w0 w1"
    using assms(3) init
    by (auto simp: HwModelServer_init_def HwModelServer_new_def Let_def split: if_splits option.splits)
  show "holds_only (hw_transport s) w w1" using holds_only_same_handles [OF held(1)] s by simp
  show "t_shm_name (hw_transport s) = cfg_shm_name cfg" "shm_open_fd y < 0 \<or> t_shm_fd (hw_transport s) = shm_open_fd y"
    using held(2,3) s(1) by simp_all
qed

lemma hw_model_exit_releases:
  assumes "holds_only (hw_transport s) w w1"
  shows "fd_table (hw_model_exit s w1) = fd_table w" "live_maps (hw_model_exit s w1) = live_maps w"
    "\<forall>n. n \<noteq> t_shm_name (hw_transport s) \<longrightarrow> shm_ns (hw_model_exit s w1) n = shm_ns w n"
    "0 \<le> t_shm_fd (hw_transport s) \<Longrightarrow> shm_ns (hw_model_exit s w1) (t_shm_name (hw_transport s)) = None"
proof -
  obtain t' w2 where c: "SimTransport_cleanup (hw_transport s) w1 = (t', w2)" by fastforce
  then have "hw_model_exit s w1 = w2" by (simp add: hw_model_exit_def HwModelServer_stop_def)
  then show "fd_table (hw_model_exit s w1) = fd_table w" "live_maps (hw_model_exit s w1) = live_maps w"
    "\<forall>n. n \<noteq> t_shm_name (hw_transport s) \<longrightarrow> shm_ns (hw_model_exit s w1) n = shm_ns w n"
    "0 \<le> t_shm_fd (hw_transport s) \<Longrightarrow> shm_ns (hw_model_exit s w1) (t_shm_name (hw_transport s)) = None"
    using SimTransport_cleanup_releases [OF assms c] by simp_all
qed

text \<open>
  C20. The hardware-model program gives back what it takes: whatever the arguments, whichever
  system call of the initialisation fails, and however long the loop runs with other
  processes writing the page, on exit the descriptor table and the mappings are as before, the
  shared-memory name it opened is gone and no other name has changed; if the arguments are
  refused nothing has happened at all.
\<close>

theorem hw_model_main_releases:
  assumes "fd_table w (shm_open_fd y) = None" and "fd_table w (eventfd_fd y) = None"
    and "\<forall>x\<in>set sched. \<forall>w. same_handles w (snd x w)"
    and "hw_model_main y now sched args w = Some (res, w')"
  shows "fd_table w' = fd_table w \<and> live_maps w' = live_maps w \<and>
    (case hw_model_args args HwModelConfig_default of
       Run cfg \<Rightarrow> (shm_open_fd y < 0 \<or> shm_ns w' (cfg_shm_name cfg) = None) \<and>
         (\<forall>n. n \<noteq> cfg_shm_name cfg \<longrightarrow> shm_ns w' n = shm_ns w n)
     | Exit c \<Rightarrow> w' = w \<and> res = Exit c
     | Uncaught e \<Rightarrow> w' = w \<and> res = Uncaught e)"
proof (cases "hw_model_args args HwModelConfig_default")
  case (Run cfg)
  obtain ok s w1 where init: "HwModelServer_init y now (HwModelServer_new cfg) w = (ok, s, w1)" by (metis prod_cases3)
  note held = HwModelServer_init_holds_only [OF assms(1,2) init]
  have "\<exists>s2 w2. w' = hw_model_exit s2 w2 \<and> hw_transport s2 = hw_transport s \<and> holds_only (hw_transport s) w w2"
  proof (cases ok)
    case False
    then have "w' = hw_model_exit s w1" using assms(4) Run init by (simp add: hw_model_main_def)
    then show ?thesis using held(1) by blast
  next
    case True
    then obtain s2 w2 where run: "HwModelServer_run sched s w1 = Some (s2, w2)" "w' = hw_model_exit s2 w2"
      using assms(4) Run init by (auto simp: hw_model_main_def split: option.splits)
    show ?thesis
      using poll_loop_holds_only [OF assms(3) _ run(1) [unfolded HwModelServer_run_def], of w] held(1) run(2) by auto
  qed
  then obtain s2 w2 where fin: "w' = hw_model_exit s2 w2" "hw_transport s2 = hw_transport s" "holds_only (hw_transport s2) w w2"
    by auto
  show ?thesis using hw_model_exit_releases [OF fin(3)] fin(1,2) held(2,3) Run
    by (cases "shm_open_fd y < 0") auto
qed (use assms(4) in \<open>simp_all add: hw_model_main_def\<close>)

theorem hw_model_main_releases_witness:
  "\<exists>w'. hw_model_main (sys_ok 3 4) 5 [(False, \<lambda>w. w)] [''--shm-name=/x''] empty_world = Some (Run 0, w') \<and>
     fd_table w' = Map.empty \<and> live_maps w' = [] \<and> shm_ns w' ''/x'' = None"
proof -
  have args: "hw_model_args [''--shm-name=/x''] HwModelConfig_default = Run (HwModelConfig_default\<lparr>cfg_shm_name := ''/x''\<rparr>)"
    by (simp add: starts_with_def)
  obtain w' where main: "hw_model_main (sys_ok 3 4) 5 [(False, \<lambda>w. w)] [''--shm-name=/x''] empty_world = Some (Run 0, w')"
    by (simp add: hw_model_main_def args HwModelServer_init_def SimTransport_init_def Let_def shm_open_def sys_mmap_def
        sys_eventfd_def sys_ok_def empty_world_def HwModelServer_new_def SimTransport_new_def HwModelServer_run_def
        del: hw_model_args.simps)
  have "fd_table w' = Map.empty \<and> live_maps w' = [] \<and> shm_ns w' ''/x'' = None"
    using hw_model_main_releases [OF _ _ _ main] by (simp add: args sys_ok_def empty_world_def del: hw_model_args.simps)
  then show ?thesis using main by blast
qed

end
