(* ===== verification/Interface_Tables.thy ===== *)
theory Interface_Tables
  imports Plugins
begin

text \<open>
  The interface headers generated from \<^verbatim>\<open>hwip.yaml\<close> and the hand-written ones that repeat them:
  opcodes, register offsets, bit masks, opcode checks and payload structs of the simulator,
  RPC, kernel, UAPI and firmware layers, one table per header.  A table gives \<open>None\<close> where its header has no
  such name.
\<close>

subsection \<open>Opcodes\<close>

datatype accel_op = OP_ECHO | OP_PROCESS | OP_STATUS
datatype crc32_op = OP_COMPUTE | OP_GET_POLY

fun accel_sim_op :: "accel_op \<Rightarrow> u32" where
  "accel_sim_op OP_ECHO = AccelOp_ECHO"
| "accel_sim_op OP_PROCESS = AccelOp_PROCESS"
| "accel_sim_op OP_STATUS = AccelOp_STATUS"

fun crc32_sim_op :: "crc32_op \<Rightarrow> u32" where
  "crc32_sim_op OP_COMPUTE = Crc32Op_COMPUTE"
| "crc32_sim_op OP_GET_POLY = Crc32Op_GET_POLY"

fun accel_rpc_op :: "accel_op \<Rightarrow> u32" where
  "accel_rpc_op OP_ECHO = 0x0001"
| "accel_rpc_op OP_PROCESS = 0x0002"
| "accel_rpc_op OP_STATUS = 0x0003"

fun accel_kernel_op :: "accel_op \<Rightarrow> u32" where
  "accel_kernel_op OP_ECHO = 0x0001"
| "accel_kernel_op OP_PROCESS = 0x0002"
| "accel_kernel_op OP_STATUS = 0x0003"

fun accel_uapi_op :: "accel_op \<Rightarrow> u32" where
  "accel_uapi_op OP_ECHO = 0x0001"
| "accel_uapi_op OP_PROCESS = 0x0002"
| "accel_uapi_op OP_STATUS = 0x0003"

fun crc32_rpc_op :: "crc32_op \<Rightarrow> u32" where
  "crc32_rpc_op OP_COMPUTE = 0x0001"
| "crc32_rpc_op OP_GET_POLY = 0x0002"

fun crc32_kernel_op :: "crc32_op \<Rightarrow> u32" where
  "crc32_kernel_op OP_COMPUTE = 0x0001"
| "crc32_kernel_op OP_GET_POLY = 0x0002"

fun crc32_uapi_op :: "crc32_op \<Rightarrow> u32" where
  "crc32_uapi_op OP_COMPUTE = 0x0001"
| "crc32_uapi_op OP_GET_POLY = 0x0002"

fun crc32_fw_app_op :: "crc32_op \<Rightarrow> u32" where
  "crc32_fw_app_op OP_COMPUTE = 0x0001"
| "crc32_fw_app_op OP_GET_POLY = 0x0002"

text \<open>The opcode checks of the firmware dispatch headers.\<close>

definition deepspan_accel_is_valid_op :: "u32 \<Rightarrow> bool" where
  "deepspan_accel_is_valid_op op =
     (op = accel_kernel_op OP_ECHO \<or> op = accel_kernel_op OP_PROCESS \<or> op = accel_kernel_op OP_STATUS)"

definition deepspan_crc32_is_valid_op :: "u32 \<Rightarrow> bool" where
  "deepspan_crc32_is_valid_op op = (op = crc32_kernel_op OP_COMPUTE \<or> op = crc32_kernel_op OP_GET_POLY)"

subsection \<open>Register offsets\<close>

fun accel_rpc_reg :: "reg \<Rightarrow> nat" where
  "accel_rpc_reg CTRL = 0x0000"
| "accel_rpc_reg STATUS = 0x0004"
| "accel_rpc_reg IRQ_STATUS = 0x0008"
| "accel_rpc_reg IRQ_ENABLE = 0x000C"
| "accel_rpc_reg VERSION = 0x0010"
| "accel_rpc_reg CAPABILITIES = 0x0014"
| "accel_rpc_reg CMD_OPCODE = 0x0100"
| "accel_rpc_reg CMD_ARG0 = 0x0104"
| "accel_rpc_reg CMD_ARG1 = 0x0108"
| "accel_rpc_reg CMD_FLAGS = 0x010C"
| "accel_rpc_reg RESULT_STATUS = 0x0110"
| "accel_rpc_reg RESULT_DATA0 = 0x0114"
| "accel_rpc_reg RESULT_DATA1 = 0x0118"

fun crc32_rpc_reg :: "reg \<Rightarrow> nat" where
  "crc32_rpc_reg CTRL = 0x0000"
| "crc32_rpc_reg STATUS = 0x0004"
| "crc32_rpc_reg IRQ_STATUS = 0x0008"
| "crc32_rpc_reg IRQ_ENABLE = 0x000C"
| "crc32_rpc_reg VERSION = 0x0010"
| "crc32_rpc_reg CAPABILITIES = 0x0014"
| "crc32_rpc_reg CMD_OPCODE = 0x0100"
| "crc32_rpc_reg CMD_ARG0 = 0x0104"
| "crc32_rpc_reg CMD_ARG1 = 0x0108"
| "crc32_rpc_reg CMD_FLAGS = 0x010C"
| "crc32_rpc_reg RESULT_STATUS = 0x0110"
| "crc32_rpc_reg RESULT_DATA0 = 0x0114"
| "crc32_rpc_reg RESULT_DATA1 = 0x0118"

fun accel_kernel_reg :: "reg \<Rightarrow> nat" where
  "accel_kernel_reg CTRL = 0x0000"
| "accel_kernel_reg STATUS = 0x0004"
| "accel_kernel_reg IRQ_STATUS = 0x0008"
| "accel_kernel_reg IRQ_ENABLE = 0x000C"
| "accel_kernel_reg VERSION = 0x0010"
| "accel_kernel_reg CAPABILITIES = 0x0014"
| "accel_kernel_reg CMD_OPCODE = 0x0100"
| "accel_kernel_reg CMD_ARG0 = 0x0104"
| "accel_kernel_reg CMD_ARG1 = 0x0108"
| "accel_kernel_reg CMD_FLAGS = 0x010C"
| "accel_kernel_reg RESULT_STATUS = 0x0110"
| "accel_kernel_reg RESULT_DATA0 = 0x0114"
| "accel_kernel_reg RESULT_DATA1 = 0x0118"

fun crc32_kernel_reg :: "reg \<Rightarrow> nat" where
  "crc32_kernel_reg CTRL = 0x0000"
| "crc32_kernel_reg STATUS = 0x0004"
| "crc32_kernel_reg IRQ_STATUS = 0x0008"
| "crc32_kernel_reg IRQ_ENABLE = 0x000C"
| "crc32_kernel_reg VERSION = 0x0010"
| "crc32_kernel_reg CAPABILITIES = 0x0014"
| "crc32_kernel_reg CMD_OPCODE = 0x0100"
| "crc32_kernel_reg CMD_ARG0 = 0x0104"
| "crc32_kernel_reg CMD_ARG1 = 0x0108"
| "crc32_kernel_reg CMD_FLAGS = 0x010C"
| "crc32_kernel_reg RESULT_STATUS = 0x0110"
| "crc32_kernel_reg RESULT_DATA0 = 0x0114"
| "crc32_kernel_reg RESULT_DATA1 = 0x0118"

fun crc32_uapi_reg :: "reg \<Rightarrow> nat option" where
  "crc32_uapi_reg CTRL = Some 0x0000"
| "crc32_uapi_reg STATUS = Some 0x0004"
| "crc32_uapi_reg IRQ_STATUS = None"
| "crc32_uapi_reg IRQ_ENABLE = None"
| "crc32_uapi_reg VERSION = None"
| "crc32_uapi_reg CAPABILITIES = None"
| "crc32_uapi_reg CMD_OPCODE = Some 0x0100"
| "crc32_uapi_reg CMD_ARG0 = Some 0x0104"
| "crc32_uapi_reg CMD_ARG1 = None"
| "crc32_uapi_reg CMD_FLAGS = None"
| "crc32_uapi_reg RESULT_STATUS = Some 0x0110"
| "crc32_uapi_reg RESULT_DATA0 = Some 0x0114"
| "crc32_uapi_reg RESULT_DATA1 = None"

subsection \<open>Bit masks\<close>

datatype reg_bit =
    CTRL_RESET | CTRL_START | CTRL_IRQ_CLR | STATUS_READY | STATUS_BUSY | STATUS_ERROR
  | IRQ_STATUS_DONE | IRQ_ENABLE_DONE | CAPABILITIES_DMA | CAPABILITIES_IRQ | CAPABILITIES_MULTI

text \<open>The hardware model names no mask for the two IRQ registers.\<close>

fun regmap_bit :: "reg_bit \<Rightarrow> u32 option" where
  "regmap_bit CTRL_RESET = Some ctrl_RESET"
| "regmap_bit CTRL_START = Some ctrl_START"
| "regmap_bit CTRL_IRQ_CLR = Some ctrl_IRQ_CLR"
| "regmap_bit STATUS_READY = Some status_READY"
| "regmap_bit STATUS_BUSY = Some status_BUSY"
| "regmap_bit STATUS_ERROR = Some status_ERROR"
| "regmap_bit IRQ_STATUS_DONE = None"
| "regmap_bit IRQ_ENABLE_DONE = None"
| "regmap_bit CAPABILITIES_DMA = Some HW_CAPS_DMA"
| "regmap_bit CAPABILITIES_IRQ = Some HW_CAPS_IRQ"
| "regmap_bit CAPABILITIES_MULTI = Some HW_CAPS_MULTI"

fun accel_sim_bit :: "reg_bit \<Rightarrow> u32 option" where
  "accel_sim_bit CTRL_RESET = Some (push_bit 0 1)"
| "accel_sim_bit CTRL_START = Some (push_bit 1 1)"
| "accel_sim_bit CTRL_IRQ_CLR = Some (push_bit 2 1)"
| "accel_sim_bit STATUS_READY = Some (push_bit 0 1)"
| "accel_sim_bit STATUS_BUSY = Some (push_bit 1 1)"
| "accel_sim_bit STATUS_ERROR = Some (push_bit 2 1)"
| "accel_sim_bit IRQ_STATUS_DONE = Some (push_bit 0 1)"
| "accel_sim_bit IRQ_ENABLE_DONE = Some (push_bit 0 1)"
| "accel_sim_bit CAPABILITIES_DMA = Some (push_bit 0 1)"
| "accel_sim_bit CAPABILITIES_IRQ = Some (push_bit 1 1)"
| "accel_sim_bit CAPABILITIES_MULTI = Some (push_bit 2 1)"

fun accel_kernel_bit :: "reg_bit \<Rightarrow> u32 option" where
  "accel_kernel_bit CTRL_RESET = Some (push_bit 0 1)"
| "accel_kernel_bit CTRL_START = Some (push_bit 1 1)"
| "accel_kernel_bit CTRL_IRQ_CLR = Some (push_bit 2 1)"
| "accel_kernel_bit STATUS_READY = Some (push_bit 0 1)"
| "accel_kernel_bit STATUS_BUSY = Some (push_bit 1 1)"
| "accel_kernel_bit STATUS_ERROR = Some (push_bit 2 1)"
| "accel_kernel_bit IRQ_STATUS_DONE = Some (push_bit 0 1)"
| "accel_kernel_bit IRQ_ENABLE_DONE = Some (push_bit 0 1)"
| "accel_kernel_bit CAPABILITIES_DMA = Some (push_bit 0 1)"
| "accel_kernel_bit CAPABILITIES_IRQ = Some (push_bit 1 1)"
| "accel_kernel_bit CAPABILITIES_MULTI = Some (push_bit 2 1)"

text \<open>The crc32 headers have no name for the third capability.\<close>

fun crc32_sim_bit :: "reg_bit \<Rightarrow> u32 option" where
  "crc32_sim_bit CTRL_RESET = Some (push_bit 0 1)"
| "crc32_sim_bit CTRL_START = Some (push_bit 1 1)"
| "crc32_sim_bit CTRL_IRQ_CLR = Some (push_bit 2 1)"
| "crc32_sim_bit STATUS_READY = Some (push_bit 0 1)"
| "crc32_sim_bit STATUS_BUSY = Some (push_bit 1 1)"
| "crc32_sim_bit STATUS_ERROR = Some (push_bit 2 1)"
| "crc32_sim_bit IRQ_STATUS_DONE = Some (push_bit 0 1)"
| "crc32_sim_bit IRQ_ENABLE_DONE = Some (push_bit 0 1)"
| "crc32_sim_bit CAPABILITIES_DMA = Some (push_bit 0 1)"
| "crc32_sim_bit CAPABILITIES_IRQ = Some (push_bit 1 1)"
| "crc32_sim_bit CAPABILITIES_MULTI = None"

fun crc32_kernel_bit :: "reg_bit \<Rightarrow> u32 option" where
  "crc32_kernel_bit CTRL_RESET = Some (push_bit 0 1)"
| "crc32_kernel_bit CTRL_START = Some (push_bit 1 1)"
| "crc32_kernel_bit CTRL_IRQ_CLR = Some (push_bit 2 1)"
| "crc32_kernel_bit STATUS_READY = Some (push_bit 0 1)"
| "crc32_kernel_bit STATUS_BUSY = Some (push_bit 1 1)"
| "crc32_kernel_bit STATUS_ERROR = Some (push_bit 2 1)"
| "crc32_kernel_bit IRQ_STATUS_DONE = Some (push_bit 0 1)"
| "crc32_kernel_bit IRQ_ENABLE_DONE = Some (push_bit 0 1)"
| "crc32_kernel_bit CAPABILITIES_DMA = Some (push_bit 0 1)"
| "crc32_kernel_bit CAPABILITIES_IRQ = Some (push_bit 1 1)"
| "crc32_kernel_bit CAPABILITIES_MULTI = None"

subsection \<open>Payload structs\<close>

text \<open>
  The request and response structs of the kernel and UAPI headers as layouts.
\<close>

datatype payload_field =
    P_arg0 | P_arg1 | P_data0 | P_data1 | P_data | P_data_len | P_status_word | P_checksum | P_polynomial

definition deepspan_accel_echo_req :: "payload_field layout" where
  "deepspan_accel_echo_req = [(P_arg0, 4, 1), (P_arg1, 4, 1)]"

definition deepspan_accel_echo_resp :: "payload_field layout" where
  "deepspan_accel_echo_resp = [(P_data0, 4, 1), (P_data1, 4, 1)]"

definition deepspan_accel_process_req :: "payload_field layout" where
  "deepspan_accel_process_req = [(P_data, 1, 4096), (P_data_len, 4, 1)]"

definition deepspan_accel_process_resp :: "payload_field layout" where
  "deepspan_accel_process_resp = []"

definition deepspan_accel_status_resp :: "payload_field layout" where
  "deepspan_accel_status_resp = [(P_status_word, 4, 1)]"

definition deepspan_crc32_compute_req :: "payload_field layout" where
  "deepspan_crc32_compute_req = [(P_data, 1, 3072), (P_data_len, 4, 1)]"

definition deepspan_crc32_compute_resp :: "payload_field layout" where
  "deepspan_crc32_compute_resp = [(P_checksum, 4, 1)]"

definition deepspan_crc32_get_poly_resp :: "payload_field layout" where
  "deepspan_crc32_get_poly_resp = [(P_polynomial, 4, 1)]"

definition uapi_crc32_compute_req :: "payload_field layout" where
  "uapi_crc32_compute_req = [(P_data, 1, 3072), (P_data_len, 4, 1)]"

definition uapi_crc32_compute_resp :: "payload_field layout" where
  "uapi_crc32_compute_resp = [(P_checksum, 4, 1)]"

subsection \<open>Agreement\<close>

definition agrees :: "'a option \<Rightarrow> 'a \<Rightarrow> bool" where
  "agrees x y \<longleftrightarrow> (case x of None \<Rightarrow> True | Some v \<Rightarrow> v = y)"

lemma agrees_simps [simp]: "agrees None y" "agrees (Some v) y \<longleftrightarrow> v = y"
  by (simp_all add: agrees_def)

text \<open>A register offset means one cell of the page in every layer.\<close>

lemma generated_regs_agree:
  "accel_rpc_reg r = reg_off (reg_field_of r)" "crc32_rpc_reg r = reg_off (reg_field_of r)"
  "accel_kernel_reg r = reg_off (reg_field_of r)" "crc32_kernel_reg r = reg_off (reg_field_of r)"
  "accel_RegOffsets r = reg_off (reg_field_of r)" "crc32_RegOffsets r = reg_off (reg_field_of r)"
  "agrees (crc32_uapi_reg r) (reg_off (reg_field_of r))" "agrees (fw_sim_reg r) (reg_off (reg_field_of r))"
  "agrees (fw_hwip_reg r) (reg_off (reg_field_of r))"
  by (cases r; simp)+

lemma opcode_tables_agree:
  "accel_rpc_op a = accel_sim_op a" "accel_kernel_op a = accel_sim_op a" "accel_uapi_op a = accel_sim_op a"
  "crc32_rpc_op c = crc32_sim_op c" "crc32_kernel_op c = crc32_sim_op c" "crc32_uapi_op c = crc32_sim_op c"
  "crc32_fw_app_op c = crc32_sim_op c"
  by (cases a; simp add: AccelOp_ECHO_def AccelOp_PROCESS_def AccelOp_STATUS_def)+
    (cases c; simp add: Crc32Op_COMPUTE_def Crc32Op_GET_POLY_def)+

lemma bit_tables_agree:
  "regmap_bit b = Some v \<Longrightarrow> agrees (accel_sim_bit b) v \<and> agrees (accel_kernel_bit b) v \<and>
     agrees (crc32_sim_bit b) v \<and> agrees (crc32_kernel_bit b) v"
  by (cases b) (auto simp: ctrl_RESET_def ctrl_START_def ctrl_IRQ_CLR_def status_READY_def status_BUSY_def
      status_ERROR_def HW_CAPS_DMA_def HW_CAPS_IRQ_def HW_CAPS_MULTI_def)

lemma opcode_checks_agree:
  "deepspan_accel_is_valid_op op = accel_validate_opcode op"
  "deepspan_crc32_is_valid_op op = crc32_validate_opcode op"
  "accel_validate_opcode op \<longleftrightarrow> fst (deepspan_accel_dispatch op 0 0) = 0"
  by (simp_all add: deepspan_accel_is_valid_op_def accel_validate_opcode_def deepspan_crc32_is_valid_op_def
      crc32_validate_opcode_def opcode_tables_agree deepspan_accel_dispatch_def)

text \<open>
  The kernel's echo structs are the eight bytes \<^verbatim>\<open>submit\<close> reads its two arguments from and the
  eight it answers; the data of a COMPUTE request fills the DMA window and that of a PROCESS
  request does not fit.
\<close>

lemmas payload_layouts = deepspan_accel_echo_req_def deepspan_accel_echo_resp_def deepspan_accel_process_req_def
  deepspan_accel_process_resp_def deepspan_accel_status_resp_def deepspan_crc32_compute_req_def
  deepspan_crc32_compute_resp_def deepspan_crc32_get_poly_resp_def uapi_crc32_compute_req_def uapi_crc32_compute_resp_def

lemma payload_structs:
  "offsetof deepspan_accel_echo_req P_arg0 = 0" "offsetof deepspan_accel_echo_req P_arg1 = 4"
  "struct_size deepspan_accel_echo_req = 8" "struct_size deepspan_accel_echo_resp = 8"
  "size_from 0 deepspan_accel_process_resp = 0" "struct_size deepspan_accel_status_resp = 4"
  "struct_size deepspan_crc32_get_poly_resp = 4"
  "uapi_crc32_compute_req = deepspan_crc32_compute_req" "uapi_crc32_compute_resp = deepspan_crc32_compute_resp"
  "offsetof deepspan_crc32_compute_req P_data_len = kShmDmaMaxLen" "struct_size deepspan_crc32_compute_req = kShmDmaMaxLen + 4"
  "kShmDmaMaxLen < offsetof deepspan_accel_process_req P_data_len"
  by (simp_all add: payload_layouts offsetof_def struct_size_def align_up_def kShmDmaMaxLen_def)


end
