(* ===== verification/Concurrent_Submit.thy ===== *)
theory Concurrent_Submit
  imports Submit_Path
begin

text \<open>
  Concurrent submits.  \<open>Submit_Path\<close> runs one \<^verbatim>\<open>submit\<close> against the hardware model; here any
  number of threads call \<^verbatim>\<open>submit\<close> on plugin instances that map the same page, and threads and
  hardware model interleave at every access to the page.  A thread waits for the mutex of
  its instance (\<^verbatim>\<open>submit_mutex_\<close>); two instances have two mutexes.  The theorems: through one
  instance every submit returns what it would return alone, as long as none has timed out;
  through two instances on one page, and after a timeout, it need not.
\<close>

subsection \<open>A submit, one access at a time\<close>

text \<open>What \<^verbatim>\<open>submit\<close> computes from its arguments before it touches the page.\<close>

record command =
  cmd_dma :: "u8 list"
  cmd_op :: u32
  cmd_arg0 :: u32
  cmd_arg1 :: u32

definition accel_command :: "u32 \<Rightarrow> u8 list \<Rightarrow> command" where
  "accel_command opcode payload =
     \<lparr>cmd_dma = [], cmd_op = opcode,
      cmd_arg0 = (if length payload \<ge> 4 then word32_at 0 payload else 0),
      cmd_arg1 = (if length payload \<ge> 8 then word32_at 4 payload else 0)\<rparr>"

definition crc32_command :: "u32 \<Rightarrow> u8 list \<Rightarrow> command" where
  "crc32_command opcode payload =
     (if opcode = Crc32Op_COMPUTE then
        let len = min (length payload) kShmDmaMaxLen in
        \<lparr>cmd_dma = take len payload, cmd_op = opcode, cmd_arg0 = of_nat len, cmd_arg1 = 0\<rparr>
      else
        \<lparr>cmd_dma = [], cmd_op = opcode,
         cmd_arg0 = (if length payload \<ge> 4 then word32_at 0 payload else 0),
         cmd_arg1 = (if length payload \<ge> 8 then word32_at 4 payload else 0)\<rparr>)"

text \<open>Where a thread is in \<^verbatim>\<open>submit\<close>: the next access it makes.\<close>

datatype sub_pc =
    Sub_lock | Sub_dma nat | Sub_op | Sub_arg0 | Sub_arg1 | Sub_start | Sub_poll nat
  | Sub_res0 | Sub_res1 u32 | Sub_done u32 u32 | Sub_timeout

text \<open>Where the hardware model is in \<^verbatim>\<open>poll_loop\<close>, with its local variables.\<close>

datatype hw_pc =
    Hw_poll | Hw_op | Hw_arg0 u32 | Hw_arg1 u32 u32 | Hw_call u32 u32 u32
  | Hw_res0 u32 u32 u32 u32 | Hw_res1 u32 u32 u32 | Hw_result_status u32 u32 | Hw_count u32 u32
  | Hw_last_opcode u32 u32 | Hw_last_status u32 | Hw_clear | Hw_ready | Hw_irq

record conc =
  c_page :: page
  c_mutex :: "nat \<Rightarrow> nat option"
  c_pc :: "nat \<Rightarrow> sub_pc"
  c_hw :: hw_pc
  c_count :: u64

definition goto :: "nat \<Rightarrow> sub_pc \<Rightarrow> (page \<Rightarrow> page) \<Rightarrow> conc \<Rightarrow> conc" where
  "goto t pc f s = s\<lparr>c_pc := (c_pc s)(t := pc), c_page := f (c_page s)\<rparr>"

definition leave :: "nat \<Rightarrow> nat \<Rightarrow> sub_pc \<Rightarrow> conc \<Rightarrow> conc" where
  "leave i t pc s = s\<lparr>c_pc := (c_pc s)(t := pc), c_mutex := (c_mutex s)(i := None)\<rparr>"

text \<open>
  One access of thread \<open>t\<close> on instance \<open>i\<close>; \<open>None\<close> when it waits for the mutex or has returned.
  \<open>R\<close> is the offset table of the plugin.  The guard of \<^verbatim>\<open>lock_guard\<close> is released on both exits.
\<close>

definition submit_step :: "(reg \<Rightarrow> nat) \<Rightarrow> nat \<Rightarrow> command \<Rightarrow> nat \<Rightarrow> conc \<Rightarrow> conc option" where
  "submit_step R i c t s =
     (case c_pc s t of
        Sub_lock \<Rightarrow>
          (case c_mutex s i of
             None \<Rightarrow> Some (s\<lparr>c_pc := (c_pc s)(t := Sub_dma 0), c_mutex := (c_mutex s)(i \<mapsto> t)\<rparr>)
           | Some _ \<Rightarrow> None)
      | Sub_dma k \<Rightarrow>
          if k < length (cmd_dma c)
          then Some (goto t (Sub_dma (Suc k)) (store_bytes (kShmDmaOffset + k) [cmd_dma c ! k]) s)
          else Some (goto t Sub_op id s)
      | Sub_op \<Rightarrow> Some (goto t Sub_arg0 (store32 (R CMD_OPCODE) (cmd_op c)) s)
      | Sub_arg0 \<Rightarrow> Some (goto t Sub_arg1 (store32 (R CMD_ARG0) (cmd_arg0 c)) s)
      | Sub_arg1 \<Rightarrow> Some (goto t Sub_start (store32 (R CMD_ARG1) (cmd_arg1 c)) s)
      | Sub_start \<Rightarrow> Some (goto t (Sub_poll 0) (\<lambda>m. store32 (R CTRL) (load32 (R CTRL) m OR ctrl_START) m) s)
      | Sub_poll n \<Rightarrow>
          if n < kMaxPolls
          then Some (goto t (if load32 (R CTRL) (c_page s) AND ctrl_START = 0 then Sub_res0 else Sub_poll (Suc n)) id s)
          else Some (leave i t Sub_timeout s)
      | Sub_res0 \<Rightarrow> Some (goto t (Sub_res1 (load32 (R RESULT_DATA0) (c_page s))) id s)
      | Sub_res1 r0 \<Rightarrow> Some (leave i t (Sub_done r0 (load32 (R RESULT_DATA1) (c_page s))) s)
      | Sub_done r0 r1 \<Rightarrow> None
      | Sub_timeout \<Rightarrow> None)"

definition hw_goto :: "hw_pc \<Rightarrow> (page \<Rightarrow> page) \<Rightarrow> conc \<Rightarrow> conc" where
  "hw_goto pc f s = s\<lparr>c_hw := pc, c_page := f (c_page s)\<rparr>"

text \<open>One access of the hardware model; \<open>None\<close> when its handler runs off the page.\<close>

definition hw_step_conc :: "cmd_handler \<Rightarrow> bool \<Rightarrow> conc \<Rightarrow> conc option" where
  "hw_step_conc h irq s =
     (let m = c_page s in
      case c_hw s of
        Hw_poll \<Rightarrow> Some (hw_goto (if load32 (reg_off F_ctrl) m AND ctrl_START \<noteq> 0 then Hw_op else Hw_poll) id s)
      | Hw_op \<Rightarrow> Some (hw_goto (Hw_arg0 (load32 (reg_off F_cmd_opcode) m)) id s)
      | Hw_arg0 opc \<Rightarrow> Some (hw_goto (Hw_arg1 opc (load32 (reg_off F_cmd_arg0) m)) id s)
      | Hw_arg1 opc a0 \<Rightarrow> Some (hw_goto (Hw_call opc a0 (load32 (reg_off F_cmd_arg1) m)) id s)
      | Hw_call opc a0 a1 \<Rightarrow>
          (case h m opc a0 a1 of
             None \<Rightarrow> None
           | Some (st, r0, r1) \<Rightarrow> Some (hw_goto (Hw_res0 opc st r0 r1) id s))
      | Hw_res0 opc st r0 r1 \<Rightarrow> Some (hw_goto (Hw_res1 opc st r1) (store32 (reg_off F_result_data0) r0) s)
      | Hw_res1 opc st r1 \<Rightarrow> Some (hw_goto (Hw_result_status opc st) (store32 (reg_off F_result_data1) r1) s)
      | Hw_result_status opc st \<Rightarrow> Some (hw_goto (Hw_count opc st) (store32 (reg_off F_result_status) st) s)
      | Hw_count opc st \<Rightarrow>
          Some (hw_goto (Hw_last_opcode opc st) (store64 (stats_off S_cmd_count) (c_count s + 1))
                  (s\<lparr>c_count := c_count s + 1\<rparr>))
      | Hw_last_opcode opc st \<Rightarrow> Some (hw_goto (Hw_last_status st) (store32 (stats_off S_last_opcode) opc) s)
      | Hw_last_status st \<Rightarrow> Some (hw_goto Hw_clear (store32 (stats_off S_last_result_status) st) s)
      | Hw_clear \<Rightarrow>
          Some (hw_goto Hw_ready (\<lambda>m. store32 (reg_off F_ctrl) (load32 (reg_off F_ctrl) m AND NOT ctrl_START) m) s)
      | Hw_ready \<Rightarrow> Some (hw_goto (if irq then Hw_irq else Hw_poll) (store32 (reg_off F_status) status_READY) s)
      | Hw_irq \<Rightarrow>
          Some (hw_goto Hw_poll (\<lambda>m. store32 (reg_off F_irq_status) (load32 (reg_off F_irq_status) m OR 1) m) s))"

text \<open>
  The system: thread \<open>t\<close> submits \<open>cmds t\<close> on instance \<open>inst t\<close>.  A schedule names who moves
  next; \<open>None\<close> is the hardware model.
\<close>

definition conc_move ::
    "cmd_handler \<Rightarrow> bool \<Rightarrow> (reg \<Rightarrow> nat) \<Rightarrow> (nat \<Rightarrow> nat) \<Rightarrow> (nat \<Rightarrow> command) \<Rightarrow> nat option \<Rightarrow> conc \<Rightarrow> conc option" where
  "conc_move h irq R inst cmds who s =
     (case who of None \<Rightarrow> hw_step_conc h irq s | Some t \<Rightarrow> submit_step R (inst t) (cmds t) t s)"

fun conc_run ::
    "cmd_handler \<Rightarrow> bool \<Rightarrow> (reg \<Rightarrow> nat) \<Rightarrow> (nat \<Rightarrow> nat) \<Rightarrow> (nat \<Rightarrow> command) \<Rightarrow> nat option list \<Rightarrow> conc \<Rightarrow> conc option" where
  "conc_run h irq R inst cmds [] s = Some s"
| "conc_run h irq R inst cmds (who # sched) s =
     (case conc_move h irq R inst cmds who s of None \<Rightarrow> None | Some s \<Rightarrow> conc_run h irq R inst cmds sched s)"

definition conc_step ::
    "cmd_handler \<Rightarrow> bool \<Rightarrow> (reg \<Rightarrow> nat) \<Rightarrow> (nat \<Rightarrow> nat) \<Rightarrow> (nat \<Rightarrow> command) \<Rightarrow> conc \<Rightarrow> conc \<Rightarrow> bool" where
  "conc_step h irq R inst cmds s s' \<longleftrightarrow> (\<exists>who. conc_move h irq R inst cmds who s = Some s')"

definition conc_init :: "u64 \<Rightarrow> page \<Rightarrow> conc" where
  "conc_init count m =
     \<lparr>c_page = m, c_mutex = (\<lambda>_. None), c_pc = (\<lambda>_. Sub_lock), c_hw = Hw_poll, c_count = count\<rparr>"

subsection \<open>Runs\<close>

lemma conc_run_append:
  "conc_run h irq R inst cmds (xs @ ys) s =
     (case conc_run h irq R inst cmds xs s of None \<Rightarrow> None | Some s \<Rightarrow> conc_run h irq R inst cmds ys s)"
  by (induction xs arbitrary: s) (auto split: option.splits)

lemma conc_run_steps:
  "(\<exists>sched. conc_run h irq R inst cmds sched s = Some s') \<longleftrightarrow> (conc_step h irq R inst cmds)\<^sup>*\<^sup>* s s'"
proof
  assume "\<exists>sched. conc_run h irq R inst cmds sched s = Some s'"
  then obtain sched where "conc_run h irq R inst cmds sched s = Some s'" ..
  then show "(conc_step h irq R inst cmds)\<^sup>*\<^sup>* s s'"
  proof (induction sched arbitrary: s)
    case (Cons who sched)
    then show ?case
      by (auto simp: conc_step_def split: option.splits intro: converse_rtranclp_into_rtranclp)
  qed simp
next
  assume "(conc_step h irq R inst cmds)\<^sup>*\<^sup>* s s'"
  then show "\<exists>sched. conc_run h irq R inst cmds sched s = Some s'"
  proof (induction rule: rtranclp_induct)
    case base
    show ?case by (rule exI [of _ "[]"]) simp
  next
    case (step s1 s2)
    then obtain sched who where "conc_run h irq R inst cmds sched s = Some s1" "conc_move h irq R inst cmds who s1 = Some s2"
      by (auto simp: conc_step_def)
    then have "conc_run h irq R inst cmds (sched @ [who]) s = Some s2" by (simp add: conc_run_append)
    then show ?case ..
  qed
qed

subsection \<open>The hardware model's accesses add up to its poll step\<close>

text \<open>Undisturbed, the fine steps from one poll to the next are \<open>hw_page_poll\<close>.\<close>

lemma hw_steps_are_poll:
  assumes "c_hw s = Hw_poll" and "load32 0 (c_page s) AND ctrl_START \<noteq> 0"
    and "hw_page_poll h irq (c_count s) (c_page s) = Some m'"
  shows "conc_run h irq R inst cmds (replicate (if irq then 14 else 13) None) s =
    Some (s\<lparr>c_page := m', c_count := c_count s + 1\<rparr>)"
proof -
  obtain st r0 r1 where h: "h (c_page s) (load32 0x100 (c_page s)) (load32 0x104 (c_page s)) (load32 0x108 (c_page s)) =
      Some (st, r0, r1)"
    using assms(2,3) by (auto simp: hw_page_poll_def serve_command_def Let_def split: option.splits)
  show ?thesis
    using assms h
    by (auto simp: eval_nat_numeral conc_move_def hw_step_conc_def hw_goto_def hw_page_poll_def serve_command_def Let_def)
qed

subsection \<open>One instance: the mutex serialises the submits\<close>

definition dma_staged :: "command \<Rightarrow> nat \<Rightarrow> page \<Rightarrow> bool" where
  "dma_staged c k m \<longleftrightarrow> k \<le> length (cmd_dma c) \<and> load_bytes kShmDmaOffset k m = take k (cmd_dma c)"

text \<open>The handler's answer to a command whose data is in the DMA window, whatever else the page holds.\<close>

definition answers :: "cmd_handler \<Rightarrow> command \<Rightarrow> u32 \<times> u32 \<times> u32 \<Rightarrow> bool" where
  "answers h c r \<longleftrightarrow>
     (\<forall>m. dma_staged c (length (cmd_dma c)) m \<longrightarrow> h m (cmd_op c) (cmd_arg0 c) (cmd_arg1 c) = Some r)"

definition cmd_staged :: "command \<Rightarrow> page \<Rightarrow> bool" where
  "cmd_staged c m \<longleftrightarrow> dma_staged c (length (cmd_dma c)) m \<and>
     load32 0x100 m = cmd_op c \<and> load32 0x104 m = cmd_arg0 c \<and> load32 0x108 m = cmd_arg1 c"

definition hw_idle :: "hw_pc \<Rightarrow> page \<Rightarrow> bool" where
  "hw_idle hp m \<longleftrightarrow> load32 0 m AND 2 = 0 \<and> (hp = Hw_poll \<or> hp = Hw_ready \<or> hp = Hw_irq)"

definition results_are :: "u32 \<times> u32 \<times> u32 \<Rightarrow> page \<Rightarrow> bool" where
  "results_are r m \<longleftrightarrow> load32 0x114 m = fst (snd r) \<and> load32 0x118 m = snd (snd r)"

text \<open>What the hardware model has read and written so far of a pending command.\<close>

fun hw_serving :: "command \<Rightarrow> u32 \<times> u32 \<times> u32 \<Rightarrow> page \<Rightarrow> hw_pc \<Rightarrow> bool" where
  "hw_serving c r m (Hw_arg0 opc) = (opc = cmd_op c)"
| "hw_serving c r m (Hw_arg1 opc a0) = (opc = cmd_op c \<and> a0 = cmd_arg0 c)"
| "hw_serving c r m (Hw_call opc a0 a1) = (opc = cmd_op c \<and> a0 = cmd_arg0 c \<and> a1 = cmd_arg1 c)"
| "hw_serving c r m (Hw_res0 opc st r0 r1) = ((st, r0, r1) = r)"
| "hw_serving c r m (Hw_res1 opc st r1) = (load32 0x114 m = fst (snd r) \<and> r1 = snd (snd r))"
| "hw_serving c r m (Hw_result_status opc st) = results_are r m"
| "hw_serving c r m (Hw_count opc st) = results_are r m"
| "hw_serving c r m (Hw_last_opcode opc st) = results_are r m"
| "hw_serving c r m (Hw_last_status st) = results_are r m"
| "hw_serving c r m Hw_clear = results_are r m"
| "hw_serving c r m hp = True"

text \<open>The page and the hardware model as the owner of the mutex knows them at each point.\<close>

fun owner_inv :: "command \<Rightarrow> u32 \<times> u32 \<times> u32 \<Rightarrow> sub_pc \<Rightarrow> hw_pc \<Rightarrow> page \<Rightarrow> bool" where
  "owner_inv c r (Sub_dma k) hp m = (hw_idle hp m \<and> dma_staged c k m)"
| "owner_inv c r Sub_op hp m = (hw_idle hp m \<and> dma_staged c (length (cmd_dma c)) m)"
| "owner_inv c r Sub_arg0 hp m =
     (hw_idle hp m \<and> dma_staged c (length (cmd_dma c)) m \<and> load32 0x100 m = cmd_op c)"
| "owner_inv c r Sub_arg1 hp m =
     (hw_idle hp m \<and> dma_staged c (length (cmd_dma c)) m \<and> load32 0x100 m = cmd_op c \<and> load32 0x104 m = cmd_arg0 c)"
| "owner_inv c r Sub_start hp m = (hw_idle hp m \<and> cmd_staged c m)"
| "owner_inv c r (Sub_poll n) hp m =
     (load32 0 m AND 2 \<noteq> 0 \<and> cmd_staged c m \<and> hw_serving c r m hp \<or> hw_idle hp m \<and> results_are r m)"
| "owner_inv c r Sub_res0 hp m = (hw_idle hp m \<and> results_are r m)"
| "owner_inv c r (Sub_res1 r0) hp m = (hw_idle hp m \<and> results_are r m \<and> r0 = fst (snd r))"
| "owner_inv c r pc hp m = False"

lemma load_bytes_snoc:
  "load_bytes a (Suc k) (store_bytes (a + k) [b] m) = load_bytes a k m @ [b]"
  by (auto simp: load_bytes_def store_bytes_def)

lemma dma_staged_store32 [simp]: "a + 4 \<le> 0x300 \<Longrightarrow> dma_staged c k (store32 a v m) = dma_staged c k m"
  by (simp add: dma_staged_def mem_simps)

lemma dma_staged_store64 [simp]: "a + 8 \<le> 0x300 \<Longrightarrow> dma_staged c k (store64 a v m) = dma_staged c k m"
  by (simp add: dma_staged_def mem_simps)

lemma dma_staged_Suc:
  "dma_staged c k m \<Longrightarrow> k < length (cmd_dma c) \<Longrightarrow>
   dma_staged c (Suc k) (store_bytes (kShmDmaOffset + k) [cmd_dma c ! k] m)"
  using load_bytes_snoc [of "0x300" k "cmd_dma c ! k" m] by (simp add: dma_staged_def take_Suc_conv_app_nth)

lemma dma_staged_complete:
  "dma_staged c k m \<Longrightarrow> \<not> k < length (cmd_dma c) \<Longrightarrow> dma_staged c (length (cmd_dma c)) m"
  by (auto simp: dma_staged_def)

lemmas conc_simps = hw_idle_def results_are_def cmd_staged_def mem_simps

text \<open>The owner's own steps keep its assertion, up to the return with the right results or the timeout.\<close>

lemma owner_step:
  assumes "submit_step crc32_RegOffsets i c t s = Some s'" and "owner_inv c r (c_pc s t) (c_hw s) (c_page s)"
  shows "c_hw s' = c_hw s \<and> (\<forall>t'. t' \<noteq> t \<longrightarrow> c_pc s' t' = c_pc s t') \<and>
    (c_mutex s' = c_mutex s \<and> owner_inv c r (c_pc s' t) (c_hw s') (c_page s') \<or>
     c_mutex s' = (c_mutex s)(i := None) \<and> c_pc s' t = Sub_timeout \<or>
     c_mutex s' = (c_mutex s)(i := None) \<and> c_page s' = c_page s \<and> hw_idle (c_hw s) (c_page s) \<and>
       c_pc s' t = Sub_done (fst (snd r)) (snd (snd r)))"
proof (cases "c_pc s t")
  case (Sub_dma k)
  then show ?thesis
    using assms dma_staged_Suc [of c k "c_page s"] dma_staged_complete [of c k "c_page s"]
    by (auto simp: submit_step_def goto_def conc_simps split: if_splits)
qed (use assms in \<open>auto simp: submit_step_def goto_def leave_def conc_simps split: if_splits\<close>)

text \<open>The hardware model's steps keep the owner's assertion, and its idleness when there is none.\<close>

lemma hw_keeps_owner:
  assumes "hw_step_conc h irq s = Some s'" and "owner_inv c r pc (c_hw s) (c_page s)" and "answers h c r"
  shows "c_pc s' = c_pc s \<and> c_mutex s' = c_mutex s \<and> owner_inv c r pc (c_hw s') (c_page s')"
proof (cases "\<exists>n. pc = Sub_poll n")
  case True
  then obtain n where pc: "pc = Sub_poll n" by blast
  show ?thesis
  proof (cases "c_hw s")
    case (Hw_call opc a0 a1)
    then show ?thesis
      using assms pc
      by (auto simp: hw_step_conc_def hw_goto_def Let_def conc_simps answers_def split: option.splits prod.splits)
  qed (use assms pc in \<open>auto simp: hw_step_conc_def hw_goto_def Let_def conc_simps split: if_splits\<close>)
next
  case False
  then show ?thesis
    using assms(1,2)
    by (cases pc) (auto simp: hw_step_conc_def hw_goto_def Let_def conc_simps split: if_splits)
qed

lemma hw_keeps_idle:
  assumes "hw_step_conc h irq s = Some s'" and "hw_idle (c_hw s) (c_page s)"
  shows "c_pc s' = c_pc s \<and> c_mutex s' = c_mutex s \<and> hw_idle (c_hw s') (c_page s')"
  using assms by (auto simp: hw_step_conc_def hw_goto_def Let_def conc_simps split: if_splits)

definition timed_out :: "conc \<Rightarrow> bool" where
  "timed_out s \<longleftrightarrow> (\<exists>t. c_pc s t = Sub_timeout)"

text \<open>
  The invariant of a system of one instance, until a submit times out: threads without the
  mutex have not started or have returned their own results; the owner's assertion holds.
\<close>

definition serial_inv :: "nat \<Rightarrow> (nat \<Rightarrow> command) \<Rightarrow> (nat \<Rightarrow> u32 \<times> u32 \<times> u32) \<Rightarrow> conc \<Rightarrow> bool" where
  "serial_inv i cmds res s \<longleftrightarrow>
     (\<forall>t. c_mutex s i \<noteq> Some t \<longrightarrow>
        c_pc s t = Sub_lock \<or> c_pc s t = Sub_done (fst (snd (res t))) (snd (snd (res t)))) \<and>
     (case c_mutex s i of
        None \<Rightarrow> hw_idle (c_hw s) (c_page s)
      | Some t \<Rightarrow> owner_inv (cmds t) (res t) (c_pc s t) (c_hw s) (c_page s))"

lemma submit_keeps_serial:
  assumes "serial_inv i cmds res s" and "submit_step crc32_RegOffsets i (cmds t) t s = Some s'"
  shows "timed_out s' \<or> serial_inv i cmds res s'"
proof (cases "c_mutex s i = Some t")
  case True
  with assms(1) have "owner_inv (cmds t) (res t) (c_pc s t) (c_hw s) (c_page s)" by (simp add: serial_inv_def)
  from owner_step [OF assms(2) this] assms(1) True show ?thesis
    by (auto simp: serial_inv_def timed_out_def) metis
next
  case False
  with assms have "c_pc s t = Sub_lock" "c_mutex s i = None" "hw_idle (c_hw s) (c_page s)"
    by (auto simp: serial_inv_def submit_step_def split: option.splits)
  moreover from this assms(2)
  have "s' = s\<lparr>c_pc := (c_pc s)(t := Sub_dma 0), c_mutex := (c_mutex s)(i \<mapsto> t)\<rparr>"
    by (simp add: submit_step_def)
  ultimately show ?thesis
    using assms(1) by (auto simp: serial_inv_def dma_staged_def load_bytes_def)
qed

lemma hw_keeps_serial:
  assumes "serial_inv i cmds res s" and "hw_step_conc h irq s = Some s'" and "\<And>t. answers h (cmds t) (res t)"
  shows "serial_inv i cmds res s'"
proof (cases "c_mutex s i")
  case None
  then show ?thesis
    using assms(1) hw_keeps_idle [OF assms(2)] by (simp add: serial_inv_def)
next
  case (Some t)
  then show ?thesis
    using assms(1) hw_keeps_owner [OF assms(2) _ assms(3)] by (auto simp: serial_inv_def)
qed

lemma hw_frame: "hw_step_conc h irq s = Some s' \<Longrightarrow> c_pc s' = c_pc s"
  by (cases "c_hw s") (auto simp: hw_step_conc_def hw_goto_def Let_def split: option.splits)

lemma returned_stays:
  assumes "conc_move h irq R inst cmds who s = Some s'" and "c_pc s t = Sub_timeout"
  shows "c_pc s' t = Sub_timeout"
proof (cases who)
  case None
  then show ?thesis using assms hw_frame by (simp add: conc_move_def)
next
  case (Some t')
  then have "submit_step R (inst t') (cmds t') t' s = Some s'" using assms(1) by (simp add: conc_move_def)
  then show ?thesis
    using assms(2) by (cases "c_pc s t'") (auto simp: submit_step_def goto_def leave_def split: option.splits if_splits)
qed

lemma timed_out_stays: "conc_move h irq R inst cmds who s = Some s' \<Longrightarrow> timed_out s \<Longrightarrow> timed_out s'"
  unfolding timed_out_def using returned_stays by blast

lemma serial_init: "load32 0 m AND 2 = 0 \<Longrightarrow> serial_inv i cmds res (conc_init count m)"
  by (simp add: serial_inv_def conc_init_def hw_idle_def)

lemma conc_step_keeps_serial:
  assumes "conc_step h irq crc32_RegOffsets (\<lambda>_. i) cmds s s'" and "\<And>t. answers h (cmds t) (res t)"
    and "timed_out s \<or> serial_inv i cmds res s"
  shows "timed_out s' \<or> serial_inv i cmds res s'"
proof -
  obtain who where who: "conc_move h irq crc32_RegOffsets (\<lambda>_. i) cmds who s = Some s'"
    using assms(1) by (auto simp: conc_step_def)
  have "timed_out s' \<or> serial_inv i cmds res s'" if "serial_inv i cmds res s"
  proof (cases who)
    case None
    then show ?thesis using hw_keeps_serial [OF that _ assms(2)] who by (simp add: conc_move_def)
  next
    case (Some t)
    then show ?thesis using submit_keeps_serial [OF that] who by (simp add: conc_move_def)
  qed
  then show ?thesis using assms(3) timed_out_stays [OF who] by blast
qed

interpretation csm: invariant_machine "\<lambda>s. \<exists>count m. s = conc_init count m \<and> load32 0 m AND 2 = 0"
    "conc_step h irq crc32_RegOffsets (\<lambda>_. i) cmds"
    "\<lambda>s. (\<forall>t. answers h (cmds t) (res t)) \<longrightarrow> timed_out s \<or> serial_inv i cmds res s" for h irq i cmds res
  by unfold_locales (use serial_init conc_step_keeps_serial in blast)+

lemma serial_reached:
  assumes "conc_run h irq crc32_RegOffsets (\<lambda>_. i) cmds sched (conc_init count m) = Some s"
    and "load32 0 m AND 2 = 0" and "\<And>t. answers h (cmds t) (res t)" and "\<not> timed_out s"
  shows "serial_inv i cmds res s"
proof -
  have "(conc_step h irq crc32_RegOffsets (\<lambda>_. i) cmds)\<^sup>*\<^sup>* (conc_init count m) s"
    using assms(1) conc_run_steps by blast
  from csm.inv_steps [OF this, of res] serial_init [OF assms(2), of i cmds res count] assms(3,4)
  show ?thesis by blast
qed

text \<open>Every submit that returned through one instance returned the handler's answer to its own command.\<close>

lemma serial_results:
  assumes "conc_run h irq crc32_RegOffsets (\<lambda>_. i) cmds sched (conc_init count m) = Some s"
    and "load32 0 m AND 2 = 0" and "\<And>t. answers h (cmds t) (res t)"
    and "\<not> timed_out s" and "c_pc s t = Sub_done r0 r1"
  shows "r0 = fst (snd (res t)) \<and> r1 = snd (snd (res t))"
proof -
  have "serial_inv i cmds res s" by (rule serial_reached [OF assms(1-4)])
  then have "c_mutex s i \<noteq> Some t" using assms(5) by (auto simp: serial_inv_def)
  with \<open>serial_inv i cmds res s\<close> assms(5) show ?thesis by (auto simp: serial_inv_def)
qed

lemma dma_command_answers:
  assumes "length bs \<le> kShmDmaMaxLen"
  shows "answers crc32_cmd_handler \<lparr>cmd_dma = bs, cmd_op = Crc32Op_COMPUTE, cmd_arg0 = of_nat (length bs), cmd_arg1 = 0\<rparr>
    (0, crc_reference bs, 0)"
  using crc32_compute_handler [OF _ assms] by (simp add: answers_def dma_staged_def)

lemma crc32_command_answers:
  "answers crc32_cmd_handler (crc32_command Crc32Op_COMPUTE payload) (0, crc_reference (take 3072 payload), 0)"
  using dma_command_answers [of "take 3072 payload"]
  by (cases "length payload \<le> 3072") (simp_all add: crc32_command_def min_def)

text \<open>
  No submit is blocked for good: from every such state a continuation lets any threads return,
  unless the owner of the mutex has used up its polls.  The owner's accesses before it polls and
  the hardware model's accesses to a pending command are counted down.
\<close>

fun stage_left :: "command \<Rightarrow> sub_pc \<Rightarrow> nat" where
  "stage_left c (Sub_dma k) = length (cmd_dma c) - k + 5"
| "stage_left c Sub_op = 4"
| "stage_left c Sub_arg0 = 3"
| "stage_left c Sub_arg1 = 2"
| "stage_left c Sub_start = 1"
| "stage_left c pc = 0"

fun serve_left :: "hw_pc \<Rightarrow> nat" where
  "serve_left Hw_ready = 14"
| "serve_left Hw_irq = 13"
| "serve_left Hw_poll = 12"
| "serve_left Hw_op = 11"
| "serve_left (Hw_arg0 opc) = 10"
| "serve_left (Hw_arg1 opc a0) = 9"
| "serve_left (Hw_call opc a0 a1) = 8"
| "serve_left (Hw_res0 opc st r0 r1) = 7"
| "serve_left (Hw_res1 opc st r1) = 6"
| "serve_left (Hw_result_status opc st) = 5"
| "serve_left (Hw_count opc st) = 4"
| "serve_left (Hw_last_opcode opc st) = 3"
| "serve_left (Hw_last_status st) = 2"
| "serve_left Hw_clear = 1"

definition polls_left :: "nat \<Rightarrow> conc \<Rightarrow> bool" where
  "polls_left i s \<longleftrightarrow> (\<forall>t n. c_mutex s i = Some t \<longrightarrow> c_pc s t = Sub_poll n \<longrightarrow> n < kMaxPolls)"

lemma stage_step:
  assumes "owner_inv c r (c_pc s t) (c_hw s) (c_page s)" and "0 < stage_left c (c_pc s t)"
  shows "\<exists>s'. submit_step crc32_RegOffsets i c t s = Some s' \<and> c_mutex s' = c_mutex s \<and>
    (\<forall>n. c_pc s' t = Sub_poll n \<longrightarrow> n = 0) \<and> stage_left c (c_pc s' t) < stage_left c (c_pc s t)"
  using assms by (cases "c_pc s t") (auto simp: submit_step_def goto_def dma_staged_def)

lemma serve_step:
  assumes "owner_inv c r (Sub_poll n) (c_hw s) (c_page s)" and "load32 0 (c_page s) AND 2 \<noteq> 0" and "answers h c r"
  shows "\<exists>s'. hw_step_conc h irq s = Some s' \<and> (load32 0 (c_page s') AND 2 = 0 \<or> serve_left (c_hw s') < serve_left (c_hw s))"
proof (cases "c_hw s")
  case (Hw_call opc a0 a1)
  then have "h (c_page s) opc a0 a1 = Some r"
    using assms by (auto simp: conc_simps answers_def)
  then show ?thesis using Hw_call by (cases r) (auto simp: hw_step_conc_def hw_goto_def Let_def)
qed (use assms(2) in \<open>auto simp: hw_step_conc_def hw_goto_def Let_def mem_simps\<close>)

lemma serial_ownerD:
  assumes "serial_inv i cmds res s" and "c_mutex s i = Some t"
  shows "owner_inv (cmds t) (res t) (c_pc s t) (c_hw s) (c_page s)"
  using assms by (simp add: serial_inv_def)

text \<open>The owner gets as far as polling, or further.\<close>

lemma owner_stages:
  assumes "serial_inv i cmds res s" and "c_mutex s i = Some t" and "polls_left i s"
  shows "\<exists>s'. (conc_step h irq crc32_RegOffsets (\<lambda>_. i) cmds)\<^sup>*\<^sup>* s s' \<and> serial_inv i cmds res s' \<and> c_mutex s' i = Some t \<and>
    polls_left i s' \<and> stage_left (cmds t) (c_pc s' t) = 0 \<and> (\<forall>t'. t' \<noteq> t \<longrightarrow> c_pc s' t' = c_pc s t')"
  using assms
proof (induction "stage_left (cmds t) (c_pc s t)" arbitrary: s rule: less_induct)
  case less
  note own = serial_ownerD [OF less.prems(1,2)]
  show ?case
  proof (cases "stage_left (cmds t) (c_pc s t) = 0")
    case True
    then show ?thesis using less.prems by blast
  next
    case False
    then obtain s1 where s1: "submit_step crc32_RegOffsets i (cmds t) t s = Some s1" "c_mutex s1 = c_mutex s"
      "\<forall>n. c_pc s1 t = Sub_poll n \<longrightarrow> n = 0" "stage_left (cmds t) (c_pc s1 t) < stage_left (cmds t) (c_pc s t)"
      using stage_step [OF own, of i] by auto
    have "\<not> c_mutex s1 = (c_mutex s)(i := None)" using s1(2) less.prems(2) by (metis fun_upd_same option.distinct(1))
    then have keep: "c_hw s1 = c_hw s" "\<forall>t'. t' \<noteq> t \<longrightarrow> c_pc s1 t' = c_pc s t'"
      "owner_inv (cmds t) (res t) (c_pc s1 t) (c_hw s1) (c_page s1)"
      using owner_step [OF s1(1) own] by blast+
    then have inv: "serial_inv i cmds res s1" "c_mutex s1 i = Some t" "polls_left i s1"
      using less.prems s1(2,3) by (auto simp: serial_inv_def polls_left_def kMaxPolls_def)
    have step: "conc_step h irq crc32_RegOffsets (\<lambda>_. i) cmds s s1"
      using s1(1) by (auto simp: conc_step_def conc_move_def intro: exI [of _ "Some t"])
    from less.hyps [OF s1(4) inv] obtain s' where "(conc_step h irq crc32_RegOffsets (\<lambda>_. i) cmds)\<^sup>*\<^sup>* s1 s'"
      "serial_inv i cmds res s'" "c_mutex s' i = Some t" "polls_left i s'" "stage_left (cmds t) (c_pc s' t) = 0"
      "\<forall>t'. t' \<noteq> t \<longrightarrow> c_pc s' t' = c_pc s1 t'" by blast
    with step keep(2) show ?thesis by (metis converse_rtranclp_into_rtranclp)
  qed
qed

text \<open>The hardware model serves the command of a polling owner.\<close>

lemma owner_served:
  assumes "serial_inv i cmds res s" and "c_mutex s i = Some t" and "c_pc s t = Sub_poll n" and "\<And>t. answers h (cmds t) (res t)"
  shows "\<exists>s'. (conc_step h irq crc32_RegOffsets (\<lambda>_. i) cmds)\<^sup>*\<^sup>* s s' \<and> serial_inv i cmds res s' \<and> c_mutex s' i = Some t \<and>
    c_pc s' = c_pc s \<and> load32 0 (c_page s') AND 2 = 0"
  using assms(1-3)
proof (induction "serve_left (c_hw s)" arbitrary: s rule: less_induct)
  case less
  have own: "owner_inv (cmds t) (res t) (Sub_poll n) (c_hw s) (c_page s)"
    using serial_ownerD [OF less.prems(1,2)] less.prems(3) by simp
  show ?case
  proof (cases "load32 0 (c_page s) AND 2 = 0")
    case True
    then show ?thesis using less.prems by blast
  next
    case False
    obtain s1 where s1: "hw_step_conc h irq s = Some s1" "load32 0 (c_page s1) AND 2 = 0 \<or> serve_left (c_hw s1) < serve_left (c_hw s)"
      using serve_step [OF own False assms(4)] by blast
    have keep: "c_pc s1 = c_pc s" "c_mutex s1 = c_mutex s" using hw_keeps_owner [OF s1(1) own assms(4)] by simp_all
    have inv: "serial_inv i cmds res s1" "c_mutex s1 i = Some t" "c_pc s1 t = Sub_poll n"
      using hw_keeps_serial [OF less.prems(1) s1(1) assms(4)] keep less.prems by simp_all
    have step: "conc_step h irq crc32_RegOffsets (\<lambda>_. i) cmds s s1"
      using s1(1) by (auto simp: conc_step_def conc_move_def intro: exI [of _ None])
    show ?thesis
    proof (cases "load32 0 (c_page s1) AND 2 = 0")
      case True
      then show ?thesis using inv keep step by blast
    next
      case False
      then obtain s' where "(conc_step h irq crc32_RegOffsets (\<lambda>_. i) cmds)\<^sup>*\<^sup>* s1 s'" "serial_inv i cmds res s'"
        "c_mutex s' i = Some t" "c_pc s' = c_pc s1" "load32 0 (c_page s') AND 2 = 0"
        using less.hyps [OF _ inv] s1(2) by blast
      with step keep(1) show ?thesis by (metis converse_rtranclp_into_rtranclp)
    qed
  qed
qed

text \<open>Once START is clear the owner returns within three accesses.\<close>

lemma owner_finishes:
  assumes "serial_inv i cmds res s" and "c_mutex s i = Some t" and "polls_left i s"
    and "stage_left (cmds t) (c_pc s t) = 0" and "load32 0 (c_page s) AND 2 = 0"
  shows "\<exists>s'. (conc_step h irq crc32_RegOffsets (\<lambda>_. i) cmds)\<^sup>*\<^sup>* s s' \<and> serial_inv i cmds res s' \<and> c_mutex s' i = None \<and>
    c_pc s' = (c_pc s)(t := Sub_done (fst (snd (res t))) (snd (snd (res t))))"
proof -
  let ?s' = "s\<lparr>c_pc := (c_pc s)(t := Sub_done (fst (snd (res t))) (snd (snd (res t)))), c_mutex := (c_mutex s)(i := None)\<rparr>"
  note own = serial_ownerD [OF assms(1,2)]
  have "\<exists>k. conc_run h irq crc32_RegOffsets (\<lambda>_. i) cmds (replicate k (Some t)) s = Some ?s'"
  proof (cases "c_pc s t")
    case (Sub_poll n)
    then have "n < kMaxPolls" using assms(2,3) by (simp add: polls_left_def)
    then show ?thesis
      using own Sub_poll assms(5)
      by (intro exI [of _ 3]) (simp add: eval_nat_numeral conc_move_def submit_step_def goto_def leave_def conc_simps)
  next
    case Sub_res0
    then show ?thesis
      using own by (intro exI [of _ 2]) (simp add: eval_nat_numeral conc_move_def submit_step_def goto_def leave_def conc_simps)
  next
    case (Sub_res1 r0)
    then show ?thesis
      using own by (intro exI [of _ 1]) (simp add: conc_move_def submit_step_def goto_def leave_def conc_simps)
  qed (use own assms(4) in simp_all)
  then have "(conc_step h irq crc32_RegOffsets (\<lambda>_. i) cmds)\<^sup>*\<^sup>* s ?s'" using conc_run_steps by blast
  moreover have "hw_idle (c_hw s) (c_page s)"
    using own assms(4,5) by (cases "c_pc s t") (auto simp: hw_idle_def)
  then have "serial_inv i cmds res ?s'" using assms(1,2) by (auto simp: serial_inv_def)
  ultimately show ?thesis by (intro exI [of _ ?s']) simp
qed

lemma owner_returns:
  assumes "serial_inv i cmds res s" and "c_mutex s i = Some t" and "polls_left i s" and "\<And>t. answers h (cmds t) (res t)"
  shows "\<exists>s'. (conc_step h irq crc32_RegOffsets (\<lambda>_. i) cmds)\<^sup>*\<^sup>* s s' \<and> serial_inv i cmds res s' \<and> c_mutex s' i = None \<and>
    c_pc s' t = Sub_done (fst (snd (res t))) (snd (snd (res t))) \<and> (\<forall>t'. t' \<noteq> t \<longrightarrow> c_pc s' t' = c_pc s t')"
proof -
  let ?steps = "(conc_step h irq crc32_RegOffsets (\<lambda>_. i) cmds)\<^sup>*\<^sup>*"
  obtain s1 where s1: "?steps s s1" "serial_inv i cmds res s1" "c_mutex s1 i = Some t" "polls_left i s1"
    "stage_left (cmds t) (c_pc s1 t) = 0" "\<forall>t'. t' \<noteq> t \<longrightarrow> c_pc s1 t' = c_pc s t'"
    using owner_stages [OF assms(1-3), of h irq] by blast
  have "\<exists>s2. ?steps s1 s2 \<and> serial_inv i cmds res s2 \<and> c_mutex s2 i = Some t \<and> c_pc s2 = c_pc s1 \<and> load32 0 (c_page s2) AND 2 = 0"
  proof (cases "\<exists>n. c_pc s1 t = Sub_poll n")
    case True
    then show ?thesis using owner_served [OF s1(2,3) _ assms(4)] by blast
  next
    case False
    then have "hw_idle (c_hw s1) (c_page s1)"
      using serial_ownerD [OF s1(2,3)] s1(5) by (cases "c_pc s1 t") auto
    then show ?thesis using s1(2,3) by (auto simp: hw_idle_def)
  qed
  then obtain s2 where s2: "?steps s1 s2" "serial_inv i cmds res s2" "c_mutex s2 i = Some t" "c_pc s2 = c_pc s1"
    "load32 0 (c_page s2) AND 2 = 0" by blast
  have "polls_left i s2" "stage_left (cmds t) (c_pc s2 t) = 0" using s1(3-5) s2(3,4) by (auto simp: polls_left_def)
  from owner_finishes [OF s2(2,3) this s2(5), of h irq] obtain s3 where s3: "?steps s2 s3" "serial_inv i cmds res s3"
    "c_mutex s3 i = None" "c_pc s3 = (c_pc s2)(t := Sub_done (fst (snd (res t))) (snd (snd (res t))))" by blast
  have "?steps s s3" using s1(1) s2(1) s3(1) by simp
  then show ?thesis using s1(6) s2(4) s3(2-4) by (intro exI [of _ s3]) simp
qed

text \<open>With the mutex free, threads can enter and return one after the other.\<close>

lemma threads_return:
  assumes "serial_inv i cmds res s" and "c_mutex s i = None" and "\<And>t. answers h (cmds t) (res t)"
  shows "\<exists>s'. (conc_step h irq crc32_RegOffsets (\<lambda>_. i) cmds)\<^sup>*\<^sup>* s s' \<and> serial_inv i cmds res s' \<and> c_mutex s' i = None \<and>
    (\<forall>t. t \<in> set ts \<or> (\<exists>r0 r1. c_pc s t = Sub_done r0 r1) \<longrightarrow> (\<exists>r0 r1. c_pc s' t = Sub_done r0 r1))"
  using assms(1,2)
proof (induction ts arbitrary: s)
  case Nil
  then show ?case by (intro exI [of _ s]) simp
next
  case (Cons t ts)
  let ?steps = "(conc_step h irq crc32_RegOffsets (\<lambda>_. i) cmds)\<^sup>*\<^sup>*"
  have "\<exists>s1. ?steps s s1 \<and> serial_inv i cmds res s1 \<and> c_mutex s1 i = None \<and> (\<exists>r0 r1. c_pc s1 t = Sub_done r0 r1) \<and>
    (\<forall>t'. t' \<noteq> t \<longrightarrow> c_pc s1 t' = c_pc s t')"
  proof (cases "c_pc s t = Sub_lock")
    case True
    let ?s0 = "s\<lparr>c_pc := (c_pc s)(t := Sub_dma 0), c_mutex := (c_mutex s)(i \<mapsto> t)\<rparr>"
    have sub: "submit_step crc32_RegOffsets i (cmds t) t s = Some ?s0"
      using True Cons.prems(2) by (simp add: submit_step_def)
    have "serial_inv i cmds res ?s0" "polls_left i ?s0"
      using Cons.prems by (auto simp: serial_inv_def polls_left_def dma_staged_def load_bytes_def)
    from owner_returns [where t = t, OF this(1) _ this(2) assms(3), of irq] obtain s1 where "?steps ?s0 s1" "serial_inv i cmds res s1"
      "c_mutex s1 i = None" "\<exists>r0 r1. c_pc s1 t = Sub_done r0 r1" "\<forall>t'. t' \<noteq> t \<longrightarrow> c_pc s1 t' = c_pc ?s0 t'" by auto
    moreover have "conc_step h irq crc32_RegOffsets (\<lambda>_. i) cmds s ?s0"
      using sub by (auto simp: conc_step_def conc_move_def intro: exI [of _ "Some t"])
    ultimately show ?thesis by (intro exI [of _ s1]) (auto intro: converse_rtranclp_into_rtranclp)
  next
    case False
    then have "\<exists>r0 r1. c_pc s t = Sub_done r0 r1" using Cons.prems by (auto simp: serial_inv_def)
    then show ?thesis using Cons.prems by blast
  qed
  then obtain s1 where s1: "?steps s s1" "serial_inv i cmds res s1" "c_mutex s1 i = None" "\<exists>r0 r1. c_pc s1 t = Sub_done r0 r1"
    "\<forall>t'. t' \<noteq> t \<longrightarrow> c_pc s1 t' = c_pc s t'" by blast
  from Cons.IH [OF s1(2,3)] obtain s' where s': "?steps s1 s'" "serial_inv i cmds res s'" "c_mutex s' i = None"
    "\<forall>t. t \<in> set ts \<or> (\<exists>r0 r1. c_pc s1 t = Sub_done r0 r1) \<longrightarrow> (\<exists>r0 r1. c_pc s' t = Sub_done r0 r1)" by blast
  have "?steps s s'" using s1(1) s'(1) by simp
  moreover have "\<exists>r0 r1. c_pc s' t' = Sub_done r0 r1" if "t' \<in> set (t # ts) \<or> (\<exists>r0 r1. c_pc s t' = Sub_done r0 r1)" for t'
    using that s1(4,5) s'(4) by (metis set_ConsD)
  ultimately show ?case using s'(2,3) by blast
qed

text \<open>Every continuation without a timeout can be extended until the threads \<open>ts\<close> have returned their answers.\<close>

lemma all_return:
  assumes "serial_inv i cmds res s" and "polls_left i s" and "\<And>t. answers h (cmds t) (res t)"
  shows "\<exists>sched s'. conc_run h irq crc32_RegOffsets (\<lambda>_. i) cmds sched s = Some s' \<and>
    (\<forall>t \<in> set ts. c_pc s' t = Sub_done (fst (snd (res t))) (snd (snd (res t))))"
proof -
  let ?steps = "(conc_step h irq crc32_RegOffsets (\<lambda>_. i) cmds)\<^sup>*\<^sup>*"
  obtain s1 where s1: "?steps s s1" "serial_inv i cmds res s1" "c_mutex s1 i = None"
    using assms(1) owner_returns [OF assms(1) _ assms(2,3), of _ irq] by (cases "c_mutex s i") blast+
  obtain s2 where s2: "?steps s1 s2" "serial_inv i cmds res s2" "c_mutex s2 i = None"
    "\<forall>t. t \<in> set ts \<longrightarrow> (\<exists>r0 r1. c_pc s2 t = Sub_done r0 r1)"
    using threads_return [OF s1(2,3) assms(3), of irq ts] by blast
  have "c_pc s2 t = Sub_done (fst (snd (res t))) (snd (snd (res t)))" if "t \<in> set ts" for t
  proof -
    have "c_pc s2 t = Sub_lock \<or> c_pc s2 t = Sub_done (fst (snd (res t))) (snd (snd (res t)))"
      using s2(2,3) by (simp add: serial_inv_def)
    then show ?thesis using s2(4) that by force
  qed
  moreover have "?steps s s2" using s1(1) s2(1) by simp
  ultimately show ?thesis using conc_run_steps by blast
qed

text \<open>
  C5.  Concurrent requests through one plugin instance.  Any number of threads call
  \<^verbatim>\<open>Crc32Plugin::submit\<close> with COMPUTE, and their accesses to the page interleave in any order with
  each other and with the hardware model's; in every state reached without a timeout, a thread
  that has returned carries the checksum of its own payload: what the same call returns when
  it runs alone.  And none is blocked for good: unless a submit has used up its polls, the run
  can go on until any given threads have returned, each with the checksum of its payload.
\<close>

theorem concurrent_submits_serialised:
  assumes "conc_run crc32_cmd_handler irq crc32_RegOffsets (\<lambda>_. i)
      (\<lambda>t. crc32_command Crc32Op_COMPUTE (payloads t)) sched (conc_init count m) = Some s"
    and "load32 (reg_off F_ctrl) m AND ctrl_START = 0"
    and "\<not> timed_out s" and "k < kMaxPolls"
  shows "(\<forall>t r0 r1. c_pc s t = Sub_done r0 r1 \<longrightarrow>
      le_bytes32 r0 @ le_bytes32 r1 = le_bytes32 (crc_reference (take 3072 (payloads t))) @ [0, 0, 0, 0] \<and>
      fst (crc32_submit_page (hw_env crc32_cmd_handler irq' count' k) dev Crc32Op_COMPUTE (payloads t) m') =
        Inr \<lparr>request_id = dev @ ''-'' @ to_string (uint Crc32Op_COMPUTE), response_data = le_bytes32 r0 @ le_bytes32 r1\<rparr>) \<and>
    ((\<forall>t n. c_pc s t = Sub_poll n \<longrightarrow> n < kMaxPolls) \<longrightarrow>
      (\<forall>ts. \<exists>sched' s'. conc_run crc32_cmd_handler irq crc32_RegOffsets (\<lambda>_. i)
          (\<lambda>t. crc32_command Crc32Op_COMPUTE (payloads t)) sched' s = Some s' \<and>
        (\<forall>t \<in> set ts. c_pc s' t = Sub_done (crc_reference (take 3072 (payloads t))) 0)))"
proof (intro conjI allI impI)
  fix t r0 r1
  assume ret: "c_pc s t = Sub_done r0 r1"
  have r: "r0 = crc_reference (take 3072 (payloads t))" "r1 = 0"
    using serial_results [OF assms(1) _ crc32_command_answers assms(3) ret] assms(2) by simp_all
  then show "le_bytes32 r0 @ le_bytes32 r1 = le_bytes32 (crc_reference (take 3072 (payloads t))) @ [0, 0, 0, 0]"
    using crc32_submit_page_compute [OF assms(4), of irq' count' dev "payloads t" m'] by (simp add: le_bytes32_def)
  with r show "fst (crc32_submit_page (hw_env crc32_cmd_handler irq' count' k) dev Crc32Op_COMPUTE (payloads t) m') =
      Inr \<lparr>request_id = dev @ ''-'' @ to_string (uint Crc32Op_COMPUTE), response_data = le_bytes32 r0 @ le_bytes32 r1\<rparr>"
    using crc32_submit_page_compute [OF assms(4), of irq' count' dev "payloads t" m'] by auto
next
  fix ts
  assume "\<forall>t n. c_pc s t = Sub_poll n \<longrightarrow> n < kMaxPolls"
  then have "polls_left i s" by (simp add: polls_left_def)
  from all_return [OF serial_reached [OF assms(1) _ crc32_command_answers assms(3)] this crc32_command_answers, of irq ts] assms(2)
  show "\<exists>sched' s'. conc_run crc32_cmd_handler irq crc32_RegOffsets (\<lambda>_. i)
          (\<lambda>t. crc32_command Crc32Op_COMPUTE (payloads t)) sched' s = Some s' \<and>
        (\<forall>t \<in> set ts. c_pc s' t = Sub_done (crc_reference (take 3072 (payloads t))) 0)"
    by simp
qed

text \<open>
  Two threads in one instance: the second has returned, and the first, which could not enter
  before, is staging its data.
\<close>

definition check_payload :: "nat \<Rightarrow> u8 list" where
  "check_payload t = (if t = 1 then [0x31, 0x32, 0x33] else [])"

lemma check_run:
  "\<exists>s. conc_run crc32_cmd_handler False crc32_RegOffsets (\<lambda>_. 0) (\<lambda>t. crc32_command Crc32Op_COMPUTE (check_payload t))
      (replicate 6 (Some 2) @ replicate 13 None @ replicate 3 (Some 2) @ replicate 2 (Some 1)) (conc_init 0 (\<lambda>_. 0)) = Some s \<and>
    \<not> timed_out s \<and> c_pc s 2 = Sub_done (crc_reference []) 0 \<and> c_pc s 1 = Sub_dma 1"
proof -
  have "crc32_cmd_handler m Crc32Op_COMPUTE 0 0 = Some (0, crc_reference [], 0)" for m
    using crc32_compute_handler [of "[]" m 0] by (simp add: load_bytes_def)
  moreover have "crc32_command Crc32Op_COMPUTE (check_payload 2) = \<lparr>cmd_dma = [], cmd_op = Crc32Op_COMPUTE, cmd_arg0 = 0, cmd_arg1 = 0\<rparr>"
    "crc32_command Crc32Op_COMPUTE (check_payload (Suc 0)) = \<lparr>cmd_dma = [0x31, 0x32, 0x33], cmd_op = Crc32Op_COMPUTE, cmd_arg0 = 3, cmd_arg1 = 0\<rparr>"
    by (simp_all add: crc32_command_def check_payload_def)
  ultimately show ?thesis
    by (simp add: eval_nat_numeral conc_init_def conc_move_def submit_step_def hw_step_conc_def goto_def leave_def hw_goto_def
        mem_simps kMaxPolls_def timed_out_def Let_def)
qed

theorem concurrent_submits_serialised_witness:
  "\<exists>sched s r0 r1. conc_run crc32_cmd_handler False crc32_RegOffsets (\<lambda>_. 0)
      (\<lambda>t. crc32_command Crc32Op_COMPUTE (check_payload t)) sched (conc_init 0 (\<lambda>_. 0)) = Some s \<and>
    c_pc s 1 = Sub_dma 1 \<and> c_pc s 2 = Sub_done r0 r1 \<and> le_bytes32 r0 @ le_bytes32 r1 = le_bytes32 (crc_reference []) @ [0, 0, 0, 0]"
proof -
  obtain sched s where s: "conc_run crc32_cmd_handler False crc32_RegOffsets (\<lambda>_. 0)
      (\<lambda>t. crc32_command Crc32Op_COMPUTE (check_payload t)) sched (conc_init 0 (\<lambda>_. 0)) = Some s"
    "\<not> timed_out s" "c_pc s 2 = Sub_done (crc_reference []) 0" "c_pc s 1 = Sub_dma 1"
    using check_run by blast
  have "load32 (reg_off F_ctrl) (\<lambda>_. 0) AND ctrl_START = 0" "0 < kMaxPolls" by (simp_all add: mem_simps kMaxPolls_def)
  from concurrent_submits_serialised [OF s(1) this(1) s(2) this(2)] s(3)
  have "le_bytes32 (crc_reference []) @ le_bytes32 0 = le_bytes32 (crc_reference []) @ [0, 0, 0, 0]"
    by (simp add: check_payload_def)
  with s show ?thesis by blast
qed

subsection \<open>Two instances, or a timeout: results of another request\<close>

text \<open>The accesses of a thread up to START, and from a successful poll to the return.\<close>

definition to_start :: "nat \<Rightarrow> nat option list" where "to_start t = replicate 6 (Some t)"
definition hw_reads :: "nat option list" where "hw_reads = replicate 4 None"
definition hw_writes :: "nat option list" where "hw_writes = replicate 8 None"
definition to_return :: "nat \<Rightarrow> nat option list" where "to_return t = replicate 3 (Some t)"

lemma accel_RegOffsets_eq: "accel_RegOffsets r = crc32_RegOffsets r"
  by (cases r) simp_all

lemma run_to_start:
  assumes "c_pc s t = Sub_lock" and "c_mutex s (inst t) = None" and "cmds t = accel_command opc payload"
  shows "conc_run h irq accel_RegOffsets inst cmds (to_start t) s =
    Some (s\<lparr>c_pc := (c_pc s)(t := Sub_poll 0), c_mutex := (c_mutex s)(inst t \<mapsto> t),
            c_page := (let m = store32 0x108 (cmd_arg1 (cmds t)) (store32 0x104 (cmd_arg0 (cmds t)) (store32 0x100 opc (c_page s)))
                       in store32 0 (load32 0 m OR 2) m)\<rparr>)"
  using assms by (simp add: to_start_def eval_nat_numeral conc_move_def submit_step_def goto_def accel_command_def Let_def)

lemma run_to_return:
  assumes "c_pc s t = Sub_poll n" and "n < kMaxPolls" and "load32 0 (c_page s) AND 2 = 0"
  shows "conc_run h irq accel_RegOffsets inst cmds (to_return t) s =
    Some (s\<lparr>c_pc := (c_pc s)(t := Sub_done (load32 0x114 (c_page s)) (load32 0x118 (c_page s))),
            c_mutex := (c_mutex s)(inst t := None)\<rparr>)"
  using assms by (simp add: to_return_def eval_nat_numeral conc_move_def submit_step_def goto_def leave_def)

text \<open>The hardware model's accesses before and after another thread overwrites the command.\<close>

lemma run_hw_reads:
  assumes "c_hw s = Hw_poll" and "load32 0 (c_page s) AND 2 \<noteq> 0"
  shows "conc_run h irq R inst cmds hw_reads s =
    Some (s\<lparr>c_hw := Hw_call (load32 0x100 (c_page s)) (load32 0x104 (c_page s)) (load32 0x108 (c_page s))\<rparr>)"
  using assms by (simp add: hw_reads_def eval_nat_numeral conc_move_def hw_step_conc_def hw_goto_def Let_def)

lemma run_hw_writes:
  assumes "c_hw s = Hw_call opc a0 a1"
  shows "\<exists>s'. conc_run default_handler irq R inst cmds hw_writes s = Some s' \<and>
    c_pc s' = c_pc s \<and> c_mutex s' = c_mutex s \<and> c_count s' = c_count s + 1 \<and>
    load32 0 (c_page s') AND 2 = 0 \<and> load32 0x114 (c_page s') = a0 \<and> load32 0x118 (c_page s') = a1"
  using assms
  by (simp add: hw_writes_def eval_nat_numeral conc_move_def hw_step_conc_def hw_goto_def Let_def
      default_handler_def mem_simps)

text \<open>
  From a state where thread 1 waits for its command and thread 2 can take its mutex: the
  hardware model has read the command of thread 1 when thread 2 overwrites it.
\<close>

lemma overwritten_command:
  assumes "c_hw s = Hw_poll" and "load32 0 (c_page s) AND 2 \<noteq> 0"
    and "c_pc s 2 = Sub_lock" and "c_mutex s (inst 2) = None" and "cmds 2 = accel_command op2 payload2"
  shows "\<exists>s'. conc_run default_handler irq accel_RegOffsets inst cmds (hw_reads @ to_start 2 @ hw_writes @ to_return 2) s = Some s' \<and>
    c_pc s' = (c_pc s)(2 := Sub_done (load32 0x104 (c_page s)) (load32 0x108 (c_page s))) \<and>
    c_count s' = c_count s + 1 \<and> load32 0 (c_page s') AND 2 = 0 \<and>
    load32 0x114 (c_page s') = load32 0x104 (c_page s) \<and> load32 0x118 (c_page s') = load32 0x108 (c_page s)"
proof -
  let ?s1 = "s\<lparr>c_hw := Hw_call (load32 0x100 (c_page s)) (load32 0x104 (c_page s)) (load32 0x108 (c_page s))\<rparr>"
  obtain s2 where s2: "conc_run default_handler irq accel_RegOffsets inst cmds (to_start 2) ?s1 = Some s2"
    "c_hw s2 = c_hw ?s1" "c_pc s2 = (c_pc s)(2 := Sub_poll 0)" "c_count s2 = c_count s"
    using run_to_start [of ?s1 2 inst cmds op2 payload2] assms(3-5) by simp
  obtain s3 where s3: "conc_run default_handler irq accel_RegOffsets inst cmds hw_writes s2 = Some s3"
    "c_pc s3 = c_pc s2" "c_count s3 = c_count s + 1" "load32 0 (c_page s3) AND 2 = 0"
    "load32 0x114 (c_page s3) = load32 0x104 (c_page s)" "load32 0x118 (c_page s3) = load32 0x108 (c_page s)"
    using run_hw_writes [of s2] s2(2,4) by fastforce
  show ?thesis
    using run_hw_reads [OF assms(1,2)] s2(1,3) s3 run_to_return [of s3 2 0]
    by (simp add: conc_run_append kMaxPolls_def)
qed

text \<open>
  C39.  The mutex protects one instance only, and the server makes an instance per request:
  from every idle page there is a schedule of two concurrent \<^verbatim>\<open>AccelPlugin::submit\<close> calls on two
  instances, against the default echo handler, in which both return normally with the
  arguments of the first, and the second command is never served.
\<close>

theorem two_instances_mix_results:
  assumes "load32 (reg_off F_ctrl) m AND ctrl_START = 0" and "inst 1 \<noteq> inst 2"
    and "cmds 1 = accel_command op1 payload1" and "cmds 2 = accel_command op2 payload2"
  shows "\<exists>sched s. conc_run default_handler irq accel_RegOffsets inst cmds sched (conc_init count m) = Some s \<and>
    c_pc s 1 = Sub_done (cmd_arg0 (cmds 1)) (cmd_arg1 (cmds 1)) \<and>
    c_pc s 2 = Sub_done (cmd_arg0 (cmds 1)) (cmd_arg1 (cmds 1)) \<and> c_count s = count + 1"
proof -
  let ?run = "conc_run default_handler irq accel_RegOffsets inst cmds"
  obtain s1 where s1: "?run (to_start 1) (conc_init count m) = Some s1" "c_hw s1 = Hw_poll"
    "load32 0 (c_page s1) AND 2 \<noteq> 0" "c_pc s1 2 = Sub_lock" "c_pc s1 1 = Sub_poll 0" "c_mutex s1 (inst 2) = None"
    "c_count s1 = count" "load32 0x104 (c_page s1) = cmd_arg0 (cmds 1)" "load32 0x108 (c_page s1) = cmd_arg1 (cmds 1)"
    using run_to_start [of "conc_init count m" 1 inst cmds op1 payload1] assms(2,3)
    by (simp add: conc_init_def mem_simps Let_def)
  obtain s2 where s2: "?run (hw_reads @ to_start 2 @ hw_writes @ to_return 2) s1 = Some s2"
    "c_pc s2 = (c_pc s1)(2 := Sub_done (cmd_arg0 (cmds 1)) (cmd_arg1 (cmds 1)))" "c_count s2 = count + 1"
    "load32 0 (c_page s2) AND 2 = 0" "load32 0x114 (c_page s2) = cmd_arg0 (cmds 1)" "load32 0x118 (c_page s2) = cmd_arg1 (cmds 1)"
    using overwritten_command [where inst = inst and cmds = cmds, OF s1(2,3,4,6) assms(4)] s1(7-9) by metis
  have "\<exists>s. ?run (to_start 1 @ (hw_reads @ to_start 2 @ hw_writes @ to_return 2) @ to_return 1) (conc_init count m) = Some s \<and>
    c_pc s 1 = Sub_done (cmd_arg0 (cmds 1)) (cmd_arg1 (cmds 1)) \<and>
    c_pc s 2 = Sub_done (cmd_arg0 (cmds 1)) (cmd_arg1 (cmds 1)) \<and> c_count s = count + 1"
    using s1(1,5) s2 run_to_return [of s2 1 0] unfolding conc_run_append by (simp add: kMaxPolls_def)
  then show ?thesis by blast
qed

theorem two_instances_mix_results_witness:
  "\<exists>sched s. conc_run default_handler True accel_RegOffsets (\<lambda>t. t)
      (\<lambda>t. accel_command AccelOp_ECHO [of_nat t, 0, 0, 0, 0, 0, 0, 0]) sched (conc_init 0 (\<lambda>_. 0)) = Some s \<and>
    c_pc s 1 = Sub_done 1 0 \<and> c_pc s 2 = Sub_done 1 0 \<and> c_count s = 1"
proof -
  have arg: "cmd_arg0 (accel_command AccelOp_ECHO [of_nat 1, 0, 0, 0, 0, 0, 0, 0]) = 1"
    "cmd_arg1 (accel_command AccelOp_ECHO [of_nat 1, 0, 0, 0, 0, 0, 0, 0]) = 0"
    by (simp_all add: accel_command_def word32_at_def le_word32_def)
  show ?thesis
    using two_instances_mix_results [of "\<lambda>_. 0" "\<lambda>t. t" "\<lambda>t. accel_command AccelOp_ECHO [of_nat t, 0, 0, 0, 0, 0, 0, 0]"
        AccelOp_ECHO "[of_nat 1, 0, 0, 0, 0, 0, 0, 0]" AccelOp_ECHO "[of_nat 2, 0, 0, 0, 0, 0, 0, 0]" True 0]
    unfolding arg by (simp add: mem_simps)
qed

text \<open>A thread that only polls while START stays set runs into its timeout.\<close>

lemma run_polls:
  assumes "load32 0 (c_page s) AND 2 \<noteq> 0"
  shows "c_pc s t = Sub_poll n \<Longrightarrow> n + k \<le> kMaxPolls \<Longrightarrow>
    conc_run h irq accel_RegOffsets inst cmds (replicate k (Some t)) s = Some (s\<lparr>c_pc := (c_pc s)(t := Sub_poll (n + k))\<rparr>)"
  using assms
proof (induction k arbitrary: n s)
  case (Suc k)
  then show ?case
    using Suc.IH [of "s\<lparr>c_pc := (c_pc s)(t := Sub_poll (Suc n))\<rparr>" "Suc n"]
    by (simp add: conc_move_def submit_step_def goto_def fun_upd_def cong: if_cong)
qed (simp add: fun_upd_idem)

text \<open>
  A timeout breaks the serialisation of a single instance too: the command stays pending, and
  the next request can be answered with its results.
\<close>

theorem timeout_mixes_results:
  assumes "load32 (reg_off F_ctrl) m AND ctrl_START = 0"
    and "cmds 1 = accel_command op1 payload1" and "cmds 2 = accel_command op2 payload2"
  shows "\<exists>sched s. conc_run default_handler irq accel_RegOffsets (\<lambda>_. i) cmds sched (conc_init count m) = Some s \<and>
    c_pc s 1 = Sub_timeout \<and> c_pc s 2 = Sub_done (cmd_arg0 (cmds 1)) (cmd_arg1 (cmds 1))"
proof -
  let ?run = "conc_run default_handler irq accel_RegOffsets (\<lambda>_. i) cmds"
  obtain s1 where s1: "?run (to_start 1) (conc_init count m) = Some s1" "c_hw s1 = Hw_poll"
    "load32 0 (c_page s1) AND 2 \<noteq> 0" "c_pc s1 2 = Sub_lock" "c_pc s1 1 = Sub_poll 0" "c_mutex s1 = (\<lambda>_. None)(i \<mapsto> 1)"
    "load32 0x104 (c_page s1) = cmd_arg0 (cmds 1)" "load32 0x108 (c_page s1) = cmd_arg1 (cmds 1)"
    using run_to_start [of "conc_init count m" 1 "\<lambda>_. i" cmds op1 payload1] assms(2)
    by (simp add: conc_init_def mem_simps Let_def)
  let ?s2 = "s1\<lparr>c_pc := (c_pc s1)(1 := Sub_timeout), c_mutex := (\<lambda>_. None)\<rparr>"
  have s2: "?run (replicate kMaxPolls (Some 1) @ [Some 1]) s1 = Some ?s2"
    using run_polls [OF s1(3,5), of kMaxPolls] s1(6)
    by (simp add: conc_run_append conc_move_def submit_step_def leave_def)
  obtain s3 where s3: "?run (hw_reads @ to_start 2 @ hw_writes @ to_return 2) ?s2 = Some s3"
    "c_pc s3 = (c_pc ?s2)(2 := Sub_done (cmd_arg0 (cmds 1)) (cmd_arg1 (cmds 1)))"
    using overwritten_command [where s = ?s2 and inst = "\<lambda>_. i" and cmds = cmds and irq = irq, OF _ _ _ _ assms(3)] s1
    by auto
  have "?run (to_start 1 @ (replicate kMaxPolls (Some 1) @ [Some 1]) @ hw_reads @ to_start 2 @ hw_writes @ to_return 2)
      (conc_init count m) = Some s3"
    using s1(1) s2 s3(1) unfolding conc_run_append [of _ _ _ _ _ "to_start 1"]
      conc_run_append [of _ _ _ _ _ "replicate kMaxPolls (Some 1) @ [Some 1]"] by simp
  moreover have "c_pc s3 1 = Sub_timeout" "c_pc s3 2 = Sub_done (cmd_arg0 (cmds 1)) (cmd_arg1 (cmds 1))"
    by (simp_all add: s3(2))
  ultimately show ?thesis by blast
qed

end
