(* ===== verification/Userlib.thy ===== *)
theory Userlib
  imports Reg_Map "HOL-Library.Sublist"
begin

text \<open>
  The user library (\<^verbatim>\<open>runtime/userlib\<close>): the RAII device handle \<^verbatim>\<open>DeepspanDevice\<close>, the
  io_uring client \<^verbatim>\<open>AsyncClient\<close> and the error names.  The answers of \<^verbatim>\<open>open\<close> and \<^verbatim>\<open>ioctl\<close> are
  inputs (\<open>usys\<close>), the set of open descriptors is explicit.  liburing is not part of the
  repository: its functions are the parameter \<open>liburing\<close> over an arbitrary kernel state, and
  what its manual pages promise are the predicates \<open>uring_resources\<close> and \<open>uring_completions\<close>.
\<close>

subsection \<open>Errors and the structures of the kernel interface\<close>

datatype ul_Error =
  UnsupportedKernelVersion | DeviceOpenFailed | IouringSetupFailed | SubmitFailed | Timeout | IoError

fun error_to_string :: "ul_Error \<Rightarrow> string" where
  "error_to_string UnsupportedKernelVersion = ''UnsupportedKernelVersion''"
| "error_to_string DeviceOpenFailed = ''DeviceOpenFailed''"
| "error_to_string IouringSetupFailed = ''IouringSetupFailed''"
| "error_to_string SubmitFailed = ''SubmitFailed''"
| "error_to_string Timeout = ''Timeout''"
| "error_to_string IoError = ''IoError''"

definition DEEPSPAN_UAPI_VERSION_MIN :: u32 where "DEEPSPAN_UAPI_VERSION_MIN = 1"

record deepspan_req =
  rq_opcode :: u32
  rq_flags :: u32
  rq_data_ptr :: u64
  rq_data_len :: u32
  rq_timeout_ms :: u32

datatype req_field = RQ_opcode | RQ_flags | RQ_data_ptr | RQ_data_len | RQ_timeout_ms

definition deepspan_req_layout :: "req_field layout" where
  "deepspan_req_layout =
     [(RQ_opcode, 4, 1), (RQ_flags, 4, 1), (RQ_data_ptr, 8, 1), (RQ_data_len, 4, 1), (RQ_timeout_ms, 4, 1)]"

lemma deepspan_req_size: "struct_size deepspan_req_layout = 24"
  by (simp add: struct_size_def deepspan_req_layout_def align_up_def)

record deepspan_result =
  res_status :: int
  result_lo :: u32
  result_hi :: u32
  res_pad :: u32

subsection \<open>The world of the library\<close>

record 'k uworld =
  u_fds :: "int set"
  u_kern :: 'k

record 'k usys =
  open_ret :: "string \<Rightarrow> 'k uworld \<Rightarrow> int"
  ioctl_version :: "int \<Rightarrow> 'k uworld \<Rightarrow> int \<times> u32"
  ioctl_submit :: "int \<Rightarrow> deepspan_req \<Rightarrow> 'k uworld \<Rightarrow> int \<times> 'k"

text \<open>\<^verbatim>\<open>open\<close> never returns a descriptor that is already open.\<close>

definition usys_fresh :: "'k usys \<Rightarrow> bool" where
  "usys_fresh y \<longleftrightarrow> (\<forall>path w. open_ret y path w \<ge> 0 \<longrightarrow> open_ret y path w \<notin> u_fds w)"

definition u_open :: "'k usys \<Rightarrow> string \<Rightarrow> 'k uworld \<Rightarrow> int \<times> 'k uworld" where
  "u_open y path w =
     (let fd = open_ret y path w in
      if fd < 0 then (-1, w) else (fd, w\<lparr>u_fds := insert fd (u_fds w)\<rparr>))"

definition u_close :: "int \<Rightarrow> 'k uworld \<Rightarrow> 'k uworld" where
  "u_close fd w = w\<lparr>u_fds := u_fds w - {fd}\<rparr>"

subsection \<open>DeepspanDevice\<close>

record DeepspanDevice =
  dev_fd :: int
  kernel_uapi_version :: u32

definition DeepspanDevice_open ::
    "'k usys \<Rightarrow> string \<Rightarrow> 'k uworld \<Rightarrow> (ul_Error + DeepspanDevice) \<times> 'k uworld" where
  "DeepspanDevice_open y path w =
     (let (fd, w) = u_open y path w in
      if fd < 0 then (Inl DeviceOpenFailed, w)
      else
        let (rc, ver) = ioctl_version y fd w in
        if rc < 0 then (Inl IoError, u_close fd w)
        else if ver < DEEPSPAN_UAPI_VERSION_MIN then (Inl UnsupportedKernelVersion, u_close fd w)
        else (Inr \<lparr>dev_fd = fd, kernel_uapi_version = ver\<rparr>, w))"

definition DeepspanDevice_destroy :: "DeepspanDevice \<Rightarrow> 'k uworld \<Rightarrow> 'k uworld" where
  "DeepspanDevice_destroy d w = (if dev_fd d \<ge> 0 then u_close (dev_fd d) w else w)"

text \<open>The move constructor: the new object, and what is left of the old one.\<close>

definition DeepspanDevice_move :: "DeepspanDevice \<Rightarrow> DeepspanDevice \<times> DeepspanDevice" where
  "DeepspanDevice_move other = (other, other\<lparr>dev_fd := -1, kernel_uapi_version := 0\<rparr>)"

text \<open>Move assignment; \<open>same\<close> says that both are one object.\<close>

definition DeepspanDevice_assign ::
    "bool \<Rightarrow> DeepspanDevice \<Rightarrow> DeepspanDevice \<Rightarrow> 'k uworld \<Rightarrow>
     DeepspanDevice \<times> DeepspanDevice \<times> 'k uworld" where
  "DeepspanDevice_assign same this other w =
     (if same then (this, other, w)
      else
        let w = (if dev_fd this \<ge> 0 then u_close (dev_fd this) w else w) in
        (\<lparr>dev_fd = dev_fd other, kernel_uapi_version = kernel_uapi_version other\<rparr>,
         other\<lparr>dev_fd := -1, kernel_uapi_version := 0\<rparr>, w))"

definition submit_sync ::
    "'k usys \<Rightarrow> DeepspanDevice \<Rightarrow> deepspan_req \<Rightarrow> 'k uworld \<Rightarrow>
     (ul_Error + deepspan_result) \<times> 'k uworld" where
  "submit_sync y d req w =
     (let (ret, k) = ioctl_submit y (dev_fd d) req w; w = w\<lparr>u_kern := k\<rparr> in
      if ret < 0 then (Inl SubmitFailed, w)
      else (Inr \<lparr>res_status = ret, result_lo = 0, result_hi = 0, res_pad = 0\<rparr>, w))"

subsection \<open>AsyncClient\<close>

record sqe =
  sqe_opcode :: u8
  sqe_fd :: int
  sqe_addr :: u64
  sqe_len :: nat
  sqe_off :: u64
  sqe_cmd_op :: u32
  sqe_user_data :: u64

record cqe =
  cqe_res :: int
  cqe_user_data :: u64

record 'k liburing =
  op_uring_cmd :: u8
  queue_init :: "u32 \<Rightarrow> 'k \<Rightarrow> int \<times> nat \<times> 'k"
  queue_exit :: "nat \<Rightarrow> 'k \<Rightarrow> 'k"
  get_sqe :: "nat \<Rightarrow> 'k \<Rightarrow> nat option \<times> 'k"
  write_sqe :: "nat \<Rightarrow> nat \<Rightarrow> sqe \<Rightarrow> 'k \<Rightarrow> 'k"
  ring_submit :: "nat \<Rightarrow> 'k \<Rightarrow> int \<times> 'k"
  wait_cqe :: "nat \<Rightarrow> 'k \<Rightarrow> int \<times> cqe \<times> 'k"
  peek_cqe :: "nat \<Rightarrow> 'k \<Rightarrow> int \<times> cqe option \<times> 'k"
  cqe_seen :: "nat \<Rightarrow> 'k \<Rightarrow> 'k"

record AsyncClient =
  ac_ring :: nat
  ac_device_fd :: int
  ac_initialized :: bool

definition DEEPSPAN_CMD_OP :: u32 where "DEEPSPAN_CMD_OP = 0"

definition AsyncClient_create ::
    "'k liburing \<Rightarrow> DeepspanDevice \<Rightarrow> u32 \<Rightarrow> 'k uworld \<Rightarrow> (ul_Error + AsyncClient) \<times> 'k uworld" where
  "AsyncClient_create U d queue_depth w =
     (if dev_fd d < 0 then (Inl DeviceOpenFailed, w)
      else
        let (ret, ring, k) = queue_init U queue_depth (u_kern w); w = w\<lparr>u_kern := k\<rparr> in
        if ret < 0 then (Inl IouringSetupFailed, w)
        else (Inr \<lparr>ac_ring = ring, ac_device_fd = dev_fd d, ac_initialized = True\<rparr>, w))"

definition ring_exit :: "'k liburing \<Rightarrow> AsyncClient \<Rightarrow> 'k uworld \<Rightarrow> 'k uworld" where
  "ring_exit U c w = (if ac_initialized c then w\<lparr>u_kern := queue_exit U (ac_ring c) (u_kern w)\<rparr> else w)"

definition AsyncClient_destroy :: "'k liburing \<Rightarrow> AsyncClient \<Rightarrow> 'k uworld \<Rightarrow> 'k uworld" where
  "AsyncClient_destroy U c w = ring_exit U c w"

definition AsyncClient_move :: "AsyncClient \<Rightarrow> AsyncClient \<times> AsyncClient" where
  "AsyncClient_move other = (other, other\<lparr>ac_initialized := False, ac_device_fd := -1\<rparr>)"

definition AsyncClient_assign ::
    "'k liburing \<Rightarrow> bool \<Rightarrow> AsyncClient \<Rightarrow> AsyncClient \<Rightarrow> 'k uworld \<Rightarrow>
     AsyncClient \<times> AsyncClient \<times> 'k uworld" where
  "AsyncClient_assign U same this other w =
     (if same then (this, other, w)
      else (\<lparr>ac_ring = ac_ring other, ac_device_fd = ac_device_fd other,
             ac_initialized = ac_initialized other\<rparr>,
            other\<lparr>ac_initialized := False, ac_device_fd := -1\<rparr>, ring_exit U this w))"

definition prep_uring_cmd :: "u8 \<Rightarrow> int \<Rightarrow> u32 \<Rightarrow> u64 \<Rightarrow> nat \<Rightarrow> sqe" where
  "prep_uring_cmd op fd cmd_op addr len =
     \<lparr>sqe_opcode = op, sqe_fd = fd, sqe_addr = addr, sqe_len = len, sqe_off = 0,
      sqe_cmd_op = cmd_op, sqe_user_data = 0\<rparr>"

text \<open>\<open>req\<close> is the address of the request: the entry carries the pointer.\<close>

definition AsyncClient_submit ::
    "'k liburing \<Rightarrow> AsyncClient \<Rightarrow> u64 \<Rightarrow> u64 \<Rightarrow> 'k uworld \<Rightarrow> (ul_Error + unit) \<times> 'k uworld" where
  "AsyncClient_submit U c req user_data w =
     (case get_sqe U (ac_ring c) (u_kern w) of
        (None, k) \<Rightarrow> (Inl SubmitFailed, w\<lparr>u_kern := k\<rparr>)
      | (Some slot, k) \<Rightarrow>
          let e = (prep_uring_cmd (op_uring_cmd U) (ac_device_fd c) DEEPSPAN_CMD_OP req
                     (struct_size deepspan_req_layout))\<lparr>sqe_user_data := user_data\<rparr>;
              (submitted, k) = ring_submit U (ac_ring c) (write_sqe U (ac_ring c) slot e k);
              w = w\<lparr>u_kern := k\<rparr> in
          if submitted < 0 then (Inl SubmitFailed, w) else (Inr (), w))"

definition completion_result :: "cqe \<Rightarrow> ul_Error + deepspan_result" where
  "completion_result c =
     (if cqe_res c < 0 then Inl IoError
      else Inr \<lparr>res_status = cqe_res c, result_lo = 0, result_hi = 0, res_pad = 0\<rparr>)"

text \<open>
  A callback, on the state it captures.  The drain loop of \<^verbatim>\<open>reap\<close> ends when no completion is
  left; \<open>None\<close> is a loop that does not end.
\<close>

type_synonym 's completion_cb = "u64 \<Rightarrow> (ul_Error + deepspan_result) \<Rightarrow> 's \<Rightarrow> 's"

partial_function (option) reap_drain ::
    "'k liburing \<Rightarrow> nat \<Rightarrow> 's completion_cb \<Rightarrow> int \<Rightarrow> 's \<Rightarrow> 'k \<Rightarrow> (int \<times> 's \<times> 'k) option" where
  "reap_drain U ring cb count s k =
     (case peek_cqe U ring k of
        (ret, c, k) \<Rightarrow>
          (case c of
             None \<Rightarrow> Some (count, s, k)
           | Some e \<Rightarrow>
               if ret \<noteq> 0 then Some (count, s, k)
               else reap_drain U ring cb (count + 1)
                      (cb (cqe_user_data e) (completion_result e) s) (cqe_seen U ring k)))"

definition AsyncClient_reap ::
    "'k liburing \<Rightarrow> AsyncClient \<Rightarrow> 's completion_cb \<Rightarrow> bool \<Rightarrow> 's \<Rightarrow> 'k uworld \<Rightarrow>
     ((ul_Error + int) \<times> 's \<times> 'k uworld) option" where
  "AsyncClient_reap U c cb wait s w =
     (if wait then
        (case wait_cqe U (ac_ring c) (u_kern w) of
           (ret, e, k) \<Rightarrow>
             if ret < 0 then Some (Inl IoError, s, w\<lparr>u_kern := k\<rparr>)
             else
               map_option (\<lambda>(n, s, k). (Inr n, s, w\<lparr>u_kern := k\<rparr>))
                 (reap_drain U (ac_ring c) cb 1 (cb (cqe_user_data e) (completion_result e) s)
                    (cqe_seen U (ac_ring c) k)))
      else
        map_option (\<lambda>(n, s, k). (Inr n, s, w\<lparr>u_kern := k\<rparr>))
          (reap_drain U (ac_ring c) cb 0 s (u_kern w)))"

definition submit_and_wait ::
    "'k liburing \<Rightarrow> AsyncClient \<Rightarrow> u64 \<Rightarrow> 'k uworld \<Rightarrow>
     ((ul_Error + deepspan_result) \<times> 'k uworld) option" where
  "submit_and_wait U c req w =
     (case AsyncClient_submit U c req 0 w of
        (Inl e, w) \<Rightarrow> Some (Inl e, w)
      | (Inr _, w) \<Rightarrow>
          map_option
            (\<lambda>(r, captured, w). case r of Inl e \<Rightarrow> (Inl e, w) | Inr _ \<Rightarrow> (captured, w))
            (AsyncClient_reap U c (\<lambda>_ r _. r) True (Inl IoError) w))"

subsection \<open>What liburing promises\<close>

text \<open>
  \<open>live\<close> observes the rings that are set up, \<open>cq\<close> the completions of a ring that have not
  been marked as seen.
\<close>

definition uring_resources :: "'k liburing \<Rightarrow> ('k \<Rightarrow> nat set) \<Rightarrow> bool" where
  "uring_resources U live \<longleftrightarrow>
     (\<forall>d k ret r k'. queue_init U d k = (ret, r, k') \<longrightarrow>
        (if ret < 0 then live k' = live k else r \<notin> live k \<and> live k' = insert r (live k))) \<and>
     (\<forall>r k. live (queue_exit U r k) = live k - {r})"

definition uring_completions :: "'k liburing \<Rightarrow> (nat \<Rightarrow> 'k \<Rightarrow> cqe list) \<Rightarrow> bool" where
  "uring_completions U cq \<longleftrightarrow>
     (\<forall>r k ret c k'. peek_cqe U r k = (ret, c, k') \<longrightarrow>
        cq r k' = cq r k \<and> (if cq r k = [] then ret < 0 else ret = 0 \<and> c = Some (hd (cq r k)))) \<and>
     (\<forall>r k. cq r (cqe_seen U r k) = tl (cq r k)) \<and>
     (\<forall>r k ret c k'. wait_cqe U r k = (ret, c, k') \<longrightarrow> 0 \<le> ret \<longrightarrow>
        prefix (cq r k) (cq r k') \<and> cq r k' \<noteq> [] \<and> c = hd (cq r k'))"

lemmas uring_spec = uring_completions_def uring_resources_def

definition deliver :: "'s completion_cb \<Rightarrow> cqe \<Rightarrow> 's \<Rightarrow> 's" where
  "deliver cb e s = cb (cqe_user_data e) (completion_result e) s"

lemma uring_peek_Cons:
  assumes "uring_completions U cq" and "peek_cqe U r k = (ret, c, k')" and "cq r k = e # es"
  shows "cq r k' = cq r k \<and> ret = 0 \<and> c = Some e"
proof -
  have "cq r k' = cq r k \<and> (if cq r k = [] then ret < 0 else ret = 0 \<and> c = Some (hd (cq r k)))"
    using assms(1,2) by (simp add: uring_completions_def)
  then show ?thesis by (simp add: assms(3))
qed

lemma reap_drain_all:
  assumes "uring_completions U cq"
  shows "\<exists>k'. reap_drain U r cb n s k =
      Some (n + int (length (cq r k)), fold (deliver cb) (cq r k) s, k') \<and> cq r k' = []"
proof (induction "cq r k" arbitrary: k n s)
  case Nil
  obtain ret c k' where p: "peek_cqe U r k = (ret, c, k')" by (cases "peek_cqe U r k")
  then have "cq r k' = [] \<and> ret < 0" using assms Nil by (auto simp: uring_completions_def)
  then show ?case
    using p Nil by (subst reap_drain.simps) (auto split: option.splits)
next
  case (Cons e es)
  obtain ret c k' where p: "peek_cqe U r k = (ret, c, k')" by (cases "peek_cqe U r k")
  then have c: "cq r k' = cq r k" "ret = 0" "c = Some e"
    using uring_peek_Cons [OF assms p Cons(2) [symmetric]] by simp_all
  have es: "es = cq r (cqe_seen U r k')"
    using assms Cons(2) c(1) by (metis list.sel(3) uring_completions_def)
  from Cons(1) [OF es, of "n + 1" "deliver cb e s"] Cons(2) [symmetric] c p es [symmetric]
  show ?case by (subst reap_drain.simps) (simp add: deliver_def add.assoc)
qed

text \<open>
  C16.  \<^verbatim>\<open>reap\<close> terminates, calls the callback exactly once for every completion in the queue, in
  order and with the token of its request, returns their number and leaves the queue empty.
  With \<^verbatim>\<open>wait\<close> it first blocks for one; if that fails it reports \<^verbatim>\<open>IoError\<close> and calls nothing.
\<close>

theorem reap_delivers_all:
  assumes "uring_completions U cq"
  shows "(\<exists>w'. AsyncClient_reap U c cb False s w =
      Some (Inr (int (length (cq (ac_ring c) (u_kern w)))),
            fold (deliver cb) (cq (ac_ring c) (u_kern w)) s, w') \<and>
      cq (ac_ring c) (u_kern w') = [] \<and> u_fds w' = u_fds w) \<and>
    (\<forall>ret e k. wait_cqe U (ac_ring c) (u_kern w) = (ret, e, k) \<longrightarrow>
      (if ret < 0 then AsyncClient_reap U c cb True s w = Some (Inl IoError, s, w\<lparr>u_kern := k\<rparr>)
       else \<exists>w'. AsyncClient_reap U c cb True s w =
         Some (Inr (int (length (cq (ac_ring c) k))), fold (deliver cb) (cq (ac_ring c) k) s, w') \<and>
         0 < length (cq (ac_ring c) k) \<and> cq (ac_ring c) (u_kern w') = [] \<and> u_fds w' = u_fds w))"
proof -
  let ?r = "ac_ring c"
  have nowait: "\<exists>w'. AsyncClient_reap U c cb False s w =
      Some (Inr (int (length (cq ?r (u_kern w)))), fold (deliver cb) (cq ?r (u_kern w)) s, w') \<and>
      cq ?r (u_kern w') = [] \<and> u_fds w' = u_fds w"
    using reap_drain_all [OF assms, of ?r cb 0 s "u_kern w"] by (auto simp: AsyncClient_reap_def)
  have wait: "\<exists>w'. AsyncClient_reap U c cb True s w =
         Some (Inr (int (length (cq ?r k))), fold (deliver cb) (cq ?r k) s, w') \<and>
         0 < length (cq ?r k) \<and> cq ?r (u_kern w') = [] \<and> u_fds w' = u_fds w"
    if w: "wait_cqe U ?r (u_kern w) = (ret, e, k)" "\<not> ret < 0" for ret e k
  proof -
    have ne: "cq ?r k \<noteq> []" "e = hd (cq ?r k)" "cq ?r (cqe_seen U ?r k) = tl (cq ?r k)"
      using assms w by (auto simp: uring_completions_def not_less)
    then obtain es where es: "cq ?r k = e # es" by (cases "cq ?r k") auto
    with ne(3) reap_drain_all [OF assms, of ?r cb 1 "deliver cb e s" "cqe_seen U ?r k"]
    show ?thesis using w by (auto simp: AsyncClient_reap_def deliver_def add.commute)
  qed
  have "AsyncClient_reap U c cb True s w = Some (Inl IoError, s, w\<lparr>u_kern := k\<rparr>)"
    if "wait_cqe U ?r (u_kern w) = (ret, e, k)" "ret < 0" for ret e k
    using that by (simp add: AsyncClient_reap_def)
  with nowait wait show ?thesis by auto
qed

text \<open>A ring whose kernel completes every entry at once, for the examples.\<close>

definition loop_uring :: "(sqe option \<times> cqe list) liburing" where
  "loop_uring =
     \<lparr>op_uring_cmd = 46,
      queue_init = (\<lambda>_ k. (0, 0, k)), queue_exit = (\<lambda>_ k. k),
      get_sqe = (\<lambda>_ k. (Some 0, k)), write_sqe = (\<lambda>_ _ e k. (Some e, snd k)),
      ring_submit = (\<lambda>_ k. case k of (None, cs) \<Rightarrow> (0, k)
         | (Some e, cs) \<Rightarrow> (1, None, cs @ [\<lparr>cqe_res = 0, cqe_user_data = sqe_user_data e\<rparr>])),
      wait_cqe = (\<lambda>_ k. case snd k of [] \<Rightarrow> (-4, \<lparr>cqe_res = 0, cqe_user_data = 0\<rparr>, k) | c # _ \<Rightarrow> (0, c, k)),
      peek_cqe = (\<lambda>_ k. case snd k of [] \<Rightarrow> (-11, None, k) | c # _ \<Rightarrow> (0, Some c, k)),
      cqe_seen = (\<lambda>_ k. (fst k, tl (snd k)))\<rparr>"

lemma loop_uring_completions: "uring_completions loop_uring (\<lambda>_. snd)"
  by (auto simp: uring_completions_def loop_uring_def split: list.splits)

definition loop_client :: AsyncClient where
  "loop_client = \<lparr>ac_ring = 0, ac_device_fd = 3, ac_initialized = True\<rparr>"

theorem reap_delivers_all_witness:
  "\<exists>w'. AsyncClient_reap loop_uring loop_client (\<lambda>t _ ts. ts @ [t]) False []
      \<lparr>u_fds = {3}, u_kern = (None, [\<lparr>cqe_res = 0, cqe_user_data = 8\<rparr>, \<lparr>cqe_res = -5, cqe_user_data = 9\<rparr>])\<rparr>
    = Some (Inr 2, [8, 9], w')"
  using reap_delivers_all [OF loop_uring_completions, of loop_client "\<lambda>t _ ts. ts @ [t]" "[]"
    "\<lparr>u_fds = {3}, u_kern = (None, [\<lparr>cqe_res = 0, cqe_user_data = 8\<rparr>, \<lparr>cqe_res = -5, cqe_user_data = 9\<rparr>])\<rparr>"]
  by (auto simp: deliver_def)

text \<open>What taking completions from a ring leaves alone is left alone by the drain loop.\<close>

definition uring_frame :: "'k liburing \<Rightarrow> nat \<Rightarrow> ('k \<Rightarrow> 'o) \<Rightarrow> bool" where
  "uring_frame U r obs \<longleftrightarrow>
     (\<forall>k ret c k'. peek_cqe U r k = (ret, c, k') \<longrightarrow> obs k' = obs k) \<and> (\<forall>k. obs (cqe_seen U r k) = obs k)"

lemma reap_drain_frame:
  assumes "reap_drain U r cb n s k = Some res" and "uring_frame U r obs"
  shows "obs (snd (snd res)) = obs k"
proof -
  have "uring_frame U r obs \<longrightarrow> obs (snd (snd res)) = obs k"
    using assms(1)
  proof (rule reap_drain.raw_induct [rotated, where P = "\<lambda>U r cb n s k res. uring_frame U r obs \<longrightarrow> obs (snd (snd res)) = obs k"])
    fix f U r cb n s k res
    assume IH: "\<And>U r cb n s k res. f U r cb n s k = Some res \<Longrightarrow> uring_frame U r obs \<longrightarrow> obs (snd (snd res)) = obs k"
      and body: "(case peek_cqe U r k of (ret, None, k) \<Rightarrow> Some (n, s, k)
        | (ret, Some e, k) \<Rightarrow> if ret \<noteq> 0 then Some (n, s, k)
            else f U r cb (n + 1) (cb (cqe_user_data e) (completion_result e) s) (cqe_seen U r k)) = Some res"
    obtain ret c k' where p: "peek_cqe U r k = (ret, c, k')" by (cases "peek_cqe U r k")
    then show "uring_frame U r obs \<longrightarrow> obs (snd (snd res)) = obs k"
      using IH body by (auto simp: uring_frame_def split: option.splits if_splits)
  qed
  then show ?thesis using assms(2) by simp
qed

lemma fold_deliver_last:
  "cs \<noteq> [] \<Longrightarrow> fold (deliver (\<lambda>_ r _. r)) cs x = completion_result (last cs)"
  by (induction cs arbitrary: x) (auto simp: deliver_def)

lemma submit_and_wait_reaps:
  assumes "uring_completions U cq" and "AsyncClient_submit U c req 0 w = (Inr u, w1)"
    and "wait_cqe U (ac_ring c) (u_kern w1) = (ret, e, k)" and "\<not> ret < 0"
  shows "\<exists>w'. submit_and_wait U c req w = Some (completion_result (last (cq (ac_ring c) k)), w') \<and>
    cq (ac_ring c) (u_kern w') = [] \<and>
    (\<forall>obs :: _ \<Rightarrow> 'o. uring_frame U (ac_ring c) obs \<longrightarrow> obs (u_kern w') = obs k)"
proof -
  let ?r = "ac_ring c" and ?cb = "\<lambda>_ r _. r"
  have seen: "cq ?r k \<noteq> []" "e = hd (cq ?r k)" "cq ?r (cqe_seen U ?r k) = tl (cq ?r k)"
    using assms(1,3,4) by (auto simp: uring_completions_def not_less)
  obtain k' where d: "reap_drain U ?r ?cb 1 (completion_result e) (cqe_seen U ?r k) =
      Some (1 + int (length (tl (cq ?r k))), fold (deliver ?cb) (tl (cq ?r k)) (completion_result e), k')" "cq ?r k' = []"
    using reap_drain_all [OF assms(1), of ?r ?cb 1 "completion_result e" "cqe_seen U ?r k"] seen(3) by auto
  have "fold (deliver ?cb) (tl (cq ?r k)) (completion_result e) = completion_result (last (cq ?r k))"
    using seen fold_deliver_last [of "tl (cq ?r k)"] by (cases "cq ?r k") auto
  then have "submit_and_wait U c req w = Some (completion_result (last (cq ?r k)), w1\<lparr>u_kern := k'\<rparr>)"
    using assms(2-4) d by (simp add: submit_and_wait_def AsyncClient_reap_def)
  moreover have "obs k' = obs k" if "uring_frame U ?r obs" for obs :: "_ \<Rightarrow> 'o"
    using reap_drain_frame [OF d(1) that] that by (simp add: uring_frame_def)
  ultimately show ?thesis using d(2) by (intro exI [of _ "w1\<lparr>u_kern := k'\<rparr>"]) simp
qed

lemma AsyncClient_submit_error: "AsyncClient_submit U c req user_data w = (Inl e, w1) \<Longrightarrow> e = SubmitFailed"
  by (auto simp: AsyncClient_submit_def Let_def split: prod.splits option.splits if_splits)

text \<open>
  C33.  \<^verbatim>\<open>submit_and_wait\<close> terminates.  It returns the submission error, \<^verbatim>\<open>IoError\<close> if waiting
  failed, and otherwise the outcome of the last completion in the queue, whatever request
  that belongs to: only on a client with no other request in flight is it the outcome of
  the request submitted.
\<close>

theorem submit_and_wait_result:
  assumes "uring_completions U cq"
  shows "case AsyncClient_submit U c req 0 w of
      (Inl e, w1) \<Rightarrow> submit_and_wait U c req w = Some (Inl e, w1) \<and> e = SubmitFailed
    | (Inr _, w1) \<Rightarrow>
        (case wait_cqe U (ac_ring c) (u_kern w1) of
           (ret, e, k) \<Rightarrow>
             if ret < 0 then submit_and_wait U c req w = Some (Inl IoError, w1\<lparr>u_kern := k\<rparr>)
             else \<exists>w'. submit_and_wait U c req w =
               Some (completion_result (last (cq (ac_ring c) k)), w') \<and> cq (ac_ring c) (u_kern w') = [])"
proof (cases "AsyncClient_submit U c req 0 w")
  case (Pair r w1)
  obtain ret e k where w: "wait_cqe U (ac_ring c) (u_kern w1) = (ret, e, k)"
    by (cases "wait_cqe U (ac_ring c) (u_kern w1)")
  show ?thesis
  proof (cases r)
    case (Inl e)
    then show ?thesis
      using Pair AsyncClient_submit_error by (auto simp: submit_and_wait_def)
  next
    case (Inr u)
    then show ?thesis
      using Pair w submit_and_wait_reaps [OF assms, of c req w u w1 ret e k]
      by (auto simp: submit_and_wait_def AsyncClient_reap_def)
  qed
qed

theorem submit_and_wait_result_witness:
  "\<exists>w'. submit_and_wait loop_uring loop_client 0x1000 \<lparr>u_fds = {3}, u_kern = (None, [])\<rparr> =
     Some (Inr \<lparr>res_status = 0, result_lo = 0, result_hi = 0, res_pad = 0\<rparr>, w')"
  using submit_and_wait_result [OF loop_uring_completions, of loop_client "0x1000"
    "\<lparr>u_fds = {3}, u_kern = (None, [])\<rparr>"]
  by (auto simp: AsyncClient_submit_def loop_uring_def loop_client_def completion_result_def)

end
