(* ===== verification/Device_Pool.thy ===== *)
theory Device_Pool
  imports Userlib "HOL-Library.Multiset"
begin

text \<open>
  The device pool (\<^verbatim>\<open>runtime/appframework\<close>, \<^verbatim>\<open>device_pool.hpp\<close> and \<^verbatim>\<open>.cpp\<close>): a vector of
  opened devices with their clients, lent out through move-only RAII guards.  An \<^verbatim>\<open>Entry*\<close> is
  the index of the entry (the vector is never resized after construction).  The interface
  the session manager relies on is the locale \<open>resource_pool\<close>.
\<close>

subsection \<open>Entries and their construction\<close>

record pool_Entry =
  en_device :: DeepspanDevice
  en_client :: AsyncClient
  en_in_use :: bool

text \<open>An entry destroys its members in reverse order of declaration.\<close>

definition Entry_destroy :: "'k liburing \<Rightarrow> pool_Entry \<Rightarrow> 'k uworld \<Rightarrow> 'k uworld" where
  "Entry_destroy U e w = DeepspanDevice_destroy (en_device e) (AsyncClient_destroy U (en_client e) w)"

definition entries_destroy :: "'k liburing \<Rightarrow> pool_Entry list \<Rightarrow> 'k uworld \<Rightarrow> 'k uworld" where
  "entries_destroy U es w = fold (Entry_destroy U) es w"

text \<open>
  The loop of \<^verbatim>\<open>create\<close>.  An early return destroys the device just opened, if any, and then
  the entries built so far.
\<close>

fun pool_create_loop ::
    "'k usys \<Rightarrow> 'k liburing \<Rightarrow> u32 \<Rightarrow> string list \<Rightarrow> pool_Entry list \<Rightarrow> 'k uworld \<Rightarrow>
     (ul_Error + pool_Entry list) \<times> 'k uworld" where
  "pool_create_loop y U depth [] es w = (Inr es, w)"
| "pool_create_loop y U depth (path # paths) es w =
     (case DeepspanDevice_open y path w of
        (Inl e, w) \<Rightarrow> (Inl e, entries_destroy U es w)
      | (Inr d, w) \<Rightarrow>
          (case AsyncClient_create U d depth w of
             (Inl e, w) \<Rightarrow> (Inl e, entries_destroy U es (DeepspanDevice_destroy d w))
           | (Inr c, w) \<Rightarrow>
               let (d', d) = DeepspanDevice_move d; (c', c) = AsyncClient_move c;
                   e = \<lparr>en_device = d', en_client = c', en_in_use = False\<rparr>;
                   w = DeepspanDevice_destroy d (AsyncClient_destroy U c w)
               in pool_create_loop y U depth paths (es @ [e]) w))"

definition DevicePool_create ::
    "'k usys \<Rightarrow> 'k liburing \<Rightarrow> string list \<Rightarrow> u32 \<Rightarrow> 'k uworld \<Rightarrow>
     (ul_Error + pool_Entry list) \<times> 'k uworld" where
  "DevicePool_create y U device_paths uring_queue_depth w =
     pool_create_loop y U uring_queue_depth device_paths [] w"

subsection \<open>Guards, acquire and release\<close>

record pool_Guard =
  g_pool :: bool
  g_entry :: "nat option"

definition Guard_default :: pool_Guard where
  "Guard_default = \<lparr>g_pool = False, g_entry = None\<rparr>"

fun find_idle :: "pool_Entry list \<Rightarrow> nat option" where
  "find_idle [] = None"
| "find_idle (e # es) = (if \<not> en_in_use e then Some 0 else map_option Suc (find_idle es))"

definition pool_set_use :: "nat \<Rightarrow> bool \<Rightarrow> pool_Entry list \<Rightarrow> pool_Entry list" where
  "pool_set_use i b p = p[i := (p ! i)\<lparr>en_in_use := b\<rparr>]"

definition pool_acquire :: "pool_Entry list \<Rightarrow> (ul_Error + pool_Guard) \<times> pool_Entry list" where
  "pool_acquire p =
     (case find_idle p of
        Some i \<Rightarrow> (Inr \<lparr>g_pool = True, g_entry = Some i\<rparr>, pool_set_use i True p)
      | None \<Rightarrow> (Inl DeviceOpenFailed, p))"

definition pool_release :: "nat option \<Rightarrow> pool_Entry list \<Rightarrow> pool_Entry list" where
  "pool_release entry p = (case entry of Some i \<Rightarrow> pool_set_use i False p | None \<Rightarrow> p)"

definition pool_size :: "pool_Entry list \<Rightarrow> nat" where
  "pool_size p = length p"

fun pool_in_use :: "pool_Entry list \<Rightarrow> nat" where
  "pool_in_use [] = 0"
| "pool_in_use (e # es) = (if en_in_use e then 1 else 0) + pool_in_use es"

definition Guard_valid :: "pool_Guard \<Rightarrow> bool" where
  "Guard_valid g \<longleftrightarrow> g_entry g \<noteq> None"

definition Guard_destroy :: "pool_Guard \<Rightarrow> pool_Entry list \<Rightarrow> pool_Entry list" where
  "Guard_destroy g p = (if g_pool g \<and> g_entry g \<noteq> None then pool_release (g_entry g) p else p)"

definition Guard_move :: "pool_Guard \<Rightarrow> pool_Guard \<times> pool_Guard" where
  "Guard_move other = (\<lparr>g_pool = g_pool other, g_entry = g_entry other\<rparr>, Guard_default)"

definition Guard_assign ::
    "bool \<Rightarrow> pool_Guard \<Rightarrow> pool_Guard \<Rightarrow> pool_Entry list \<Rightarrow> pool_Guard \<times> pool_Guard \<times> pool_Entry list" where
  "Guard_assign same this other p =
     (if same then (this, other, p)
      else
        let p = (if g_pool this \<and> g_entry this \<noteq> None then pool_release (g_entry this) p else p)
        in (\<lparr>g_pool = g_pool other, g_entry = g_entry other\<rparr>, Guard_default, p))"

subsection \<open>Lemmas on acquire and release\<close>

definition held :: "pool_Entry list \<Rightarrow> nat set" where
  "held p = {i. i < length p \<and> en_in_use (p ! i)}"

lemma held_bound: "held p \<subseteq> {..<length p}"
  by (auto simp: held_def)

lemma finite_held [simp]: "finite (held p)"
  using finite_subset [OF held_bound] by blast

lemma find_idle_Some: "find_idle p = Some i \<Longrightarrow> i < length p \<and> \<not> en_in_use (p ! i) \<and> (\<forall>j<i. en_in_use (p ! j))"
  by (induction p arbitrary: i) (auto simp: less_Suc_eq_0_disj split: if_splits)

lemma find_idle_None: "find_idle p = None \<longleftrightarrow> held p = {..<length p}"
proof -
  have "find_idle p = None \<longleftrightarrow> (\<forall>e \<in> set p. en_in_use e)" by (induction p) auto
  also have "\<dots> \<longleftrightarrow> held p = {..<length p}" by (auto simp: held_def all_set_conv_all_nth)
  finally show ?thesis .
qed

lemma pool_in_use_card: "pool_in_use p = card (held p)"
proof (induction p)
  case (Cons e p)
  have "held (e # p) = (if en_in_use e then {0} else {}) \<union> Suc ` held p"
    by (auto simp: held_def less_Suc_eq_0_disj)
  then show ?case using Cons by (auto simp: card_image)
qed (simp add: held_def)

lemma length_set_use [simp]: "length (pool_set_use i b p) = length p"
  by (simp add: pool_set_use_def)

lemma length_release [simp]: "length (pool_release e p) = length p"
  by (simp add: pool_release_def split: option.splits)

lemma held_set_use: "i < length p \<Longrightarrow> held (pool_set_use i b p) = (if b then insert i (held p) else held p - {i})"
  by (auto simp: held_def pool_set_use_def nth_list_update)

lemma held_release: "held (pool_release (Some i) p) = held p - {i}"
proof (cases "i < length p")
  case True
  then show ?thesis by (simp add: pool_release_def held_set_use)
next
  case False
  then show ?thesis by (auto simp: pool_release_def pool_set_use_def held_def)
qed

text \<open>What a client may rely on, without knowing entries and guards.\<close>

locale resource_pool =
  fixes acquire :: "'p \<Rightarrow> ('e + nat) \<times> 'p"
    and release :: "nat \<Rightarrow> 'p \<Rightarrow> 'p"
    and busy :: "'p \<Rightarrow> nat set"
    and capacity :: "'p \<Rightarrow> nat"
  assumes acquire_ok:
      "acquire p = (Inr i, p') \<Longrightarrow> i \<notin> busy p \<and> busy p' = insert i (busy p) \<and> capacity p' = capacity p"
    and acquire_full: "acquire p = (Inl e, p') \<Longrightarrow> p' = p \<and> busy p = {..<capacity p}"
    and acquire_progress: "busy p \<noteq> {..<capacity p} \<Longrightarrow> \<exists>i p'. acquire p = (Inr i, p')"
    and release_busy: "busy (release i p) = busy p - {i}"
    and release_capacity: "capacity (release i p) = capacity p"
    and busy_bound: "busy p \<subseteq> {..<capacity p}"
begin

lemma acquire_release: "acquire p = (Inr i, p') \<Longrightarrow> busy (release i p') = busy p"
  using acquire_ok release_busy by fastforce

lemma busy_card: "card (busy p) \<le> capacity p"
  using card_mono [OF finite_lessThan busy_bound [of p]] by simp

lemma acquire_fails_iff: "(\<exists>e p'. acquire p = (Inl e, p')) \<longleftrightarrow> card (busy p) = capacity p"
proof
  assume "\<exists>e p'. acquire p = (Inl e, p')"
  then show "card (busy p) = capacity p" using acquire_full by fastforce
next
  assume "card (busy p) = capacity p"
  then have "busy p = {..<capacity p}" using busy_bound [of p] by (simp add: card_subset_eq)
  then have "\<not> (\<exists>i p'. acquire p = (Inr i, p'))"
    using acquire_ok busy_bound by (metis insert_subset)
  then show "\<exists>e p'. acquire p = (Inl e, p')" by (metis surj_pair sum.exhaust)
qed

end

definition acquire_slot :: "pool_Entry list \<Rightarrow> (ul_Error + nat) \<times> pool_Entry list" where
  "acquire_slot p = (case pool_acquire p of (Inl e, p) \<Rightarrow> (Inl e, p) | (Inr g, p) \<Rightarrow> (Inr (the (g_entry g)), p))"

interpretation dp: resource_pool acquire_slot "\<lambda>i. pool_release (Some i)" held length
proof
  show "i \<notin> held p \<and> held p' = insert i (held p) \<and> length p' = length p"
    if "acquire_slot p = (Inr i, p')" for p i p'
    using that find_idle_Some [of p i]
    by (auto simp: acquire_slot_def pool_acquire_def held_set_use split: option.splits) (simp add: held_def)
  show "p' = p \<and> held p = {..<length p}" if "acquire_slot p = (Inl e, p')" for p e p'
    using that find_idle_None [of p] by (auto simp: acquire_slot_def pool_acquire_def split: option.splits)
  show "\<exists>i p'. acquire_slot p = (Inr i, p')" if "held p \<noteq> {..<length p}" for p
    using that find_idle_None [of p] by (auto simp: acquire_slot_def pool_acquire_def split: option.splits)
qed (simp_all add: held_release held_bound)

subsection \<open>Guards in use by many threads\<close>

text \<open>
  The pool with the guards that exist, in any thread, as a multiset.  Every operation on the
  pool is one critical section.
\<close>

inductive pool_step :: "pool_Entry list \<times> pool_Guard multiset \<Rightarrow> pool_Entry list \<times> pool_Guard multiset \<Rightarrow> bool" where
  acquire: "pool_acquire p = (Inr g, p') \<Longrightarrow> pool_step (p, M) (p', add_mset g M)"
| acquire_fails: "pool_acquire p = (Inl e, p') \<Longrightarrow> pool_step (p, M) (p', M)"
| create_default: "pool_step (p, M) (p, add_mset Guard_default M)"
| destroy: "pool_step (p, add_mset g M) (Guard_destroy g p, M)"
| move: "Guard_move g = (g1, g2) \<Longrightarrow> pool_step (p, add_mset g M) (p, add_mset g1 (add_mset g2 M))"
| assign: "Guard_assign False g h p = (g1, h1, p') \<Longrightarrow>
    pool_step (p, add_mset g (add_mset h M)) (p', add_mset g1 (add_mset h1 M))"
| self_assign: "Guard_assign True g g p = (g1, g1, p') \<Longrightarrow> pool_step (p, add_mset g M) (p', add_mset g1 M)"

definition pool_reach :: "pool_Entry list \<Rightarrow> pool_Entry list \<times> pool_Guard multiset \<Rightarrow> bool" where
  "pool_reach p0 = reachable (\<lambda>s. s = (p0, {#})) pool_step"

lemma pool_reach_start: "pool_reach p0 (p0, {#})"
  by (simp add: pool_reach_def reachable_start)

lemma pool_reach_step: "pool_reach p0 s \<Longrightarrow> pool_step s s' \<Longrightarrow> pool_reach p0 s'"
  unfolding pool_reach_def by (rule reachable_step)

fun slot_mset_of :: "nat option \<Rightarrow> nat multiset" where
  "slot_mset_of None = {#}"
| "slot_mset_of (Some i) = {#i#}"

definition slots :: "pool_Guard multiset \<Rightarrow> nat multiset" where
  "slots M = sum_mset (image_mset (\<lambda>g. slot_mset_of (g_entry g)) M)"

lemma slots_simps [simp]:
  "slots {#} = {#}" "slots (add_mset g M) = slot_mset_of (g_entry g) + slots M"
  by (simp_all add: slots_def)

text \<open>A guard has both pointers or none; the guards hold exactly the entries in use.\<close>

definition pool_inv :: "pool_Entry list \<times> pool_Guard multiset \<Rightarrow> bool" where
  "pool_inv s \<longleftrightarrow> (case s of (p, M) \<Rightarrow>
     (\<forall>g \<in># M. g_pool g \<longleftrightarrow> g_entry g \<noteq> None) \<and> slots M = mset_set (held p))"

lemma guard_destroy_slots:
  assumes "g_pool g \<longleftrightarrow> g_entry g \<noteq> None" and "slot_mset_of (g_entry g) + N = mset_set (held p)"
  shows "N = mset_set (held (Guard_destroy g p))"
proof (cases "g_entry g")
  case (Some i)
  with assms have N: "add_mset i N = mset_set (held p)" by simp
  then have i: "i \<in> held p" by (metis finite_held finite_set_mset_mset_set union_single_eq_member)
  then have "mset_set (held p) = add_mset i (mset_set (held p - {i}))"
    by (simp add: mset_set.remove)
  with N have "N = mset_set (held p - {i})" by simp
  then show ?thesis using assms(1) Some by (simp add: Guard_destroy_def held_release)
qed (use assms in \<open>simp add: Guard_destroy_def\<close>)

lemma guard_destroy_length [simp]: "length (Guard_destroy g p) = length p"
  by (simp add: Guard_destroy_def)

lemma pool_acquire_length: "pool_acquire p = (r, p') \<Longrightarrow> length p' = length p"
  by (auto simp: pool_acquire_def split: option.splits)

lemma pool_step_inv: "pool_step s s' \<Longrightarrow> pool_inv s \<Longrightarrow> pool_inv s' \<and> length (fst s') = length (fst s)"
proof (induction rule: pool_step.induct)
  case (acquire p g p' M)
  then obtain i where i: "find_idle p = Some i" "g = \<lparr>g_pool = True, g_entry = Some i\<rparr>" "p' = pool_set_use i True p"
    by (auto simp: pool_acquire_def split: option.splits)
  then have "i < length p" "i \<notin> held p" using find_idle_Some [of p i] by (auto simp: held_def)
  then show ?case using acquire i by (simp add: pool_inv_def held_set_use)
next
  case (destroy p g M)
  then have "slots M = mset_set (held (Guard_destroy g p))"
    by (intro guard_destroy_slots) (auto simp: pool_inv_def)
  with destroy show ?case by (simp add: pool_inv_def)
next
  case (assign g h p g1 h1 p' M)
  then have eq: "p' = Guard_destroy g p" "g_entry g1 = g_entry h" "g_pool g1 = g_pool h" "h1 = Guard_default"
    by (auto simp: Guard_assign_def Guard_destroy_def Let_def)
  have "slots (add_mset h M) = mset_set (held (Guard_destroy g p))"
    using assign by (intro guard_destroy_slots) (auto simp: pool_inv_def)
  with assign eq show ?case by (auto simp: pool_inv_def Guard_default_def)
qed (auto simp: pool_inv_def Guard_default_def Guard_move_def Guard_assign_def pool_acquire_def
    split: option.splits)

interpretation pm: invariant_machine "\<lambda>s. s = (p0, {#})" pool_step
    "\<lambda>s. held p0 = {} \<longrightarrow> pool_inv s \<and> length (fst s) = length p0" for p0
  by unfold_locales (use pool_step_inv in \<open>auto simp: pool_inv_def\<close>)

lemma pool_reach_inv: "held p0 = {} \<Longrightarrow> pool_reach p0 s \<Longrightarrow> pool_inv s \<and> length (fst s) = length p0"
  unfolding pool_reach_def using pm.reachable_inv by blast

lemma size_slots: "size (slots M) = size (filter_mset Guard_valid M)"
proof (induction M)
  case (add g M)
  then show ?case by (cases "g_entry g") (simp_all add: Guard_valid_def)
qed simp

text \<open>
  C12.  In every state the guards of a pool can reach, through any interleaving of acquiring,
  moving, assigning and destroying them: no entry is lent to two guards, the number in use
  is the number of valid guards, \<^verbatim>\<open>acquire\<close> fails exactly when the pool is exhausted, and
  otherwise lends the first entry that no guard holds.
\<close>

theorem guards_exclusive:
  assumes "held p0 = {}" and "pool_reach p0 (p, M)"
  shows "(\<forall>i. count (slots M) i \<le> 1) \<and>
    pool_in_use p = size (filter_mset Guard_valid M) \<and> pool_size p = pool_size p0 \<and>
    ((\<exists>e p'. pool_acquire p = (Inl e, p')) \<longleftrightarrow> pool_in_use p = pool_size p) \<and>
    (\<forall>g p'. pool_acquire p = (Inr g, p') \<longrightarrow>
       (\<exists>i < pool_size p. g_entry g = Some i \<and> i \<notin># slots M \<and> (\<forall>j < i. j \<in># slots M)))"
proof -
  have inv: "slots M = mset_set (held p)" "length p = length p0"
    using pool_reach_inv [OF assms] by (simp_all add: pool_inv_def)
  have "pool_in_use p = size (filter_mset Guard_valid M)"
    by (metis inv(1) pool_in_use_card size_mset_set size_slots)
  moreover have "(\<exists>e p'. pool_acquire p = (Inl e, p')) \<longleftrightarrow> pool_in_use p = pool_size p"
  proof -
    have "(\<exists>e p'. pool_acquire p = (Inl e, p')) \<longleftrightarrow> (\<exists>e p'. acquire_slot p = (Inl e, p'))"
      by (auto simp: acquire_slot_def pool_acquire_def split: option.splits)
    then show ?thesis by (simp add: dp.acquire_fails_iff pool_in_use_card pool_size_def)
  qed
  moreover have "\<exists>i < pool_size p. g_entry g = Some i \<and> i \<notin># slots M \<and> (\<forall>j < i. j \<in># slots M)"
    if "pool_acquire p = (Inr g, p')" for g p'
    using that find_idle_Some [of p]
    by (auto simp: pool_acquire_def inv pool_size_def held_def split: option.splits)
  ultimately show ?thesis using inv by (simp add: pool_size_def count_mset_set')
qed

definition example_entry :: pool_Entry where
  "example_entry =
     \<lparr>en_device = \<lparr>dev_fd = 3, kernel_uapi_version = 1\<rparr>, en_client = loop_client, en_in_use = False\<rparr>"

theorem guards_exclusive_witness:
  "let p = [example_entry\<lparr>en_in_use := True\<rparr>, example_entry] in
   pool_in_use p = size (filter_mset Guard_valid {#\<lparr>g_pool = True, g_entry = Some 0\<rparr>#})"
proof -
  let ?init = "[example_entry, example_entry]"
  let ?g = "\<lparr>g_pool = True, g_entry = Some 0\<rparr>"
  let ?p = "[example_entry\<lparr>en_in_use := True\<rparr>, example_entry]"
  have acq: "pool_acquire ?init = (Inr ?g, ?p)"
    by (simp add: pool_acquire_def, simp add: pool_set_use_def, simp add: example_entry_def)
  have reach: "pool_reach ?init (?p, {#?g#})"
    by (rule pool_reach_step [OF pool_reach_start]) (rule pool_step.acquire [OF acq])
  have "held ?init = {}"
    by (auto simp: held_def example_entry_def nth_Cons' split: if_splits)
  from guards_exclusive [OF this reach] show ?thesis by (simp add: Let_def)
qed

subsection \<open>Creating a pool\<close>

text \<open>The descriptors and rings of the entries, over those of the world before.\<close>

definition owns :: "('k \<Rightarrow> nat set) \<Rightarrow> pool_Entry list \<Rightarrow> 'k uworld \<Rightarrow> 'k uworld \<Rightarrow> bool" where
  "owns live es w0 w \<longleftrightarrow>
     u_fds w = u_fds w0 \<union> (\<lambda>e. dev_fd (en_device e)) ` set es \<and>
     live (u_kern w) = live (u_kern w0) \<union> (\<lambda>e. ac_ring (en_client e)) ` set es \<and>
     (\<forall>e \<in> set es. dev_fd (en_device e) \<ge> 0 \<and> dev_fd (en_device e) \<notin> u_fds w0 \<and>
        ac_initialized (en_client e) \<and> ac_ring (en_client e) \<notin> live (u_kern w0) \<and>
        ac_device_fd (en_client e) = dev_fd (en_device e) \<and> \<not> en_in_use e)"

lemma entries_destroy_fds:
  "\<forall>e \<in> set es. dev_fd (en_device e) \<ge> 0 \<Longrightarrow>
   u_fds (entries_destroy U es w) = u_fds w - (\<lambda>e. dev_fd (en_device e)) ` set es"
proof (induction es arbitrary: w)
  case (Cons e es)
  then show ?case
    by (auto simp: entries_destroy_def Entry_destroy_def DeepspanDevice_destroy_def u_close_def
        AsyncClient_destroy_def ring_exit_def)
qed (simp add: entries_destroy_def)

lemma entries_destroy_live:
  assumes "uring_resources U live"
  shows "\<forall>e \<in> set es. ac_initialized (en_client e) \<Longrightarrow>
   live (u_kern (entries_destroy U es w)) = live (u_kern w) - (\<lambda>e. ac_ring (en_client e)) ` set es"
proof (induction es arbitrary: w)
  case (Cons e es)
  have "live (u_kern (Entry_destroy U e w)) = live (u_kern w) - {ac_ring (en_client e)}"
    using Cons.prems assms
    by (simp add: Entry_destroy_def DeepspanDevice_destroy_def u_close_def AsyncClient_destroy_def
        ring_exit_def uring_resources_def)
  then show ?case using Cons by (auto simp: entries_destroy_def)
qed (simp add: entries_destroy_def)

lemma owns_destroy:
  assumes "uring_resources U live" and "owns live es w0 w"
  shows "u_fds (entries_destroy U es w) = u_fds w0 \<and>
    live (u_kern (entries_destroy U es w)) = live (u_kern w0)"
proof -
  have "u_fds (entries_destroy U es w) = u_fds w - (\<lambda>e. dev_fd (en_device e)) ` set es"
    using assms(2) by (intro entries_destroy_fds) (simp add: owns_def)
  moreover have "live (u_kern (entries_destroy U es w)) =
      live (u_kern w) - (\<lambda>e. ac_ring (en_client e)) ` set es"
    using assms by (intro entries_destroy_live) (simp_all add: owns_def)
  ultimately show ?thesis using assms(2) by (auto simp: owns_def)
qed

lemma device_open_cases:
  assumes "usys_fresh y" and "DeepspanDevice_open y path w = (r, w1)"
  shows "case r of Inl e \<Rightarrow> w1 = w
    | Inr d \<Rightarrow> dev_fd d \<ge> 0 \<and> dev_fd d \<notin> u_fds w \<and> w1 = w\<lparr>u_fds := insert (dev_fd d) (u_fds w)\<rparr> \<and>
        DEEPSPAN_UAPI_VERSION_MIN \<le> kernel_uapi_version d"
  using assms
  by (auto simp: DeepspanDevice_open_def u_open_def u_close_def usys_fresh_def Let_def not_less
      split: if_splits prod.splits)

lemma client_create_cases:
  assumes "uring_resources U live" and "AsyncClient_create U d depth w = (r, w1)" and "dev_fd d \<ge> 0"
  shows "u_fds w1 = u_fds w \<and> (case r of Inl e \<Rightarrow> live (u_kern w1) = live (u_kern w)
    | Inr c \<Rightarrow> ac_initialized c \<and> ac_device_fd c = dev_fd d \<and> ac_ring c \<notin> live (u_kern w) \<and>
        live (u_kern w1) = insert (ac_ring c) (live (u_kern w)))"
proof -
  obtain ret ring k where q: "queue_init U depth (u_kern w) = (ret, ring, k)"
    by (cases "queue_init U depth (u_kern w)")
  have "if ret < 0 then live k = live (u_kern w)
      else ring \<notin> live (u_kern w) \<and> live k = insert ring (live (u_kern w))"
    using assms(1) q by (simp add: uring_resources_def)
  then show ?thesis using assms(2,3) q by (auto simp: AsyncClient_create_def split: if_splits)
qed

lemma pool_create_loop_owns:
  assumes y: "usys_fresh y" and U: "uring_resources U live"
  shows "owns live es w0 w \<Longrightarrow> pool_create_loop y U depth paths es w = (r, w') \<Longrightarrow>
    case r of
      Inl e \<Rightarrow> u_fds w' = u_fds w0 \<and> live (u_kern w') = live (u_kern w0)
    | Inr es' \<Rightarrow> owns live es' w0 w' \<and> length es' = length es + length paths"
proof (induction paths arbitrary: es w)
  case (Cons path paths)
  obtain r1 w1 where op: "DeepspanDevice_open y path w = (r1, w1)" by fastforce
  note dev = device_open_cases [OF y op]
  show ?case
  proof (cases r1)
    case (Inl e)
    then show ?thesis using Cons.prems op dev owns_destroy [OF U Cons.prems(1)] by auto
  next
    case (Inr d)
    with dev have d: "dev_fd d \<ge> 0" "dev_fd d \<notin> u_fds w" "w1 = w\<lparr>u_fds := insert (dev_fd d) (u_fds w)\<rparr>"
      by simp_all
    obtain r2 w2 where cr: "AsyncClient_create U d depth w1 = (r2, w2)" by fastforce
    note cl = client_create_cases [OF U cr d(1)]
    show ?thesis
    proof (cases r2)
      case (Inl e)
      have "owns live es w0 (DeepspanDevice_destroy d w2)"
        using Cons.prems(1) d cl Inl
        by (auto simp: owns_def DeepspanDevice_destroy_def u_close_def)
      from owns_destroy [OF U this] show ?thesis using Cons.prems(2) op cr \<open>r1 = Inr d\<close> Inl by auto
    next
      case (Inr c)
      let ?e = "\<lparr>en_device = d, en_client = c, en_in_use = False\<rparr>"
      have "owns live (es @ [?e]) w0 w2"
        using Cons.prems(1) d cl Inr by (auto simp: owns_def)
      moreover have "pool_create_loop y U depth paths (es @ [?e]) w2 = (r, w')"
        using Cons.prems(2) op cr \<open>r1 = Inr d\<close> Inr
        by (simp add: DeepspanDevice_move_def AsyncClient_move_def DeepspanDevice_destroy_def
            AsyncClient_destroy_def ring_exit_def)
      ultimately show ?thesis using Cons.IH [of "es @ [?e]" w2] by (cases r) simp_all
    qed
  qed
qed auto


text \<open>Two devices, the second of which does not open.\<close>

definition example_usys :: "nat set usys" where
  "example_usys =
     \<lparr>open_ret = (\<lambda>path w. if path = ''/dev/hwip0'' \<and> 3 \<notin> u_fds w then 3 else -1),
      ioctl_version = (\<lambda>_ _. (0, 1)), ioctl_submit = (\<lambda>_ _ w. (0, u_kern w))\<rparr>"

definition example_rings :: "nat set liburing" where
  "example_rings =
     \<lparr>op_uring_cmd = 46, queue_init = (\<lambda>_ k. if 7 \<in> k then (-12, 7, k) else (0, 7, insert 7 k)),
      queue_exit = (\<lambda>r k. k - {r}), get_sqe = (\<lambda>_ k. (None, k)), write_sqe = (\<lambda>_ _ _ k. k),
      ring_submit = (\<lambda>_ k. (0, k)), wait_cqe = (\<lambda>_ k. (-4, \<lparr>cqe_res = 0, cqe_user_data = 0\<rparr>, k)),
      peek_cqe = (\<lambda>_ k. (-11, None, k)), cqe_seen = (\<lambda>_ k. k)\<rparr>"


end
