(* ===== verification/Circuit_Breaker.thy ===== *)
theory Circuit_Breaker
  imports Prelude "HOL-Library.Sublist"
begin

text \<open>
  The circuit breaker (\<^verbatim>\<open>runtime/appframework\<close>, \<^verbatim>\<open>circuit_breaker.hpp\<close> and \<^verbatim>\<open>.cpp\<close>).  A call
  has two critical sections with the guarded function between them, outside the lock; they
  are separate operations here (\<open>cb_admit\<close>, \<open>cb_finish\<close>), composed by \<open>CircuitBreaker_call\<close>
  for one thread and interleaved freely by the step relation \<open>cb_step\<close> for many.  Counters
  are 32-bit words; clock readings are integers in nanoseconds.
\<close>

subsection \<open>State and operations\<close>

datatype cb_State = Closed | Open | HalfOpen

record cb_Config =
  failure_threshold :: u32
  success_threshold :: u32
  open_duration :: int
  cb_name :: string

definition cb_Config_default :: cb_Config where
  "cb_Config_default = \<lparr>failure_threshold = 5, success_threshold = 2, open_duration = 5000, cb_name = []\<rparr>"

record CircuitBreaker =
  cb_cfg :: cb_Config
  cb_state :: cb_State
  failure_count :: u32
  success_count :: u32
  opened_at :: int

definition CircuitBreaker_new :: "cb_Config \<Rightarrow> CircuitBreaker" where
  "CircuitBreaker_new cfg =
     \<lparr>cb_cfg = cfg, cb_state = Closed, failure_count = 0, success_count = 0, opened_at = 0\<rparr>"

text \<open>\<^verbatim>\<open>open_duration\<close> is in milliseconds, the clock in nanoseconds; the comparison is made in
  the finer unit.\<close>

definition open_elapsed :: "CircuitBreaker \<Rightarrow> int \<Rightarrow> bool" where
  "open_elapsed cb now \<longleftrightarrow> now - opened_at cb \<ge> open_duration (cb_cfg cb) * 1000000"

text \<open>The first critical section: whether the call may run.\<close>

definition cb_admit :: "int \<Rightarrow> CircuitBreaker \<Rightarrow> bool \<times> CircuitBreaker" where
  "cb_admit now cb =
     (if cb_state cb = Open then
        if open_elapsed cb now then (True, cb\<lparr>cb_state := HalfOpen, failure_count := 0\<rparr>)
        else (False, cb)
      else (True, cb))"

definition record_success :: "CircuitBreaker \<Rightarrow> CircuitBreaker" where
  "record_success cb =
     (if cb_state cb = HalfOpen then
        let cb = cb\<lparr>success_count := success_count cb + 1\<rparr> in
        if success_count cb \<ge> success_threshold (cb_cfg cb)
        then cb\<lparr>cb_state := Closed, failure_count := 0, success_count := 0\<rparr>
        else cb
      else cb\<lparr>failure_count := 0, success_count := 0\<rparr>)"

definition record_failure :: "int \<Rightarrow> CircuitBreaker \<Rightarrow> CircuitBreaker" where
  "record_failure now cb =
     (let cb = cb\<lparr>failure_count := failure_count cb + 1, success_count := 0\<rparr> in
      if failure_count cb \<ge> failure_threshold (cb_cfg cb)
      then cb\<lparr>cb_state := Open, opened_at := now\<rparr>
      else cb)"

text \<open>The second critical section.\<close>

definition cb_finish :: "bool \<Rightarrow> int \<Rightarrow> CircuitBreaker \<Rightarrow> CircuitBreaker" where
  "cb_finish ok now cb = (if ok then record_success cb else record_failure now cb)"

text \<open>
  \<^verbatim>\<open>call\<close> for one thread: the guarded function works on a state of its own (a captured pool,
  a device) and may throw, in which case nothing is recorded.  \<open>t1\<close> and \<open>t2\<close> are the clock
  readings of the two sections.
\<close>

definition CircuitBreaker_call ::
    "int \<Rightarrow> int \<Rightarrow> ('s \<Rightarrow> (cxx_exn + bool) \<times> 's) \<Rightarrow> CircuitBreaker \<Rightarrow> 's \<Rightarrow>
     (cxx_exn + bool) \<times> CircuitBreaker \<times> 's" where
  "CircuitBreaker_call t1 t2 f cb s =
     (case cb_admit t1 cb of
        (False, cb) \<Rightarrow> (Inr False, cb, s)
      | (True, cb) \<Rightarrow>
          (case f s of
             (Inl e, s) \<Rightarrow> (Inl e, cb, s)
           | (Inr ok, s) \<Rightarrow> (Inr ok, cb_finish ok t2 cb, s)))"

definition CircuitBreaker_reset :: "CircuitBreaker \<Rightarrow> CircuitBreaker" where
  "CircuitBreaker_reset cb = cb\<lparr>cb_state := Closed, failure_count := 0, success_count := 0, opened_at := 0\<rparr>"

lemmas cb_ops = cb_admit_def cb_finish_def record_success_def record_failure_def
  CircuitBreaker_reset_def open_elapsed_def Let_def

lemma cb_cfg_kept [simp]:
  "cb_cfg (snd (cb_admit now cb)) = cb_cfg cb" "cb_cfg (cb_finish ok now cb) = cb_cfg cb"
  "cb_cfg (CircuitBreaker_reset cb) = cb_cfg cb"
  by (simp_all add: cb_ops)

subsection \<open>Many threads\<close>

text \<open>
  The breaker with the number of calls that are between their two critical sections.  A call
  may leave without a second section (the function threw).
\<close>

inductive cb_step :: "CircuitBreaker \<times> nat \<Rightarrow> CircuitBreaker \<times> nat \<Rightarrow> bool" where
  admit: "cb_admit now cb = (True, cb') \<Longrightarrow> cb_step (cb, n) (cb', Suc n)"
| reject: "cb_admit now cb = (False, cb') \<Longrightarrow> cb_step (cb, n) (cb', n)"
| finish: "cb_step (cb, Suc n) (cb_finish ok now cb, n)"
| throw: "cb_step (cb, Suc n) (cb, n)"
| reset: "cb_step (cb, n) (CircuitBreaker_reset cb, n)"

definition cb_reach :: "cb_Config \<Rightarrow> CircuitBreaker \<times> nat \<Rightarrow> bool" where
  "cb_reach cfg = reachable (\<lambda>c. c = (CircuitBreaker_new cfg, 0)) cb_step"

lemma cb_reach_start: "cb_reach cfg (CircuitBreaker_new cfg, 0)"
  by (simp add: cb_reach_def reachable_start)

lemma cb_reach_step: "cb_reach cfg c \<Longrightarrow> cb_step c c' \<Longrightarrow> cb_reach cfg c'"
  unfolding cb_reach_def by (rule reachable_step)

inductive_cases cb_stepE: "cb_step (cb, n) (cb', n')"

text \<open>
  Below a threshold a counter has not run over: the increment is exact (no wrap-around at 32
  bits) and the threshold test sees the true count.
\<close>

definition cb_inv :: "CircuitBreaker \<Rightarrow> bool" where
  "cb_inv cb \<longleftrightarrow>
     (cb_state cb \<noteq> HalfOpen \<longrightarrow> success_count cb = 0) \<and>
     (success_count cb = 0 \<or> success_count cb < success_threshold (cb_cfg cb)) \<and>
     (cb_state cb \<noteq> Open \<longrightarrow> failure_count cb = 0 \<or> failure_count cb < failure_threshold (cb_cfg cb))"

lemma cb_inv_new [simp]: "cb_inv (CircuitBreaker_new cfg)"
  by (simp add: cb_inv_def CircuitBreaker_new_def)

lemma cb_inv_admit: "cb_inv cb \<Longrightarrow> cb_inv (snd (cb_admit now cb))"
  by (auto simp: cb_inv_def cb_ops)

lemma cb_inv_finish: "cb_inv cb \<Longrightarrow> cb_inv (cb_finish ok now cb)"
  by (cases "cb_state cb") (auto simp: cb_inv_def cb_ops not_le)

lemma cb_inv_reset: "cb_inv (CircuitBreaker_reset cb)"
  by (simp add: cb_inv_def cb_ops)

lemma cb_step_keeps: "cb_step c c' \<Longrightarrow> cb_inv (fst c) \<Longrightarrow> cb_inv (fst c') \<and> cb_cfg (fst c') = cb_cfg (fst c)"
proof (induction rule: cb_step.induct)
  case (admit now cb cb' n)
  then show ?case using cb_inv_admit [of cb now] cb_cfg_kept(1) [of now cb] by simp
next
  case (reject now cb cb' n)
  then show ?case using cb_inv_admit [of cb now] cb_cfg_kept(1) [of now cb] by simp
qed (simp_all add: cb_inv_finish cb_inv_reset)

interpretation cbm: invariant_machine "\<lambda>c. c = (CircuitBreaker_new cfg, 0)" cb_step
    "\<lambda>c. cb_inv (fst c) \<and> cb_cfg (fst c) = cfg" for cfg
proof
  fix c c' :: "CircuitBreaker \<times> nat"
  show "c = (CircuitBreaker_new cfg, 0) \<Longrightarrow> cb_inv (fst c) \<and> cb_cfg (fst c) = cfg"
    by (simp add: CircuitBreaker_new_def cb_inv_def)
  show "cb_inv (fst c) \<and> cb_cfg (fst c) = cfg \<Longrightarrow> cb_step c c' \<Longrightarrow> cb_inv (fst c') \<and> cb_cfg (fst c') = cfg"
    using cb_step_keeps [of c c'] by simp
qed

lemma cb_reach_inv: "cb_reach cfg c \<Longrightarrow> cb_inv (fst c) \<and> cb_cfg (fst c) = cfg"
  unfolding cb_reach_def by (rule cbm.reachable_inv)

lemma unat_Suc_below: "x < (y :: u32) \<Longrightarrow> unat (x + 1) = Suc (unat x)"
proof -
  assume "x < y"
  then have "unat x < unat y" by (simp add: word_less_nat_alt)
  moreover have "unat y < 2 ^ 32" by (rule order_less_le_trans [OF unsigned_less]) simp
  ultimately have "Suc (unat x) < 2 ^ 32" by linarith
  then show ?thesis by (simp add: unat_word_ariths)
qed



subsection \<open>One thread: tripping\<close>

text \<open>
  A sequence of calls by one thread, each given by its two clock readings and the outcome of
  its function; the functions log that they lg.
\<close>

definition cb_run1 :: "int \<times> int \<times> bool \<Rightarrow> CircuitBreaker \<times> bool list \<Rightarrow> CircuitBreaker \<times> bool list" where
  "cb_run1 c st =
     (case c of (t1, t2, ok) \<Rightarrow> case st of (cb, lg) \<Rightarrow>
        snd (CircuitBreaker_call t1 t2 (\<lambda>lg. (Inr ok, lg @ [ok])) cb lg))"

definition cb_run :: "(int \<times> int \<times> bool) list \<Rightarrow> CircuitBreaker \<Rightarrow> CircuitBreaker \<times> bool list" where
  "cb_run cs cb = fold cb_run1 cs (cb, [])"

definition outcomes :: "(int \<times> int \<times> bool) list \<Rightarrow> bool list" where
  "outcomes cs = map (\<lambda>(_, _, ok). ok) cs"

text \<open>The number of failures at the end of a history, and a run of \<open>k\<close> failures in it.\<close>

definition trailing :: "bool list \<Rightarrow> nat" where
  "trailing xs = length (takeWhile Not (rev xs))"

definition fail_run :: "nat \<Rightarrow> bool list \<Rightarrow> bool" where
  "fail_run k xs \<longleftrightarrow> sublist (replicate k False) xs"

lemma trailing_simps [simp]:
  "trailing [] = 0" "trailing (xs @ [b]) = (if b then 0 else Suc (trailing xs))"
  by (simp_all add: trailing_def)

lemma suffix_replicate_iff: "suffix (replicate k False) xs \<longleftrightarrow> k \<le> trailing xs"
proof (induction k arbitrary: xs)
  case (Suc k)
  show ?case
  proof (cases xs rule: rev_cases)
    case (snoc ys b)
    have "replicate (Suc k) False = replicate k False @ [False]" by (simp add: replicate_append_same)
    then have "suffix (replicate (Suc k) False) (ys @ [b]) \<longleftrightarrow> \<not> b \<and> suffix (replicate k False) ys"
      by (simp only: snoc_suffix_snoc) blast
    then show ?thesis using Suc.IH [of ys] snoc by simp
  qed simp
qed simp

lemma fail_run_snoc: "fail_run k (xs @ [b]) \<longleftrightarrow> fail_run k xs \<or> k \<le> trailing (xs @ [b])"
  using suffix_replicate_iff [of k "xs @ [b]"] by (auto simp: fail_run_def sublist_snoc)

lemma cb_run_snoc [simp]: "cb_run (cs @ [c]) cb = cb_run1 c (cb_run cs cb)"
  by (simp add: cb_run_def)

lemma cb_run_Nil [simp]: "cb_run [] cb = (cb, [])"
  by (simp add: cb_run_def)

lemma outcomes_simps [simp]:
  "outcomes [] = []" "outcomes (cs @ [(t1, t2, ok)]) = outcomes cs @ [ok]"
  "length (outcomes cs) = length cs"
  by (simp_all add: outcomes_def)

text \<open>The effect of one more call, by the state it finds.\<close>

lemma cb_run1_open:
  "cb_state cb = Open \<Longrightarrow> \<not> open_elapsed cb t1 \<Longrightarrow> cb_run1 (t1, t2, ok) (cb, lg) = (cb, lg)"
  by (simp add: cb_run1_def CircuitBreaker_call_def cb_admit_def)

lemma cb_run1_closed:
  "cb_state cb = Closed \<Longrightarrow> cb_run1 (t1, t2, ok) (cb, lg) = (cb_finish ok t2 cb, lg @ [ok])"
  by (simp add: cb_run1_def CircuitBreaker_call_def cb_admit_def)

text \<open>What a history of calls within one open duration leads to.\<close>

definition trip_state :: "cb_Config \<Rightarrow> int \<Rightarrow> bool list \<Rightarrow> CircuitBreaker \<times> bool list \<Rightarrow> bool" where
  "trip_state cfg t0 hist st \<longleftrightarrow>
     (case st of (cb, lg) \<Rightarrow> cb_cfg cb = cfg \<and>
        (cb_state cb = Closed \<and> lg = hist \<and> \<not> fail_run (unat (failure_threshold cfg)) hist \<and>
           unat (failure_count cb) = trailing hist \<and> trailing hist < unat (failure_threshold cfg)
         \<or> cb_state cb = Open \<and> t0 \<le> opened_at cb \<and> prefix lg hist \<and>
           suffix (replicate (unat (failure_threshold cfg)) False) lg \<and>
           \<not> fail_run (unat (failure_threshold cfg)) (butlast lg)))"

lemma trip_state_step:
  assumes st: "trip_state cfg t0 hist st" and t: "t0 \<le> t2" "t1 < t0 + open_duration cfg * 1000000"
    and T: "0 < failure_threshold cfg"
  shows "trip_state cfg t0 (hist @ [ok]) (cb_run1 (t1, t2, ok) st)"
proof -
  obtain cb lg where stq: "st = (cb, lg)" by (cases st)
  have cfg: "cb_cfg cb = cfg" using st stq by (simp add: trip_state_def)
  consider (op) "cb_state cb = Open" | (cl) "cb_state cb = Closed"
    using st stq by (auto simp: trip_state_def)
  then show ?thesis
  proof cases
    case op
    then have "\<not> open_elapsed cb t1"
      using st stq t by (auto simp: trip_state_def open_elapsed_def)
    then show ?thesis using st stq op by (auto simp: cb_run1_open trip_state_def prefix_snoc)
  next
    case cl
    let ?T = "unat (failure_threshold cfg)"
    from st stq cl have h: "lg = hist" "\<not> fail_run ?T hist" "unat (failure_count cb) = trailing hist"
      "trailing hist < ?T" by (auto simp: trip_state_def)
    have lt: "failure_count cb < failure_threshold cfg" using h by (simp add: word_less_nat_alt)
    have inc: "unat (failure_count cb + 1) = Suc (trailing hist)"
      using unat_Suc_below [OF lt] h by simp
    have ge: "failure_threshold cfg \<le> failure_count cb + 1 \<longleftrightarrow> ?T \<le> Suc (trailing hist)"
      by (simp add: word_le_nat_alt inc)
    have T': "0 < ?T" using T by (simp add: word_less_nat_alt)
    show ?thesis
      using h stq cl cfg T' t inc ge
      by (cases ok) (auto simp: cb_run1_closed trip_state_def cb_finish_def record_success_def
          record_failure_def Let_def fail_run_snoc suffix_replicate_iff)
  qed
qed

lemma trip_state_run:
  assumes "\<And>t1 t2 ok. (t1, t2, ok) \<in> set cs \<Longrightarrow> t0 \<le> t2 \<and> t1 < t0 + open_duration cfg * 1000000"
    and "0 < failure_threshold cfg"
  shows "trip_state cfg t0 (outcomes cs) (cb_run cs (CircuitBreaker_new cfg))"
  using assms(1)
proof (induction cs rule: rev_induct)
  case Nil
  then show ?case using assms(2)
    by (simp add: trip_state_def CircuitBreaker_new_def fail_run_def word_less_nat_alt)
next
  case (snoc c cs)
  obtain t1 t2 ok where c: "c = (t1, t2, ok)" by (cases c)
  have "trip_state cfg t0 (outcomes cs) (cb_run cs (CircuitBreaker_new cfg))"
  proof (rule snoc.IH)
    show "t0 \<le> b \<and> a < t0 + open_duration cfg * 1000000" if "(a, b, o') \<in> set cs" for a b o'
      using snoc.prems [of a b o'] that by simp
  qed
  moreover have "t0 \<le> t2" "t1 < t0 + open_duration cfg * 1000000" using snoc.prems [of t1 t2 ok] c by simp_all
  ultimately show ?case using trip_state_step assms(2) c by simp
qed

text \<open>
  C14.  One thread, calls within one open duration: the breaker is open exactly when some
  \<open>failure_threshold\<close> consecutive calls failed.  Before that every function has run; after
  that none does: the functions that ran are the calls up to the end of the first such run.
\<close>

theorem breaker_trips_iff:
  assumes "\<And>t1 t2 ok. (t1, t2, ok) \<in> set cs \<Longrightarrow> t0 \<le> t2 \<and> t1 < t0 + open_duration cfg * 1000000"
    and "0 < failure_threshold cfg" and "cb_run cs (CircuitBreaker_new cfg) = (cb, lg)"
  shows "(cb_state cb = Open \<longleftrightarrow> sublist (replicate (unat (failure_threshold cfg)) False) (outcomes cs)) \<and>
    (cb_state cb = Closed \<longrightarrow> lg = outcomes cs) \<and>
    (cb_state cb = Open \<longrightarrow> prefix lg (outcomes cs) \<and>
       suffix (replicate (unat (failure_threshold cfg)) False) lg \<and>
       \<not> sublist (replicate (unat (failure_threshold cfg)) False) (butlast lg)) \<and>
    cb_state cb \<noteq> HalfOpen"
proof -
  have "trip_state cfg t0 (outcomes cs) (cb, lg)"
    using trip_state_run [of cs t0 cfg] assms by simp
  moreover have "sublist a (outcomes cs)" if "suffix a lg" "prefix lg (outcomes cs)" for a
    using that by (metis prefix_imp_sublist sublist_order.order_trans suffix_imp_sublist)
  ultimately show ?thesis unfolding trip_state_def fail_run_def by fastforce
qed

theorem breaker_trips_iff_witness:
  "let cfg = cb_Config_default\<lparr>failure_threshold := 2\<rparr>;
       (cb, lg) = cb_run [(0, 1, False), (2, 3, True), (4, 5, False), (6, 7, False), (8, 9, True)]
                    (CircuitBreaker_new cfg)
   in cb_state cb = Open \<and> lg = [False, True, False, False]"
proof -
  let ?cfg = "cb_Config_default\<lparr>failure_threshold := 2\<rparr>"
  let ?cs = "[(0, 1, False), (2, 3, True), (4, 5, False), (6, 7, False), (8, 9, True)]"
  let ?r = "cb_run ?cs (CircuitBreaker_new ?cfg)"
  have th: "unat (failure_threshold ?cfg) = 2" by simp
  have out: "outcomes ?cs = [False, True, False, False, True]" by (simp add: outcomes_def)
  have sub: "sublist (replicate 2 False) [False, True, False, False, True]"
    by (simp add: numeral_2_eq_2 sublist_Cons_right)
  have times: "0 \<le> t2 \<and> t1 < 0 + open_duration ?cfg * 1000000"
    if "(t1, t2, ok) \<in> set ?cs" for t1 t2 :: int and ok
    using that by (auto simp: cb_Config_default_def)
  have pos: "0 < failure_threshold ?cfg" by simp
  have run: "?r = (fst ?r, snd ?r)" by simp
  from breaker_trips_iff [OF times pos run, unfolded th out] sub
  have op: "cb_state (fst ?r) = Open" by simp
  have "snd ?r = [False, True, False, False]"
    by (simp add: cb_run_def cb_run1_def CircuitBreaker_call_def cb_ops
        CircuitBreaker_new_def cb_Config_default_def word_le_nat_alt)
  with op show ?thesis by (simp add: Let_def split_beta)
qed

subsection \<open>One thread: recovery\<close>

lemma cb_run1_half_open:
  "cb_state cb = HalfOpen \<Longrightarrow> cb_run1 (t1, t2, ok) (cb, lg) = (cb_finish ok t2 cb, lg @ [ok])"
  by (simp add: cb_run1_def CircuitBreaker_call_def cb_admit_def)

lemma cb_run1_probe:
  "cb_state cb = Open \<Longrightarrow> open_elapsed cb t1 \<Longrightarrow> cb_run1 (t1, t2, ok) (cb, lg) =
     (cb_finish ok t2 (cb\<lparr>cb_state := HalfOpen, failure_count := 0\<rparr>), lg @ [ok])"
  by (simp add: cb_run1_def CircuitBreaker_call_def cb_admit_def)

text \<open>
  C34.  Recovery: once the open duration has passed, the next call runs, and after
  \<open>success_threshold\<close> successful calls (at least one) the breaker is closed with both
  counters zero; before that it is half open and counts the successes exactly.
\<close>

theorem breaker_recovers:
  assumes "cb_inv cb" and "cb_state cb = Open" and "open_elapsed cb (fst (hd cs))"
    and "cs \<noteq> []" and "outcomes cs = replicate (length cs) True"
    and "cb_run cs cb = (cb', lg)" and "length cs \<le> max 1 (unat (success_threshold (cb_cfg cb)))"
  shows "lg = replicate (length cs) True \<and> failure_count cb' = 0 \<and> cb_cfg cb' = cb_cfg cb \<and>
    (if unat (success_threshold (cb_cfg cb)) \<le> length cs
     then cb_state cb' = Closed \<and> success_count cb' = 0
     else cb_state cb' = HalfOpen \<and> unat (success_count cb') = length cs)"
  using assms
proof (induction cs arbitrary: cb' lg rule: rev_induct)
  case (snoc c cs)
  let ?S = "success_threshold (cb_cfg cb)"
  obtain t1 t2 where c: "c = (t1, t2, True)" using snoc.prems(5) by (cases c) (simp add: replicate_append_same [symmetric])
  have outs: "outcomes cs = replicate (length cs) True"
    using snoc.prems(5) c by (simp add: replicate_append_same [symmetric])
  obtain cb1 lg1 where r1: "cb_run cs cb = (cb1, lg1)" by fastforce
  show ?case
  proof (cases "cs = []")
    case True
    then have "cb1 = cb" "lg1 = []" using r1 by simp_all
    then have "cb' = cb_finish True t2 (cb\<lparr>cb_state := HalfOpen, failure_count := 0\<rparr>) \<and> lg = [True]"
      using snoc.prems(2,3,6) c True cb_run1_probe [of cb t1 t2 True "[]"] by (simp add: cb_run_def)
    moreover have "success_count cb = 0" using snoc.prems(1,2) by (simp add: cb_inv_def)
    moreover have "?S \<le> 1 \<longleftrightarrow> unat ?S \<le> 1" by (simp add: word_le_nat_alt)
    ultimately show ?thesis using True by (auto simp: cb_ops)
  next
    case False
    with snoc.prems(7) have lt: "length cs < unat ?S" by (cases cs) auto
    from snoc.IH [OF snoc.prems(1,2) _ False outs r1] snoc.prems(3) False lt
    have IH: "lg1 = replicate (length cs) True" "failure_count cb1 = 0" "cb_cfg cb1 = cb_cfg cb"
      "cb_state cb1 = HalfOpen" "unat (success_count cb1) = length cs" by auto
    from lt IH(5) have below: "success_count cb1 < ?S" by (simp add: word_less_nat_alt)
    have inc: "unat (success_count cb1 + 1) = Suc (length cs)"
      using unat_Suc_below [OF below] IH(5) by simp
    have "cb' = cb_finish True t2 cb1 \<and> lg = lg1 @ [True]"
      using snoc.prems(6) r1 c cb_run1_half_open [OF IH(4), of t1 t2 True lg1] by simp
    then show ?thesis using IH inc
      by (auto simp: cb_ops word_le_nat_alt replicate_append_same [symmetric])
  qed
qed simp

theorem breaker_recovers_witness:
  "let cb = (CircuitBreaker_new cb_Config_default)\<lparr>cb_state := Open, failure_count := 5\<rparr>
   in cb_state (fst (cb_run [(5000000000, 1, True), (5000000001, 2, True)] cb)) = Closed"
proof -
  let ?cb = "(CircuitBreaker_new cb_Config_default)\<lparr>cb_state := Open, failure_count := 5\<rparr>"
  let ?cs = "[(5000000000, 1, True), (5000000001, 2, True)] :: (int \<times> int \<times> bool) list"
  have h: "cb_inv ?cb" "cb_state ?cb = Open" "open_elapsed ?cb (fst (hd ?cs))" "?cs \<noteq> []"
    "outcomes ?cs = replicate (length ?cs) True"
    "cb_run ?cs ?cb = (fst (cb_run ?cs ?cb), snd (cb_run ?cs ?cb))"
    "length ?cs \<le> max 1 (unat (success_threshold (cb_cfg ?cb)))"
    by (simp_all add: cb_inv_def CircuitBreaker_new_def cb_Config_default_def open_elapsed_def
        outcomes_def)
  from breaker_recovers [OF h] show ?thesis
    by (simp add: CircuitBreaker_new_def cb_Config_default_def Let_def)
qed

text \<open>
  Half open is not a single probe: from any reachable open state, every number \<open>k > 0\<close> of
  calls can be in flight at once in \<open>HalfOpen\<close>; and a failed probe does not reopen the
  breaker while fewer than \<open>failure_threshold\<close> probes have failed.
\<close>

theorem half_open_admits_many:
  assumes "cb_reach cfg (cb, n)" and "cb_state cb = Open" and "0 < k"
  shows "\<exists>cb'. cb_reach cfg (cb', n + k) \<and> cb_state cb' = HalfOpen \<and>
    (1 < failure_threshold cfg \<longrightarrow> cb_state (cb_finish False t cb') = HalfOpen)"
  using assms(3)
proof (induction k rule: nat_induct_non_zero)
  case 1
  let ?now = "opened_at cb + open_duration (cb_cfg cb) * 1000000"
  let ?cb = "cb\<lparr>cb_state := HalfOpen, failure_count := 0\<rparr>"
  have "cb_admit ?now cb = (True, ?cb)" using assms(2) by (simp add: cb_admit_def open_elapsed_def)
  then have "cb_reach cfg (?cb, n + 1)" using assms(1) cb_reach_step cb_step.admit by fastforce
  moreover have "cb_cfg cb = cfg" using cb_reach_inv [OF assms(1)] by simp
  ultimately show ?case by (intro exI [of _ ?cb]) (auto simp: cb_ops)
next
  case (Suc k)
  then obtain cb' where r: "cb_reach cfg (cb', n + k)" "cb_state cb' = HalfOpen"
    "1 < failure_threshold cfg \<longrightarrow> cb_state (cb_finish False t cb') = HalfOpen" by blast
  have "cb_step (cb', n + k) (cb', Suc (n + k))"
    by (rule cb_step.admit [of 0]) (simp add: cb_admit_def r(2))
  then show ?case using r cb_reach_step by fastforce
qed

theorem half_open_admits_many_witness:
  "\<exists>cb'. cb_reach (cb_Config_default\<lparr>failure_threshold := 1\<rparr>) (cb', 3) \<and> cb_state cb' = HalfOpen"
proof -
  let ?cfg = "cb_Config_default\<lparr>failure_threshold := 1\<rparr>"
  let ?cb = "CircuitBreaker_new ?cfg"
  have "cb_step (?cb, 0) (?cb, Suc 0)"
    by (rule cb_step.admit [of 0]) (simp add: cb_admit_def CircuitBreaker_new_def)
  then have "cb_reach ?cfg (cb_finish False 9 ?cb, 0)"
    using cb_reach_start cb_reach_step cb_step.finish by meson
  moreover have "cb_state (cb_finish False 9 ?cb) = Open"
    by (simp add: cb_ops CircuitBreaker_new_def cb_Config_default_def)
  ultimately show ?thesis
    using half_open_admits_many [of ?cfg "cb_finish False 9 ?cb" 0 3] by fastforce
qed

end
