(* ===== verification/Session_Manager.thy ===== *)
theory Session_Manager
  imports Device_Pool Circuit_Breaker
begin

text \<open>
  The session manager (\<^verbatim>\<open>runtime/appframework\<close>, \<^verbatim>\<open>session_manager.hpp\<close> and \<^verbatim>\<open>.cpp\<close>): a device
  pool behind a circuit breaker.  \<open>execute\<close> runs the user's function on the client of a
  borrowed entry, inside the breaker's call; the function may change the world and may throw.
\<close>

record sm_Config =
  device_paths :: "string list"
  uring_queue_depth :: u32
  cb_config :: cb_Config

record SessionManager =
  sm_pool :: "pool_Entry list"
  sm_cb :: CircuitBreaker

definition SessionManager_create ::
    "'k usys \<Rightarrow> 'k liburing \<Rightarrow> sm_Config \<Rightarrow> 'k uworld \<Rightarrow> (ul_Error + SessionManager) \<times> 'k uworld" where
  "SessionManager_create y U cfg w =
     (case DevicePool_create y U (device_paths cfg) (uring_queue_depth cfg) w of
        (Inl e, w) \<Rightarrow> (Inl e, w)
      | (Inr pool, w) \<Rightarrow> (Inr \<lparr>sm_pool = pool, sm_cb = CircuitBreaker_new (cb_config cfg)\<rparr>, w))"

text \<open>
  The lambda that \<^verbatim>\<open>execute\<close> hands to the breaker.  The guard lives to the end of the lambda:
  its destructor runs on the normal return and when \<open>f\<close> throws.  \<open>f\<close> gets the client of the
  guard's entry.
\<close>

definition execute_body ::
    "(AsyncClient \<Rightarrow> 'w \<Rightarrow> (cxx_exn + bool) \<times> 'w) \<Rightarrow> pool_Entry list \<times> 'w \<Rightarrow>
     (cxx_exn + bool) \<times> pool_Entry list \<times> 'w" where
  "execute_body f pw =
     (case pw of (pool, w) \<Rightarrow>
        case pool_acquire pool of
          (Inl _, pool) \<Rightarrow> (Inr False, pool, w)
        | (Inr guard, pool) \<Rightarrow>
            let (r, w) = f (en_client (pool ! the (g_entry guard))) w
            in (r, Guard_destroy guard pool, w))"

definition SessionManager_execute ::
    "int \<Rightarrow> int \<Rightarrow> (AsyncClient \<Rightarrow> 'w \<Rightarrow> (cxx_exn + bool) \<times> 'w) \<Rightarrow> SessionManager \<Rightarrow> 'w \<Rightarrow>
     (cxx_exn + (ul_Error + unit)) \<times> SessionManager \<times> 'w" where
  "SessionManager_execute t1 t2 f sm w =
     (case CircuitBreaker_call t1 t2 (execute_body f) (sm_cb sm) (sm_pool sm, w) of
        (r, cb, pool, w) \<Rightarrow>
          ((case r of
              Inl e \<Rightarrow> Inl e
            | Inr ok \<Rightarrow> Inr (if \<not> ok then Inl SubmitFailed else Inr ())),
           \<lparr>sm_pool = pool, sm_cb = cb\<rparr>, w))"

definition circuit_state :: "SessionManager \<Rightarrow> cb_State" where
  "circuit_state sm = cb_state (sm_cb sm)"

subsection \<open>Lemmas\<close>

lemma set_use_back: "i < length p \<Longrightarrow> \<not> en_in_use (p ! i) \<Longrightarrow> pool_set_use i False (pool_set_use i True p) = p"
  by (simp add: pool_set_use_def list_update_same_conv)

lemma client_set_use [simp]: "en_client (pool_set_use i b p ! j) = en_client (p ! j)"
  by (cases "i < length p") (auto simp: pool_set_use_def nth_list_update list_update_beyond)

lemma acquire_destroy:
  "pool_acquire p = (Inr g, p') \<Longrightarrow> Guard_destroy g p' = p \<and> en_client (p' ! the (g_entry g)) = en_client (p ! the (g_entry g))"
  using find_idle_Some [of p]
  by (auto simp: pool_acquire_def Guard_destroy_def pool_release_def set_use_back
      split: option.splits)

lemma execute_body_pool:
  "execute_body f (p, w) = (r, p', w') \<Longrightarrow> p' = p"
  using acquire_destroy [of p]
  by (auto simp: execute_body_def pool_acquire_def split: prod.splits sum.splits option.splits)

text \<open>Running the body on the first idle entry, and on an exhausted pool.\<close>

lemma execute_body_idle:
  assumes "find_idle p = Some i" and "f (en_client (p ! i)) w = (r, w')"
  shows "execute_body f (p, w) = (r, p, w')"
proof -
  obtain g p' where a: "pool_acquire p = (Inr g, p')" "g_entry g = Some i"
    using assms(1) by (auto simp: pool_acquire_def)
  show ?thesis using a acquire_destroy [OF a(1)] assms(2) by (simp add: execute_body_def)
qed

lemma execute_body_full: "find_idle p = None \<Longrightarrow> execute_body f (p, w) = (Inr False, p, w)"
  by (simp add: execute_body_def pool_acquire_def)

text \<open>
  C15.  \<^verbatim>\<open>execute\<close>, on every path: whether the breaker rejects, the pool is exhausted, the
  function succeeds, fails or throws, the pool afterwards is the pool before.  The function
  runs exactly when the breaker admits the call and an entry is idle, on the first idle
  client, and \<^verbatim>\<open>SubmitFailed\<close> is returned in every other case but an exception, which is
  propagated and not recorded by the breaker.
\<close>

theorem SessionManager_execute_correct:
  "case SessionManager_execute t1 t2 f sm w of (r, sm', w') \<Rightarrow>
     sm_pool sm' = sm_pool sm \<and>
     (case cb_admit t1 (sm_cb sm) of (admitted, cb) \<Rightarrow>
        if \<not> admitted then r = Inr (Inl SubmitFailed) \<and> sm_cb sm' = cb \<and> w' = w
        else case find_idle (sm_pool sm) of
            None \<Rightarrow> r = Inr (Inl SubmitFailed) \<and> sm_cb sm' = cb_finish False t2 cb \<and> w' = w
          | Some i \<Rightarrow>
              (case f (en_client (sm_pool sm ! i)) w of
                 (Inl e, w1) \<Rightarrow> r = Inl e \<and> sm_cb sm' = cb \<and> w' = w1
               | (Inr ok, w1) \<Rightarrow>
                   r = Inr (if ok then Inr () else Inl SubmitFailed) \<and>
                   sm_cb sm' = cb_finish ok t2 cb \<and> w' = w1))"
proof -
  obtain a cb where ad: "cb_admit t1 (sm_cb sm) = (a, cb)" by fastforce
  show ?thesis
  proof (cases "find_idle (sm_pool sm)")
    case None
    then show ?thesis using ad
      by (simp add: SessionManager_execute_def CircuitBreaker_call_def execute_body_full split: bool.splits)
  next
    case (Some i)
    obtain r w1 where f: "f (en_client (sm_pool sm ! i)) w = (r, w1)" by fastforce
    show ?thesis using ad Some f execute_body_idle [of "sm_pool sm" i f w r w1]
      by (cases r) (simp_all add: SessionManager_execute_def CircuitBreaker_call_def split: bool.splits)
  qed
qed

text \<open>Repeated calls on an exhausted pool, against a breaker that sees only failures.\<close>

fun execute_all :: "(int \<times> int) list \<Rightarrow> (AsyncClient \<Rightarrow> 'w \<Rightarrow> (cxx_exn + bool) \<times> 'w) \<Rightarrow>
    SessionManager \<times> 'w \<Rightarrow> SessionManager \<times> 'w" where
  "execute_all [] f s = s"
| "execute_all ((t1, t2) # ts) f s = execute_all ts f (snd (SessionManager_execute t1 t2 f (fst s) (snd s)))"

lemma execute_all_full:
  assumes "find_idle (sm_pool sm) = None"
  shows "execute_all ts f (sm, w) =
    (sm\<lparr>sm_cb := fst (fold cb_run1 (map (\<lambda>(a, b). (a, b, False)) ts) (sm_cb sm, lg))\<rparr>, w)"
  using assms
proof (induction ts arbitrary: sm lg)
  case (Cons t ts)
  obtain t1 t2 where t: "t = (t1, t2)" by (cases t)
  obtain cb lg' where one: "cb_run1 (t1, t2, False) (sm_cb sm, lg) = (cb, lg')" by fastforce
  have "SessionManager_execute t1 t2 f sm w = (Inr (Inl SubmitFailed), sm\<lparr>sm_cb := cb\<rparr>, w)"
    using one Cons.prems
    by (auto simp: SessionManager_execute_def CircuitBreaker_call_def cb_run1_def execute_body_full
        split: prod.splits bool.splits)
  then show ?case using Cons.IH [of "sm\<lparr>sm_cb := cb\<rparr>" lg'] Cons.prems t one by simp
qed simp

text \<open>
  An exhausted pool counts as a failing device: \<open>failure_threshold\<close> calls that find every
  entry in use, within one open duration, open the breaker of the manager although no
  function ran and no device was tried.
\<close>

theorem exhausted_pool_trips:
  assumes "find_idle (sm_pool sm) = None" and "sm_cb sm = CircuitBreaker_new cfg"
    and "0 < failure_threshold cfg" and "length ts = unat (failure_threshold cfg)"
    and "\<And>a b. (a, b) \<in> set ts \<Longrightarrow> t0 \<le> b \<and> a < t0 + open_duration cfg * 1000000"
  shows "case execute_all ts f (sm, w) of (sm', w') \<Rightarrow>
     circuit_state sm' = Open \<and> w' = w \<and> sm_pool sm' = sm_pool sm"
proof -
  let ?cs = "map (\<lambda>(a, b). (a, b, False)) ts"
  have out: "outcomes ?cs = replicate (unat (failure_threshold cfg)) False"
    using assms(4) by (simp add: outcomes_def split_beta comp_def map_replicate_const)
  have "trip_state cfg t0 (outcomes ?cs) (cb_run ?cs (CircuitBreaker_new cfg))"
    by (rule trip_state_run) (use assms(3,5) in auto)
  then have "cb_state (fst (cb_run ?cs (CircuitBreaker_new cfg))) = Open"
    by (auto simp: trip_state_def out fail_run_def split: prod.splits)
  then show ?thesis
    using execute_all_full [OF assms(1), of ts f w "[]"] assms(2)
    by (simp add: circuit_state_def cb_run_def)
qed

theorem exhausted_pool_trips_witness:
  "circuit_state (fst (execute_all [(0, 0), (1, 1), (2, 2), (3, 3), (4, 4)] (\<lambda>_ w. (Inr True, w))
      (\<lparr>sm_pool = [], sm_cb = CircuitBreaker_new cb_Config_default\<rparr>, ()))) = Open"
proof -
  let ?sm = "\<lparr>sm_pool = [], sm_cb = CircuitBreaker_new cb_Config_default\<rparr>"
  let ?ts = "[(0, 0), (1, 1), (2, 2), (3, 3), (4, 4)] :: (int \<times> int) list"
  have h: "find_idle (sm_pool ?sm) = None" "sm_cb ?sm = CircuitBreaker_new cb_Config_default"
    "0 < failure_threshold cb_Config_default" "length ?ts = unat (failure_threshold cb_Config_default)"
    by (simp_all add: cb_Config_default_def)
  have t: "0 \<le> b \<and> a < 0 + open_duration cb_Config_default * 1000000" if "(a, b) \<in> set ?ts" for a b :: int
    using that by (auto simp: cb_Config_default_def)
  from exhausted_pool_trips [OF h t, where f = "\<lambda>_ w. (Inr True, w)" and w = "()"] show ?thesis
    by (simp only: split_beta)
qed

end
