(* ===== verification/Kernel_Driver.thy ===== *)
theory Kernel_Driver
  imports Userlib "HOL-Library.Multiset"
begin

text \<open>
  The Linux driver (\<^verbatim>\<open>kernel/drivers/deepspan\<close>): the io_uring command path
  (\<^verbatim>\<open>deepspan_iouring.c\<close>) and the virtqueue work of both directions (\<^verbatim>\<open>deepspan_vqueue.c\<close>);
  \<open>Kernel_Module\<close> holds the life cycle.  Memory is modelled by the live request
  objects and the number of live buffers; the answers of the kernel (allocations, user
  copies, the virtqueue) are inputs.  The XArray allocator is the parameter \<open>XA\<close> with its
  documented behaviour \<open>xa_alloc_spec\<close>.
\<close>

subsection \<open>Requests and the device\<close>

definition ENOMEM :: int where "ENOMEM = 12"
definition EFAULT :: int where "EFAULT = 14"
definition EIOCBQUEUED :: int where "EIOCBQUEUED = 529"
definition DEEPSPAN_MAX_REQUESTS :: nat where "DEEPSPAN_MAX_REQUESTS = 4096"
definition DEEPSPAN_MAX_DEVICES :: nat where "DEEPSPAN_MAX_DEVICES = 16"

record deepspan_request =
  kr_cmd :: nat
  kr_req_id :: nat
  kr_buf :: "u8 list"
  kr_resp_buf :: "u8 list"

datatype work_state = Work_idle | Work_draining | Work_enabling

record deepspan_device =
  xa_flags_alloc :: bool
  pending :: "nat \<Rightarrow> nat option"
  kreqs :: "nat \<Rightarrow> deepspan_request option"
  kbufs :: nat
  tx_avail :: "nat list"
  tx_used :: "nat list"
  tx_cb_enabled :: bool
  tx_work :: work_state
  rx_used :: "nat list"
  rx_cb_enabled :: bool
  rx_work :: bool
  cmd_done_log :: "(nat \<times> int \<times> u64) list"

text \<open>
  \<^verbatim>\<open>xa_alloc\<close> with limit 1 to 4096: the first argument says whether the array was initialised
  with \<^verbatim>\<open>XA_FLAGS_ALLOC\<close>, without which the call is refused with \<^verbatim>\<open>-EINVAL\<close>.
\<close>

type_synonym xa_alloc = "bool \<Rightarrow> (nat \<Rightarrow> nat option) \<Rightarrow> int + nat"

definition xa_alloc_spec :: "xa_alloc \<Rightarrow> bool" where
  "xa_alloc_spec XA \<longleftrightarrow>
     (\<forall>p. XA False p = Inl (- 22)) \<and>
     (\<forall>p e. XA True p = Inl e \<longrightarrow> e < 0 \<and> e \<noteq> - EIOCBQUEUED) \<and>
     (\<forall>p i. XA True p = Inr i \<longrightarrow> 1 \<le> i \<and> i \<le> DEEPSPAN_MAX_REQUESTS \<and> p i = None)"

subsection \<open>Issuing a command\<close>

record issue_env =
  kz_req :: "nat option"
  kz_buf :: bool
  kz_resp :: bool
  user_bytes :: "u8 list option"
  vq_add_ret :: int

definition kalloc_buf :: "deepspan_device \<Rightarrow> deepspan_device" where
  "kalloc_buf d = d\<lparr>kbufs := Suc (kbufs d)\<rparr>"

definition kfree_buf :: "deepspan_device \<Rightarrow> deepspan_device" where
  "kfree_buf d = d\<lparr>kbufs := kbufs d - 1\<rparr>"

definition kfree_req :: "nat \<Rightarrow> deepspan_device \<Rightarrow> deepspan_device" where
  "kfree_req a d = d\<lparr>kreqs := (kreqs d)(a := None)\<rparr>"

definition cmd_req_bytes :: "deepspan_req \<Rightarrow> u8 list" where
  "cmd_req_bytes r =
     le_bytes32 (rq_opcode r) @ le_bytes32 (rq_flags r) @ le_bytes64 (rq_data_ptr r) @
     le_bytes32 (rq_data_len r) @ le_bytes32 (rq_timeout_ms r)"

text \<open>The error exits, in the order of the labels.\<close>

definition err_free_req :: "nat \<Rightarrow> deepspan_device \<Rightarrow> deepspan_device" where
  "err_free_req a d = kfree_req a d"

definition err_free_buf :: "nat \<Rightarrow> deepspan_device \<Rightarrow> deepspan_device" where
  "err_free_buf a d = err_free_req a (kfree_buf d)"

definition err_free_resp :: "nat \<Rightarrow> deepspan_device \<Rightarrow> deepspan_device" where
  "err_free_resp a d = err_free_buf a (kfree_buf d)"

definition err_xa_erase :: "nat \<Rightarrow> nat \<Rightarrow> deepspan_device \<Rightarrow> deepspan_device" where
  "err_xa_erase req_id a d = err_free_resp a (d\<lparr>pending := (pending d)(req_id := None)\<rparr>)"

definition uring_cmd_issue ::
    "xa_alloc \<Rightarrow> issue_env \<Rightarrow> nat \<Rightarrow> deepspan_req \<Rightarrow> deepspan_device \<Rightarrow> int \<times> deepspan_device" where
  "uring_cmd_issue XA e cmd ureq d =
     (case kz_req e of
        None \<Rightarrow> (- ENOMEM, d)
      | Some a \<Rightarrow>
          let d = d\<lparr>kreqs := (kreqs d)(a \<mapsto> \<lparr>kr_cmd = cmd, kr_req_id = 0, kr_buf = [], kr_resp_buf = []\<rparr>)\<rparr>;
              buf_len = (if rq_data_len ureq \<noteq> 0 then unat (rq_data_len ureq)
                         else struct_size deepspan_req_layout) in
          if \<not> kz_buf e then (- ENOMEM, err_free_req a d)
          else
            let d = kalloc_buf d in
            if \<not> kz_resp e then (- ENOMEM, err_free_buf a d)
            else
              let d = kalloc_buf d;
                  copied = (if rq_data_len ureq \<noteq> 0 \<and> rq_data_ptr ureq \<noteq> 0 then user_bytes e
                            else Some (take buf_len (cmd_req_bytes ureq) @
                                       replicate (buf_len - length (cmd_req_bytes ureq)) 0)) in
              case copied of
                None \<Rightarrow> (- EFAULT, err_free_resp a d)
              | Some buf \<Rightarrow>
                  (case XA (xa_flags_alloc d) (pending d) of
                     Inl ret \<Rightarrow> (ret, err_free_resp a d)
                   | Inr req_id \<Rightarrow>
                       let d = d\<lparr>pending := (pending d)(req_id \<mapsto> a),
                                 kreqs := (kreqs d)(a \<mapsto> \<lparr>kr_cmd = cmd, kr_req_id = req_id, kr_buf = buf,
                                                          kr_resp_buf = replicate 16 0\<rparr>)\<rparr> in
                       if vq_add_ret e = 0 then (- EIOCBQUEUED, d\<lparr>tx_avail := tx_avail d @ [a]\<rparr>)
                       else (vq_add_ret e, err_xa_erase req_id a d)))"

subsection \<open>Completion\<close>

text \<open>The device returns a chain with its result; the callback runs if callbacks are enabled.\<close>

definition vq_tx_cb :: "deepspan_device \<Rightarrow> deepspan_device" where
  "vq_tx_cb d = d\<lparr>tx_cb_enabled := False, tx_work := (if tx_work d = Work_idle then Work_draining else tx_work d)\<rparr>"

definition vq_device_return :: "nat \<Rightarrow> u8 list \<Rightarrow> deepspan_device \<Rightarrow> deepspan_device" where
  "vq_device_return a resp d =
     (let d = d\<lparr>kreqs := (kreqs d)(a := map_option (\<lambda>r. r\<lparr>kr_resp_buf := resp\<rparr>) (kreqs d a)),
                tx_avail := remove1 a (tx_avail d), tx_used := tx_used d @ [a]\<rparr>
      in if tx_cb_enabled d then vq_tx_cb d else d)"

definition result_of :: "u8 list \<Rightarrow> int \<times> u64" where
  "result_of resp =
     (if length resp \<ge> 16
      then (sint (word32_at 0 resp), ucast (word32_at 4 resp) OR push_bit 32 (ucast (word32_at 8 resp)))
      else (0, 0))"

text \<open>One round of the loop in \<^verbatim>\<open>deepspan_tx_work_fn\<close>, for the request \<open>a\<close> just taken from the queue.\<close>

definition tx_complete :: "nat \<Rightarrow> deepspan_device \<Rightarrow> deepspan_device" where
  "tx_complete a d =
     (case kreqs d a of
        None \<Rightarrow> d
      | Some req \<Rightarrow>
          let d = d\<lparr>pending := (pending d)(kr_req_id req := None)\<rparr>;
              (status, res2) = result_of (kr_resp_buf req);
              d = d\<lparr>cmd_done_log := cmd_done_log d @ [(kr_cmd req, status, res2)]\<rparr>
          in kfree_req a (kfree_buf (kfree_buf d)))"

definition tx_get_buf :: "deepspan_device \<Rightarrow> deepspan_device" where
  "tx_get_buf d =
     (case tx_used d of
        [] \<Rightarrow> d\<lparr>tx_work := Work_enabling\<rparr>
      | a # rest \<Rightarrow> tx_complete a (d\<lparr>tx_used := rest\<rparr>))"

definition tx_enable_cb :: "deepspan_device \<Rightarrow> deepspan_device" where
  "tx_enable_cb d = d\<lparr>tx_cb_enabled := True, tx_work := Work_idle\<rparr>"

text \<open>The whole work function, when the device returns nothing while it runs.\<close>

function tx_drain :: "deepspan_device \<Rightarrow> deepspan_device" where
  "tx_drain d = (if tx_used d = [] then tx_get_buf d else tx_drain (tx_get_buf d))"
  by auto

definition deepspan_tx_work_fn :: "deepspan_device \<Rightarrow> deepspan_device" where
  "deepspan_tx_work_fn d = tx_enable_cb (tx_drain d)"

text \<open>The receive queue: its callback and a work function that only discards what it finds.\<close>

definition vq_rx_cb :: "deepspan_device \<Rightarrow> deepspan_device" where
  "vq_rx_cb d = d\<lparr>rx_cb_enabled := False, rx_work := True\<rparr>"

fun rx_drain :: "nat list \<Rightarrow> nat list" where
  "rx_drain [] = []"
| "rx_drain (token # rest) = rx_drain rest"

definition deepspan_rx_work_fn :: "deepspan_device \<Rightarrow> deepspan_device" where
  "deepspan_rx_work_fn d = d\<lparr>rx_used := rx_drain (rx_used d), rx_cb_enabled := True, rx_work := False\<rparr>"

definition vq_rx_return :: "nat \<Rightarrow> deepspan_device \<Rightarrow> deepspan_device" where
  "vq_rx_return t d =
     (let d = d\<lparr>rx_used := rx_used d @ [t]\<rparr> in if rx_cb_enabled d then vq_rx_cb d else d)"

subsection \<open>All interleavings\<close>

text \<open>
  The state with the commands accepted so far.  \<^verbatim>\<open>kzalloc\<close> returns memory that is not in use;
  the lock is released between two rounds of the drain loop, so every step may interleave.
\<close>

inductive kd_step :: "xa_alloc \<Rightarrow> deepspan_device \<times> nat multiset \<Rightarrow> deepspan_device \<times> nat multiset \<Rightarrow> bool"
  for XA where
  issue: "\<forall>a. kz_req e = Some a \<longrightarrow> kreqs d a = None \<Longrightarrow> vq_add_ret e \<noteq> - EIOCBQUEUED \<Longrightarrow> uring_cmd_issue XA e cmd ureq d = (ret, d') \<Longrightarrow>
    kd_step XA (d, C) (d', if ret = - EIOCBQUEUED then add_mset cmd C else C)"
| device: "a \<in> set (tx_avail d) \<Longrightarrow> kd_step XA (d, C) (vq_device_return a resp d, C)"
| drain: "tx_work d = Work_draining \<Longrightarrow> kd_step XA (d, C) (tx_get_buf d, C)"
| enable: "tx_work d = Work_enabling \<Longrightarrow> kd_step XA (d, C) (tx_enable_cb d, C)"
| rx_return: "kd_step XA (d, C) (vq_rx_return t d, C)"
| rx_run: "rx_work d \<Longrightarrow> kd_step XA (d, C) (deepspan_rx_work_fn d, C)"

definition ddev_init :: "bool \<Rightarrow> deepspan_device" where
  "ddev_init alloc =
     \<lparr>xa_flags_alloc = alloc, pending = Map.empty, kreqs = Map.empty, kbufs = 0, tx_avail = [], tx_used = [],
      tx_cb_enabled = True, tx_work = Work_idle, rx_used = [], rx_cb_enabled = True, rx_work = False,
      cmd_done_log = []\<rparr>"

definition kd_reach :: "xa_alloc \<Rightarrow> bool \<Rightarrow> deepspan_device \<times> nat multiset \<Rightarrow> bool" where
  "kd_reach XA alloc = reachable (\<lambda>s. s = (ddev_init alloc, {#})) (kd_step XA)"

lemma kd_reach_start: "kd_reach XA alloc (ddev_init alloc, {#})"
  by (simp add: kd_reach_def reachable_start)

lemma kd_reach_step: "kd_reach XA alloc s \<Longrightarrow> kd_step XA s s' \<Longrightarrow> kd_reach XA alloc s'"
  unfolding kd_reach_def by (rule reachable_step)

text \<open>
  The invariant: the requests with the device are exactly the live ones and the pending ones,
  each with its own identifier and two buffers, and every accepted command is either with
  the device or completed, never both.
\<close>

definition in_flight :: "deepspan_device \<Rightarrow> nat list" where
  "in_flight d = tx_avail d @ tx_used d"

definition cmd_of :: "deepspan_device \<Rightarrow> nat \<Rightarrow> nat" where
  "cmd_of d a = kr_cmd (the (kreqs d a))"

definition kd_inv :: "deepspan_device \<times> nat multiset \<Rightarrow> bool" where
  "kd_inv s \<longleftrightarrow> (case s of (d, C) \<Rightarrow>
     distinct (in_flight d) \<and>
     (\<forall>a. kreqs d a \<noteq> None \<longleftrightarrow> a \<in> set (in_flight d)) \<and>
     (\<forall>a r. kreqs d a = Some r \<longrightarrow> pending d (kr_req_id r) = Some a) \<and>
     (\<forall>i a. pending d i = Some a \<longrightarrow> (\<exists>r. kreqs d a = Some r \<and> kr_req_id r = i) \<and>
        1 \<le> i \<and> i \<le> DEEPSPAN_MAX_REQUESTS) \<and>
     kbufs d = 2 * length (in_flight d) \<and>
     C = image_mset fst (mset (cmd_done_log d)) + image_mset (cmd_of d) (mset (in_flight d)))"

subsection \<open>The invariant is kept\<close>

lemmas err_exits = err_xa_erase_def err_free_resp_def err_free_buf_def err_free_req_def
  kfree_req_def kfree_buf_def kalloc_buf_def

text \<open>A command is either queued, with everything it needs, or refused without a trace.\<close>

lemma issue_cases:
  assumes XA: "xa_alloc_spec XA" and fresh: "\<forall>a. kz_req e = Some a \<longrightarrow> kreqs d a = None"
    and vq: "vq_add_ret e \<noteq> - EIOCBQUEUED" and issue: "uring_cmd_issue XA e cmd ureq d = (ret, d')"
  obtains (refused) "ret \<noteq> - EIOCBQUEUED" and "d' = d"
  | (queued) a req_id buf where "ret = - EIOCBQUEUED" and "kz_req e = Some a" and "kreqs d a = None"
      and "XA (xa_flags_alloc d) (pending d) = Inr req_id"
      and "d' = d\<lparr>pending := (pending d)(req_id \<mapsto> a),
             kreqs := (kreqs d)(a \<mapsto> \<lparr>kr_cmd = cmd, kr_req_id = req_id, kr_buf = buf, kr_resp_buf = replicate 16 0\<rparr>),
             kbufs := Suc (Suc (kbufs d)), tx_avail := tx_avail d @ [a]\<rparr>"
proof (cases "kz_req e")
  case None
  then show ?thesis using issue refused by (simp add: uring_cmd_issue_def ENOMEM_def EIOCBQUEUED_def)
next
  case (Some a)
  have kr: "(kreqs d)(a := None) = kreqs d" using fresh Some by (simp add: fun_eq_iff)
  have xa: "(pending d)(i := None) = pending d \<and> xa_flags_alloc d" if "XA (xa_flags_alloc d) (pending d) = Inr i" for i
  proof -
    have "pending d i = None \<and> xa_flags_alloc d"
      using XA that by (cases "xa_flags_alloc d") (auto simp: xa_alloc_spec_def)
    then show ?thesis by (simp add: fun_upd_idem)
  qed
  have err: "r \<noteq> - EIOCBQUEUED" if "XA (xa_flags_alloc d) (pending d) = Inl r" for r
    using XA that by (cases "xa_flags_alloc d") (auto simp: xa_alloc_spec_def EIOCBQUEUED_def)
  define copied where "copied = (if rq_data_len ureq \<noteq> 0 \<and> rq_data_ptr ureq \<noteq> 0 then user_bytes e
      else Some (take (if rq_data_len ureq \<noteq> 0 then unat (rq_data_len ureq) else struct_size deepspan_req_layout)
             (cmd_req_bytes ureq) @
           replicate ((if rq_data_len ureq \<noteq> 0 then unat (rq_data_len ureq) else struct_size deepspan_req_layout) -
             length (cmd_req_bytes ureq)) 0))"
  note unfold = uring_cmd_issue_def Let_def copied_def [symmetric] Some option.case
  note errs = ENOMEM_def EFAULT_def EIOCBQUEUED_def
  show ?thesis
  proof (cases "kz_buf e \<and> kz_resp e \<and> copied \<noteq> None")
    case False
    then have "ret \<in> {- ENOMEM, - EFAULT} \<and> d' = d"
      using issue kr unfolding unfold by (cases copied) (auto simp: err_exits split: if_splits)
    then show ?thesis using refused by (auto simp: errs)
  next
    case True
    then obtain buf where c: "copied = Some buf" by auto
    show ?thesis
    proof (cases "XA (xa_flags_alloc d) (pending d)")
      case (Inl r)
      then have "ret = r \<and> d' = d"
        using issue kr True c unfolding unfold by (simp add: err_exits)
      then show ?thesis using refused err [OF Inl] by simp
    next
      case (Inr i)
      show ?thesis
      proof (cases "vq_add_ret e = 0")
        case True
        then have "ret = - EIOCBQUEUED" using issue \<open>kz_buf e \<and> _\<close> c Inr unfolding unfold
          by (simp add: kalloc_buf_def)
        moreover have "d' = d\<lparr>pending := (pending d)(i \<mapsto> a),
             kreqs := (kreqs d)(a \<mapsto> \<lparr>kr_cmd = cmd, kr_req_id = i, kr_buf = buf, kr_resp_buf = replicate 16 0\<rparr>),
             kbufs := Suc (Suc (kbufs d)), tx_avail := tx_avail d @ [a]\<rparr>"
          using issue \<open>kz_buf e \<and> _\<close> c Inr True unfolding unfold by (auto simp: kalloc_buf_def)
        ultimately show ?thesis using queued Some fresh Inr by blast
      next
        case False
        then have "ret = vq_add_ret e \<and> d' = d"
          using issue kr xa [OF Inr] \<open>kz_buf e \<and> _\<close> c Inr unfolding unfold by (simp add: err_exits)
        then show ?thesis using refused vq by simp
      qed
    qed
  qed
qed

lemma kd_inv_facts:
  assumes "kd_inv (d, C)"
  shows "distinct (in_flight d)" and "kreqs d a = None \<longleftrightarrow> a \<notin> set (in_flight d)"
    and "kreqs d a = Some r \<Longrightarrow> pending d (kr_req_id r) = Some a"
    and "pending d i = Some a \<Longrightarrow> (\<exists>r. kreqs d a = Some r \<and> kr_req_id r = i) \<and> 1 \<le> i \<and> i \<le> DEEPSPAN_MAX_REQUESTS"
    and "kbufs d = 2 * length (in_flight d)"
    and "C = image_mset fst (mset (cmd_done_log d)) + image_mset (cmd_of d) (mset (in_flight d))"
proof -
  have "\<forall>a. kreqs d a \<noteq> None \<longleftrightarrow> a \<in> set (in_flight d)"
    using assms by (simp add: kd_inv_def del: not_None_eq)
  then show "kreqs d a = None \<longleftrightarrow> a \<notin> set (in_flight d)" by blast
qed (use assms in \<open>simp_all add: kd_inv_def\<close>)

lemma cmd_of_frame [simp]:
  "cmd_of (d\<lparr>tx_work := x\<rparr>) = cmd_of d" "cmd_of (d\<lparr>tx_cb_enabled := y\<rparr>) = cmd_of d"
  "cmd_of (d\<lparr>rx_work := u\<rparr>) = cmd_of d" "cmd_of (d\<lparr>rx_cb_enabled := v\<rparr>) = cmd_of d"
  "cmd_of (d\<lparr>rx_used := w\<rparr>) = cmd_of d"
  by (simp_all add: cmd_of_def fun_eq_iff)

lemma kd_inv_issue:
  assumes XA: "xa_alloc_spec XA" and inv: "kd_inv (d, C)"
    and fresh: "\<forall>a. kz_req e = Some a \<longrightarrow> kreqs d a = None"
    and vq: "vq_add_ret e \<noteq> - EIOCBQUEUED" and issue: "uring_cmd_issue XA e cmd ureq d = (ret, d')"
  shows "kd_inv (d', if ret = - EIOCBQUEUED then add_mset cmd C else C)"
  using XA fresh vq issue
proof (cases rule: issue_cases)
  case refused
  then show ?thesis using inv by simp
next
  case (queued a req_id buf)
  have id: "1 \<le> req_id" "req_id \<le> DEEPSPAN_MAX_REQUESTS" "pending d req_id = None"
    using XA queued(4) by (cases "xa_flags_alloc d"; auto simp: xa_alloc_spec_def)+
  have a: "a \<notin> set (in_flight d)" using kd_inv_facts(2) [OF inv] queued(3) by blast
  have cmds: "image_mset (cmd_of d') (mset (in_flight d)) = image_mset (cmd_of d) (mset (in_flight d))"
    using a queued(5) by (intro image_mset_cong) (auto simp: cmd_of_def)
  have fl: "in_flight d' = tx_avail d @ a # tx_used d" using queued(5) by (simp add: in_flight_def)
  have "cmd_of d' a = cmd" using queued(5) by (simp add: cmd_of_def)
  then have "add_mset cmd C = image_mset fst (mset (cmd_done_log d')) + image_mset (cmd_of d') (mset (in_flight d'))"
    using kd_inv_facts(6) [OF inv] cmds queued(5) unfolding fl by (simp add: in_flight_def)
  moreover have "distinct (in_flight d')"
    using kd_inv_facts(1) [OF inv] a unfolding fl by (auto simp: in_flight_def)
  moreover have "\<forall>b. kreqs d' b \<noteq> None \<longleftrightarrow> b \<in> set (in_flight d')"
  proof
    show "kreqs d' b \<noteq> None \<longleftrightarrow> b \<in> set (in_flight d')" for b
      using kd_inv_facts(2) [OF inv, of b] queued(5) unfolding fl
      by (cases "b = a") (simp_all add: in_flight_def del: not_None_eq)
  qed
  moreover have "kbufs d' = 2 * length (in_flight d')"
    using kd_inv_facts(5) [OF inv] queued(5) unfolding fl by (simp add: in_flight_def)
  moreover have "\<forall>b r. kreqs d' b = Some r \<longrightarrow> pending d' (kr_req_id r) = Some b"
    using inv queued(5) id(3) by (auto simp: kd_inv_def)
  moreover have "\<forall>i b. pending d' i = Some b \<longrightarrow> (\<exists>r. kreqs d' b = Some r \<and> kr_req_id r = i) \<and>
        1 \<le> i \<and> i \<le> DEEPSPAN_MAX_REQUESTS"
  proof (intro allI impI)
    fix i b assume p: "pending d' i = Some b"
    show "(\<exists>r. kreqs d' b = Some r \<and> kr_req_id r = i) \<and> 1 \<le> i \<and> i \<le> DEEPSPAN_MAX_REQUESTS"
    proof (cases "i = req_id")
      case True
      then show ?thesis using p queued(5) id by simp
    next
      case False
      then have old: "pending d i = Some b" using p queued(5) by simp
      then have "b \<noteq> a" using kd_inv_facts(4) [OF inv old] queued(3) by auto
      then show ?thesis using kd_inv_facts(4) [OF inv old] queued(5) by simp
    qed
  qed
  ultimately show ?thesis using queued(1) by (simp add: kd_inv_def)
qed

lemma kd_inv_device:
  assumes inv: "kd_inv (d, C)" and a: "a \<in> set (tx_avail d)"
  shows "kd_inv (vq_device_return a resp d, C)"
proof -
  let ?d = "vq_device_return a resp d"
  have fl: "in_flight ?d = remove1 a (tx_avail d) @ tx_used d @ [a]"
    by (simp add: vq_device_return_def in_flight_def Let_def vq_tx_cb_def)
  have ms: "mset (in_flight ?d) = mset (in_flight d)"
    using a unfolding fl by (simp add: in_flight_def)
  then have set: "set (in_flight ?d) = set (in_flight d)" and len: "length (in_flight ?d) = length (in_flight d)"
    by (metis mset_eq_setD, metis mset_eq_length)
  have dist: "distinct (in_flight ?d)"
    using kd_inv_facts(1) [OF inv] ms mset_eq_imp_distinct_iff by blast
  have kr: "kreqs ?d b = (if b = a then map_option (\<lambda>r. r\<lparr>kr_resp_buf := resp\<rparr>) (kreqs d a) else kreqs d b)" for b
    by (simp add: vq_device_return_def Let_def vq_tx_cb_def)
  have rest: "pending ?d = pending d" "kbufs ?d = kbufs d" "cmd_done_log ?d = cmd_done_log d"
    by (simp_all add: vq_device_return_def Let_def vq_tx_cb_def)
  obtain r where r: "kreqs d a = Some r"
    using kd_inv_facts(2) [OF inv, of a] a by (auto simp: in_flight_def)
  have cmds: "cmd_of ?d = cmd_of d" using r by (auto simp: cmd_of_def kr fun_eq_iff)
  have "\<forall>b. kreqs ?d b \<noteq> None \<longleftrightarrow> b \<in> set (in_flight ?d)"
  proof
    show "kreqs ?d b \<noteq> None \<longleftrightarrow> b \<in> set (in_flight ?d)" for b
      using kd_inv_facts(2) [OF inv, of b] set
      by (cases "b = a") (simp_all add: kr del: not_None_eq)
  qed
  moreover have "\<forall>b q. kreqs ?d b = Some q \<longrightarrow> pending ?d (kr_req_id q) = Some b"
    using kd_inv_facts(3) [OF inv] r by (auto simp: kr rest split: if_splits)
  moreover have "\<forall>i b. pending ?d i = Some b \<longrightarrow> (\<exists>q. kreqs ?d b = Some q \<and> kr_req_id q = i) \<and>
      1 \<le> i \<and> i \<le> DEEPSPAN_MAX_REQUESTS"
    using kd_inv_facts(4) [OF inv] r by (fastforce simp: kr rest)
  ultimately show ?thesis
    using dist len ms cmds rest kd_inv_facts(5,6) [OF inv] by (simp add: kd_inv_def)
qed

lemma tx_get_buf_cons:
  assumes "tx_used d = a # rest" "kreqs d a = Some r" "result_of (kr_resp_buf r) = (st, res)"
  shows "tx_get_buf d = d\<lparr>tx_used := rest, pending := (pending d)(kr_req_id r := None),
      cmd_done_log := cmd_done_log d @ [(kr_cmd r, st, res)], kbufs := kbufs d - 2, kreqs := (kreqs d)(a := None)\<rparr>"
  using assms by (simp add: tx_get_buf_def tx_complete_def kfree_req_def kfree_buf_def)

lemma kd_inv_drain:
  assumes inv: "kd_inv (d, C)"
  shows "kd_inv (tx_get_buf d, C)"
proof (cases "tx_used d")
  case Nil
  then show ?thesis using inv by (simp add: tx_get_buf_def kd_inv_def in_flight_def)
next
  case (Cons a rest)
  have fl: "in_flight d = tx_avail d @ a # rest" by (simp add: in_flight_def Cons)
  have dist: "a \<notin> set (tx_avail d @ rest)" "distinct (tx_avail d @ rest)"
    using kd_inv_facts(1) [OF inv] by (auto simp: fl)
  obtain r where r: "kreqs d a = Some r" using kd_inv_facts(2) [OF inv, of a] by (auto simp: fl)
  obtain st res where res: "result_of (kr_resp_buf r) = (st, res)" by fastforce
  let ?d = "tx_get_buf d"
  have d': "?d = d\<lparr>tx_used := rest, pending := (pending d)(kr_req_id r := None),
      cmd_done_log := cmd_done_log d @ [(kr_cmd r, st, res)], kbufs := kbufs d - 2, kreqs := (kreqs d)(a := None)\<rparr>"
    using Cons r res by (rule tx_get_buf_cons)
  have fl': "in_flight ?d = tx_avail d @ rest" by (simp add: d' in_flight_def)
  have cmds: "image_mset (cmd_of ?d) (mset (in_flight ?d)) = image_mset (cmd_of d) (mset (in_flight ?d))"
    unfolding fl' using dist(1) by (intro image_mset_cong) (auto simp: cmd_of_def d')
  have log: "cmd_done_log ?d = cmd_done_log d @ [(kr_cmd r, st, res)]" by (simp add: d')
  have "cmd_of d a = kr_cmd r" using r by (simp add: cmd_of_def)
  then have "C = image_mset fst (mset (cmd_done_log ?d)) + image_mset (cmd_of ?d) (mset (in_flight ?d))"
    using kd_inv_facts(6) [OF inv] unfolding cmds unfolding log fl' fl by simp
  moreover have "\<forall>b. kreqs ?d b \<noteq> None \<longleftrightarrow> b \<in> set (in_flight ?d)"
  proof
    show "kreqs ?d b \<noteq> None \<longleftrightarrow> b \<in> set (in_flight ?d)" for b
      using kd_inv_facts(2) [OF inv, of b] dist(1) unfolding fl' fl
      by (cases "b = a") (simp_all add: d' del: not_None_eq)
  qed
  moreover have "kbufs ?d = 2 * length (in_flight ?d)"
    using kd_inv_facts(5) [OF inv] unfolding fl' fl by (simp add: d')
  moreover have "\<forall>b q. kreqs ?d b = Some q \<longrightarrow> pending ?d (kr_req_id q) = Some b"
  proof (intro allI impI)
    fix b q assume q: "kreqs ?d b = Some q"
    then have "b \<noteq> a" and "kreqs d b = Some q" by (auto simp: d' split: if_splits)
    moreover have "kr_req_id q \<noteq> kr_req_id r"
      using kd_inv_facts(3) [OF inv r] kd_inv_facts(3) [OF inv \<open>kreqs d b = Some q\<close>] \<open>b \<noteq> a\<close> by auto
    ultimately show "pending ?d (kr_req_id q) = Some b"
      using kd_inv_facts(3) [OF inv \<open>kreqs d b = Some q\<close>] by (simp add: d')
  qed
  moreover have "\<forall>i b. pending ?d i = Some b \<longrightarrow> (\<exists>q. kreqs ?d b = Some q \<and> kr_req_id q = i) \<and>
      1 \<le> i \<and> i \<le> DEEPSPAN_MAX_REQUESTS"
  proof (intro allI impI)
    fix i b assume p: "pending ?d i = Some b"
    then have ib: "i \<noteq> kr_req_id r" "pending d i = Some b" by (auto simp: d' split: if_splits)
    then have "b \<noteq> a" using kd_inv_facts(4) [OF inv ib(2)] r by auto
    then show "(\<exists>q. kreqs ?d b = Some q \<and> kr_req_id q = i) \<and> 1 \<le> i \<and> i \<le> DEEPSPAN_MAX_REQUESTS"
      using kd_inv_facts(4) [OF inv ib(2)] by (simp add: d')
  qed
  ultimately show ?thesis using dist(2) fl' by (simp add: kd_inv_def)
qed

lemma kd_step_inv:
  assumes "xa_alloc_spec XA"
  shows "kd_step XA s s' \<Longrightarrow> kd_inv s \<Longrightarrow> kd_inv s'"
proof (induction rule: kd_step.induct)
  case (issue e d cmd ureq ret d' C)
  then show ?case using kd_inv_issue [OF assms] by blast
next
  case (enable d C)
  then show ?case by (simp add: kd_inv_def tx_enable_cb_def in_flight_def)
next
  case (rx_return d C t)
  then show ?case by (simp add: kd_inv_def vq_rx_return_def vq_rx_cb_def Let_def in_flight_def)
next
  case (rx_run d C)
  then show ?case by (simp add: kd_inv_def deepspan_rx_work_fn_def in_flight_def)
qed (simp_all add: kd_inv_device kd_inv_drain)

lemma kd_inv_init: "kd_inv (ddev_init alloc, {#})"
  by (simp add: kd_inv_def ddev_init_def in_flight_def)

interpretation kdm: invariant_machine "\<lambda>s. s = (ddev_init alloc, {#})" "kd_step XA"
    "\<lambda>s. xa_alloc_spec XA \<longrightarrow> kd_inv s" for alloc XA
  by unfold_locales (auto simp: kd_inv_init kd_step_inv)

lemma kd_reach_inv: "xa_alloc_spec XA \<Longrightarrow> kd_reach XA alloc s \<Longrightarrow> kd_inv s"
  unfolding kd_reach_def using kdm.reachable_inv by blast

subsection \<open>The work function\<close>

lemma tx_get_buf_used: "tx_used (tx_get_buf d) = tl (tx_used d)"
  by (simp add: tx_get_buf_def tx_complete_def kfree_req_def kfree_buf_def Let_def split: list.split option.split prod.split)

termination tx_drain
  by (relation "measure (\<lambda>d. length (tx_used d))") (auto simp: tx_get_buf_used)

declare tx_drain.simps [simp del]

lemma tx_get_buf_work:
  "tx_used d \<noteq> [] \<Longrightarrow> tx_work (tx_get_buf d) = tx_work d"
  by (cases "tx_used d")
    (simp_all add: tx_get_buf_def tx_complete_def kfree_req_def kfree_buf_def Let_def split: option.split prod.split)

lemma tx_drain_reach:
  "kd_reach XA alloc (d, C) \<Longrightarrow> tx_work d = Work_draining \<Longrightarrow>
     kd_reach XA alloc (tx_drain d, C) \<and> tx_work (tx_drain d) = Work_enabling \<and> tx_used (tx_drain d) = []"
proof (induction d rule: tx_drain.induct)
  case (1 d)
  have step: "kd_reach XA alloc (tx_get_buf d, C)"
    using kd_reach_step [OF "1.prems"(1) kd_step.drain [OF "1.prems"(2)]] .
  show ?case
  proof (cases "tx_used d = []")
    case True
    then show ?thesis using step by (simp add: tx_drain.simps tx_get_buf_def)
  next
    case False
    then show ?thesis using "1.IH" [OF False step] "1.prems"(2) tx_get_buf_work [OF False]
      by (subst (1 2 3) tx_drain.simps) simp
  qed
qed

text \<open>What the work function reports for a request: its command and the result read from its slot.\<close>

definition completion_of :: "deepspan_device \<Rightarrow> nat \<Rightarrow> nat \<times> int \<times> u64" where
  "completion_of d a = (cmd_of d a, result_of (kr_resp_buf (the (kreqs d a))))"

lemma tx_drain_log:
  assumes "kd_inv (d, C)"
  shows "cmd_done_log (tx_drain d) = cmd_done_log d @ map (completion_of d) (tx_used d) \<and>
    tx_avail (tx_drain d) = tx_avail d"
  using assms
proof (induction d rule: tx_drain.induct)
  case (1 d)
  show ?case
  proof (cases "tx_used d")
    case Nil
    then show ?thesis by (simp add: tx_drain.simps tx_get_buf_def)
  next
    case (Cons a rest)
    have fl: "in_flight d = tx_avail d @ a # rest" by (simp add: in_flight_def Cons)
    obtain r where r: "kreqs d a = Some r" using kd_inv_facts(2) [OF "1.prems", of a] by (auto simp: fl)
    obtain st res where res: "result_of (kr_resp_buf r) = (st, res)" by fastforce
    have a: "a \<notin> set rest" using kd_inv_facts(1) [OF "1.prems"] by (simp add: fl)
    let ?d = "tx_get_buf d"
    have d': "?d = d\<lparr>tx_used := rest, pending := (pending d)(kr_req_id r := None),
        cmd_done_log := cmd_done_log d @ [(kr_cmd r, st, res)], kbufs := kbufs d - 2, kreqs := (kreqs d)(a := None)\<rparr>"
      using Cons r res by (rule tx_get_buf_cons)
    have "map (completion_of ?d) rest = map (completion_of d) rest"
      using a by (intro map_cong) (auto simp: d' completion_of_def cmd_of_def)
    moreover have "completion_of d a = (kr_cmd r, st, res)" by (simp add: completion_of_def cmd_of_def r res)
    moreover have "cmd_done_log ?d = cmd_done_log d @ [(kr_cmd r, st, res)]" "tx_used ?d = rest"
      "tx_avail ?d = tx_avail d" by (simp_all add: d')
    moreover have "tx_drain d = tx_drain ?d" using Cons by (subst tx_drain.simps) simp
    ultimately show ?thesis using "1.IH" [OF _ kd_inv_drain [OF "1.prems"]] Cons by simp
  qed
qed

subsection \<open>The pending table\<close>

lemma in_flight_pending:
  assumes inv: "kd_inv (d, C)"
  shows "bij_betw (\<lambda>a. kr_req_id (the (kreqs d a))) (set (in_flight d)) (dom (pending d))"
proof (rule bij_betw_byWitness [where f' = "\<lambda>i. the (pending d i)"])
  have live: "\<exists>r. kreqs d a = Some r \<and> pending d (kr_req_id r) = Some a" if "a \<in> set (in_flight d)" for a
    using kd_inv_facts(2) [OF inv, of a] kd_inv_facts(3) [OF inv] that by (cases "kreqs d a") auto
  have owner: "\<exists>r. kreqs d a = Some r \<and> kr_req_id r = i \<and> a \<in> set (in_flight d)" if "pending d i = Some a" for i a
    using kd_inv_facts(4) [OF inv that] kd_inv_facts(2) [OF inv, of a] by auto
  show "\<forall>a\<in>set (in_flight d). the (pending d (kr_req_id (the (kreqs d a)))) = a" using live by fastforce
  show "(\<lambda>a. kr_req_id (the (kreqs d a))) ` set (in_flight d) \<subseteq> dom (pending d)" using live by fastforce
  show "\<forall>i\<in>dom (pending d). kr_req_id (the (kreqs d (the (pending d i)))) = i" using owner by fastforce
  show "(\<lambda>i. the (pending d i)) ` dom (pending d) \<subseteq> set (in_flight d)" using owner by fastforce
qed

lemma in_flight_bound:
  assumes inv: "kd_inv (d, C)"
  shows "card (dom (pending d)) = length (in_flight d)" and "dom (pending d) \<subseteq> {1..DEEPSPAN_MAX_REQUESTS}"
    and "length (in_flight d) \<le> DEEPSPAN_MAX_REQUESTS"
proof -
  show card: "card (dom (pending d)) = length (in_flight d)"
    using bij_betw_same_card [OF in_flight_pending [OF inv]] distinct_card [OF kd_inv_facts(1) [OF inv]] by simp
  show sub: "dom (pending d) \<subseteq> {1..DEEPSPAN_MAX_REQUESTS}"
    using kd_inv_facts(4) [OF inv] by fastforce
  show "length (in_flight d) \<le> DEEPSPAN_MAX_REQUESTS"
    using card_mono [OF _ sub] card by simp
qed

subsection \<open>What the driver promises\<close>

text \<open>
  The abstract driver: a bag of accepted commands and the sequence of completed ones.  A
  command is accepted into the bag, and completed by moving it from the bag to the sequence.
\<close>

record job_queue =
  jq_pending :: "nat multiset"
  jq_done :: "nat list"

inductive jq_step :: "job_queue \<Rightarrow> job_queue \<Rightarrow> bool" where
  accept: "jq_step q (q\<lparr>jq_pending := add_mset c (jq_pending q)\<rparr>)"
| complete: "jq_pending q = add_mset c p \<Longrightarrow> jq_step q (q\<lparr>jq_pending := p, jq_done := jq_done q @ [c]\<rparr>)"
| internal: "jq_step q q"

definition jq_of :: "deepspan_device \<Rightarrow> job_queue" where
  "jq_of d = \<lparr>jq_pending = image_mset (cmd_of d) (mset (in_flight d)), jq_done = map fst (cmd_done_log d)\<rparr>"

lemma jq_of_step:
  assumes "kd_inv (d, C)" and "kd_inv (d', C')"
    and "C' = C \<and> cmd_done_log d' = cmd_done_log d \<or> C' = C \<and> cmd_done_log d' = cmd_done_log d @ [x] \<or>
         C' = add_mset c C \<and> cmd_done_log d' = cmd_done_log d"
  shows "jq_step (jq_of d) (jq_of d')"
proof -
  let ?p = "\<lambda>d. image_mset (cmd_of d) (mset (in_flight d))"
  have C: "C = image_mset fst (mset (cmd_done_log d)) + ?p d" "C' = image_mset fst (mset (cmd_done_log d')) + ?p d'"
    using kd_inv_facts(6) [OF assms(1)] kd_inv_facts(6) [OF assms(2)] by simp_all
  from assms(3) consider "C' = C" "cmd_done_log d' = cmd_done_log d"
    | "C' = C" "cmd_done_log d' = cmd_done_log d @ [x]" | "C' = add_mset c C" "cmd_done_log d' = cmd_done_log d"
    by blast
  then show ?thesis
  proof cases
    case 1
    then have "jq_of d' = jq_of d" using C by (simp add: jq_of_def)
    then show ?thesis by (simp add: jq_step.internal)
  next
    case 2
    then have "?p d = add_mset (fst x) (?p d')" using C by simp
    then show ?thesis
      using jq_step.complete [of "jq_of d" "fst x" "?p d'"] 2(2) by (simp add: jq_of_def)
  next
    case 3
    then have "?p d' = add_mset c (?p d)" using C by simp
    then show ?thesis using jq_step.accept [of "jq_of d" c] 3(2) by (simp add: jq_of_def)
  qed
qed

lemma tx_get_buf_log: "\<exists>x. cmd_done_log (tx_get_buf d) = cmd_done_log d \<or> cmd_done_log (tx_get_buf d) = cmd_done_log d @ [x]"
  by (auto simp: tx_get_buf_def tx_complete_def kfree_req_def kfree_buf_def Let_def split: list.split option.split prod.split)

lemma kd_step_jq:
  assumes XA: "xa_alloc_spec XA" and inv: "kd_inv (d, C)" and step: "kd_step XA (d, C) (d', C')"
  shows "jq_step (jq_of d) (jq_of d')"
proof -
  have inv': "kd_inv (d', C')" using kd_step_inv [OF XA step inv] .
  from step show ?thesis
  proof (cases rule: kd_step.cases)
    case (issue e cmd ureq ret)
    have "cmd_done_log d' = cmd_done_log d" using XA issue(2,3,4) by (cases rule: issue_cases) simp_all
    then show ?thesis using jq_of_step [OF inv inv', of _ cmd] issue(1) by auto
  next
    case drain
    then show ?thesis using jq_of_step [OF inv inv'] tx_get_buf_log [of d] by metis
  qed (intro jq_of_step [OF inv inv', of undefined 0],
      simp add: vq_device_return_def vq_tx_cb_def tx_enable_cb_def vq_rx_return_def vq_rx_cb_def deepspan_rx_work_fn_def Let_def)+
qed

interpretation kdr: refined_machine "\<lambda>s. s = (ddev_init alloc, {#})" "kd_step XA"
    "\<lambda>s. xa_alloc_spec XA \<longrightarrow> kd_inv s" "\<lambda>s. jq_of (fst s)" "\<lambda>q q'. xa_alloc_spec XA \<longrightarrow> jq_step q q'" for alloc XA
proof
  fix s s' :: "deepspan_device \<times> nat multiset"
  show "xa_alloc_spec XA \<longrightarrow> kd_inv s \<Longrightarrow> kd_step XA s s' \<Longrightarrow> xa_alloc_spec XA \<longrightarrow> jq_step (jq_of (fst s)) (jq_of (fst s'))"
    using kd_step_jq by (cases s; cases s') auto
qed

lemma kd_reach_jq:
  "xa_alloc_spec XA \<Longrightarrow> kd_reach XA alloc (d, C) \<Longrightarrow> jq_step\<^sup>*\<^sup>* (jq_of (ddev_init alloc)) (jq_of d)"
  unfolding kd_reach_def using kdr.reachable_refines by fastforce

subsection \<open>An allocator, for the examples\<close>

definition xa_lowest :: xa_alloc where
  "xa_lowest alloc p =
     (if alloc then (case find (\<lambda>i. p i = None) [1..<Suc DEEPSPAN_MAX_REQUESTS] of None \<Rightarrow> Inl (- 16) | Some i \<Rightarrow> Inr i) else Inl (- 22))"

lemma xa_lowest_spec: "xa_alloc_spec xa_lowest"
  by (auto simp: xa_alloc_spec_def xa_lowest_def EIOCBQUEUED_def find_Some_iff simp del: upt_Suc
      split: option.splits)

lemma xa_lowest_free: "p 1 = None \<Longrightarrow> xa_lowest True p = Inr 1"
proof -
  have "[1..<Suc DEEPSPAN_MAX_REQUESTS] = 1 # [2..<Suc DEEPSPAN_MAX_REQUESTS]"
    using upt_conv_Cons [of 1 "Suc DEEPSPAN_MAX_REQUESTS"] by (simp add: DEEPSPAN_MAX_REQUESTS_def numeral_2_eq_2 del: upt_Suc upt_rec_numeral)
  then show "p 1 = None \<Longrightarrow> xa_lowest True p = Inr 1" by (simp add: xa_lowest_def del: upt_Suc)
qed

definition plain_env :: "nat \<Rightarrow> issue_env" where
  "plain_env a = \<lparr>kz_req = Some a, kz_buf = True, kz_resp = True, user_bytes = None, vq_add_ret = 0\<rparr>"

definition plain_req :: deepspan_req where
  "plain_req = \<lparr>rq_opcode = 1, rq_flags = 0, rq_data_ptr = 0, rq_data_len = 0, rq_timeout_ms = 0\<rparr>"

definition resp_bytes :: "u8 list" where
  "resp_bytes = [0, 0, 0, 0, 1, 0, 0, 0, 2, 0, 0, 0, 0, 0, 0, 0]"

definition one_issued :: "nat \<Rightarrow> nat \<Rightarrow> deepspan_device" where
  "one_issued a cmd = snd (uring_cmd_issue xa_lowest (plain_env a) cmd plain_req (ddev_init True))"

lemma one_issued:
  "uring_cmd_issue xa_lowest (plain_env a) cmd plain_req (ddev_init True) = (- EIOCBQUEUED, one_issued a cmd)"
  "tx_avail (one_issued a cmd) = [a]" "tx_used (one_issued a cmd) = []" "tx_work (one_issued a cmd) = Work_idle"
  "tx_cb_enabled (one_issued a cmd)" "rx_cb_enabled (one_issued a cmd)"
  by (simp_all add: one_issued_def uring_cmd_issue_def plain_env_def plain_req_def ddev_init_def kalloc_buf_def
      xa_lowest_free [simplified] Let_def)

lemma one_issued_reach: "kd_reach xa_lowest True (one_issued a cmd, {#cmd#})"
proof -
  have "kd_step xa_lowest (ddev_init True, {#}) (one_issued a cmd, {#cmd#})"
    using kd_step.issue [OF _ _ one_issued(1), of a "{#}" cmd] by (simp add: plain_env_def ddev_init_def EIOCBQUEUED_def)
  then show ?thesis using kd_reach_step [OF kd_reach_start] by blast
qed

subsection \<open>Properties\<close>

text \<open>
  C8. Whatever the interleaving of submissions, device completions, interrupts and the work
  function, every accepted command is either still with the device or has been completed
  exactly once; the live request objects are the ones with the device, each with two buffers
  and its own identifier between 1 and 4096, so nothing leaks and nothing is freed twice.
\<close>

theorem kernel_requests_exactly_once:
  assumes "xa_alloc_spec XA" and "kd_reach XA alloc (d, C)"
  shows "C = image_mset fst (mset (cmd_done_log d)) + image_mset (cmd_of d) (mset (in_flight d)) \<and>
    distinct (in_flight d) \<and> {a. kreqs d a \<noteq> None} = set (in_flight d) \<and>
    kbufs d = 2 * length (in_flight d) \<and>
    card (dom (pending d)) = length (in_flight d) \<and> dom (pending d) \<subseteq> {1..DEEPSPAN_MAX_REQUESTS}"
proof -
  have inv: "kd_inv (d, C)" using kd_reach_inv assms by blast
  have "{a. kreqs d a \<noteq> None} = set (in_flight d)" using kd_inv_facts(2) [OF inv] by auto
  then show ?thesis using kd_inv_facts [OF inv] in_flight_bound [OF inv] by blast
qed

theorem kernel_requests_exactly_once_witness:
  "let d = one_issued 7 5 in
     {#5#} = image_mset fst (mset (cmd_done_log d)) + image_mset (cmd_of d) (mset (in_flight d)) \<and>
     kbufs d = 2 * length (in_flight d) \<and> card (dom (pending d)) = 1"
  using kernel_requests_exactly_once [OF xa_lowest_spec one_issued_reach, of 5 7]
  by (simp add: Let_def in_flight_def one_issued)

text \<open>
  C9. Every step of the driver, of the device and of the interrupts is a step of the abstract
  driver: it accepts one command, completes one command it had accepted, or changes nothing
  the user can observe; so every state the driver reaches is one the abstract driver reaches
  from its empty start.
\<close>

theorem kernel_refines_job_queue:
  assumes "xa_alloc_spec XA" and "kd_reach XA alloc (d, C)" and "kd_step XA (d, C) (d', C')"
  shows "jq_step (jq_of d) (jq_of d') \<and> jq_step\<^sup>*\<^sup>* \<lparr>jq_pending = {#}, jq_done = []\<rparr> (jq_of d)"
proof -
  have "jq_of (ddev_init alloc) = \<lparr>jq_pending = {#}, jq_done = []\<rparr>"
    by (simp add: jq_of_def ddev_init_def in_flight_def)
  then show ?thesis
    using kd_step_jq [OF assms(1) kd_reach_inv [OF assms(1,2)] assms(3)] kd_reach_jq [OF assms(1,2)] by simp
qed

theorem kernel_refines_job_queue_witness:
  "jq_step (jq_of (one_issued 7 5)) (jq_of (vq_device_return 7 resp_bytes (one_issued 7 5)))"
  using kernel_refines_job_queue [OF xa_lowest_spec one_issued_reach [of 7 5] kd_step.device [of 7]]
  by (simp add: one_issued)


definition one_returned :: "nat \<Rightarrow> nat \<Rightarrow> deepspan_device" where
  "one_returned a cmd = vq_device_return a resp_bytes (one_issued a cmd)"

lemma one_returned_reach: "kd_reach xa_lowest True (one_returned a cmd, {#cmd#})"
  using kd_reach_step [OF one_issued_reach kd_step.device] by (simp add: one_returned_def one_issued)

lemma one_returned: "tx_work (one_returned a cmd) = Work_draining" "tx_used (one_returned a cmd) = [a]"
  "tx_avail (one_returned a cmd) = []" "cmd_done_log (one_returned a cmd) = []"
  by (simp_all add: one_returned_def vq_device_return_def Let_def one_issued vq_tx_cb_def,
      simp_all add: one_issued_def uring_cmd_issue_def plain_env_def plain_req_def ddev_init_def kalloc_buf_def
      xa_lowest_free [simplified] Let_def)


definition late_return :: "nat \<Rightarrow> deepspan_device \<Rightarrow> deepspan_device" where
  "late_return b d = tx_enable_cb (vq_device_return b resp_bytes (tx_get_buf d))"

lemma idle_stuck:
  assumes "tx_work d = Work_idle" "tx_avail d = []" "kd_step XA (d, C) (d', C')" "xa_alloc_spec XA"
  shows "tx_used d' = tx_used d \<and> tx_work d' = Work_idle \<and> cmd_done_log d' = cmd_done_log d"
  using assms(3,1,2)
proof (cases rule: kd_step.cases)
  case (issue e cmd ureq ret)
  show ?thesis using assms(4) issue(2,3,4)
    by (cases rule: issue_cases) (use assms(1) in simp_all)
qed (simp_all add: vq_rx_return_def vq_rx_cb_def deepspan_rx_work_fn_def Let_def)

text \<open>
  C35. The completion notice can be lost: the work function ignores the answer of
  \<^verbatim>\<open>virtqueue_enable_cb\<close>, so a request the device returns between the last
  \<^verbatim>\<open>virtqueue_get_buf\<close> and the re-enabling is left in the queue with no work scheduled, and no
  step of the driver or of the device completes it until a later command is returned.
\<close>

theorem kernel_lost_wakeup:
  assumes "xa_alloc_spec XA" and "kd_reach XA alloc (d, C)" and "tx_work d = Work_draining" and "tx_used d = []"
    and "tx_avail d = [b]" and "\<not> tx_cb_enabled d"
  shows "kd_reach XA alloc (late_return b d, C) \<and> tx_used (late_return b d) = [b] \<and> tx_cb_enabled (late_return b d) \<and>
     (\<forall>d' C'. kd_step XA (late_return b d, C) (d', C') \<longrightarrow>
        tx_used d' = [b] \<and> tx_work d' = Work_idle \<and> cmd_done_log d' = cmd_done_log d)"
proof -
  let ?a = "tx_get_buf d" and ?b = "vq_device_return b resp_bytes (tx_get_buf d)"
  have a: "?a = d\<lparr>tx_work := Work_enabling\<rparr>" using assms(4) by (simp add: tx_get_buf_def)
  have "kd_reach XA alloc (?a, C)" using kd_reach_step [OF assms(2) kd_step.drain [OF assms(3)]] .
  then have "kd_reach XA alloc (?b, C)" using kd_reach_step kd_step.device assms(5) a by fastforce
  moreover have "tx_work ?b = Work_enabling" using assms(6) by (simp add: a vq_device_return_def)
  ultimately have "kd_reach XA alloc (late_return b d, C)"
    unfolding late_return_def using kd_reach_step kd_step.enable by blast
  moreover have state: "tx_used (late_return b d) = [b]" "tx_cb_enabled (late_return b d)"
    "tx_work (late_return b d) = Work_idle" "tx_avail (late_return b d) = []"
    "cmd_done_log (late_return b d) = cmd_done_log d"
    using assms(4,5,6) by (simp_all add: late_return_def a vq_device_return_def tx_enable_cb_def)
  ultimately show ?thesis using idle_stuck [OF state(3,4) _ assms(1)] by fastforce
qed

definition one_waiting :: deepspan_device where
  "one_waiting = snd (uring_cmd_issue xa_lowest (plain_env 8) 6 plain_req (tx_get_buf (one_returned 7 5)))"

lemma one_waiting:
  "kreqs (tx_get_buf (one_returned 7 5)) 8 = None"
  "uring_cmd_issue xa_lowest (plain_env 8) 6 plain_req (tx_get_buf (one_returned 7 5)) = (- EIOCBQUEUED, one_waiting)"
  "tx_work one_waiting = Work_draining" "tx_used one_waiting = []" "tx_avail one_waiting = [8]"
  "\<not> tx_cb_enabled one_waiting"
  by (simp_all add: one_waiting_def one_returned_def vq_device_return_def vq_tx_cb_def tx_get_buf_def tx_complete_def
      one_issued_def uring_cmd_issue_def plain_env_def plain_req_def ddev_init_def kalloc_buf_def kfree_req_def
      kfree_buf_def xa_lowest_free [simplified] Let_def split: prod.split)

theorem kernel_lost_wakeup_witness:
  "kd_reach xa_lowest True (late_return 8 one_waiting, {#6, 5#}) \<and> tx_used (late_return 8 one_waiting) = [8]"
proof -
  have "kd_step xa_lowest (tx_get_buf (one_returned 7 5), {#5#}) (one_waiting, {#6, 5#})"
    using kd_step.issue [OF _ _ one_waiting(2), of "{#5#}"] one_waiting(1) by (simp add: plain_env_def EIOCBQUEUED_def)
  moreover have "kd_reach xa_lowest True (tx_get_buf (one_returned 7 5), {#5#})"
    using kd_reach_step [OF one_returned_reach kd_step.drain] one_returned(1) by blast
  ultimately have "kd_reach xa_lowest True (one_waiting, {#6, 5#})" using kd_reach_step by blast
  then show ?thesis using kernel_lost_wakeup [OF xa_lowest_spec _ one_waiting(3,4,5,6)] by blast
qed

lemma tx_empty_frame:
  "tx_used (vq_rx_return t d) = tx_used d" "tx_avail (vq_rx_return t d) = tx_avail d"
  "xa_flags_alloc (vq_rx_return t d) = xa_flags_alloc d" "cmd_done_log (vq_rx_return t d) = cmd_done_log d"
  by (simp_all add: vq_rx_return_def vq_rx_cb_def Let_def)

text \<open>A device with no allocating XArray and nothing in flight stays so.\<close>

definition quiet :: "deepspan_device \<Rightarrow> bool" where
  "quiet d \<longleftrightarrow> \<not> xa_flags_alloc d \<and> in_flight d = []"

lemma quiet_step:
  assumes XA: "xa_alloc_spec XA" and d: "quiet d" and step: "kd_step XA (d, C) (d', C')"
  shows "quiet d' \<and> C' = C \<and> cmd_done_log d' = cmd_done_log d"
  using step
proof (cases rule: kd_step.cases)
  case (issue e cmd ureq ret)
  show ?thesis using XA issue(2,3,4)
  proof (cases rule: issue_cases)
    case (queued a req_id buf)
    then show ?thesis using XA d by (simp add: xa_alloc_spec_def quiet_def)
  qed (use d issue in simp)
qed (use d in \<open>auto simp: quiet_def in_flight_def tx_get_buf_def tx_enable_cb_def tx_empty_frame deepspan_rx_work_fn_def\<close>)

interpretation kdq: invariant_machine "\<lambda>s. s = (ddev_init False, {#})" "kd_step XA"
    "\<lambda>s. xa_alloc_spec XA \<longrightarrow> quiet (fst s) \<and> snd s = {#} \<and> cmd_done_log (fst s) = []" for XA
proof
  fix s s' :: "deepspan_device \<times> nat multiset"
  show "s = (ddev_init False, {#}) \<Longrightarrow> xa_alloc_spec XA \<longrightarrow> quiet (fst s) \<and> snd s = {#} \<and> cmd_done_log (fst s) = []"
    by (simp add: ddev_init_def quiet_def in_flight_def)
  show "xa_alloc_spec XA \<longrightarrow> quiet (fst s) \<and> snd s = {#} \<and> cmd_done_log (fst s) = [] \<Longrightarrow> kd_step XA s s' \<Longrightarrow>
      xa_alloc_spec XA \<longrightarrow> quiet (fst s') \<and> snd s' = {#} \<and> cmd_done_log (fst s') = []"
    using quiet_step [of XA] by (cases s; cases s') fastforce
qed

lemma plain_xarray_reach:
  "xa_alloc_spec XA \<Longrightarrow> kd_reach XA False s \<Longrightarrow> quiet (fst s) \<and> snd s = {#} \<and> cmd_done_log (fst s) = []"
  unfolding kd_reach_def using kdq.reachable_inv by blast

text \<open>
  C36. A device whose XArray was initialised with \<^verbatim>\<open>xa_init\<close>, as probe does, and not with
  \<^verbatim>\<open>XA_FLAGS_ALLOC\<close>, accepts no command at all: every submission fails with an error and
  leaves no trace.
\<close>

theorem plain_xarray_refuses_commands:
  assumes "xa_alloc_spec XA" and "kd_reach XA False (d, C)"
    and "\<forall>a. kz_req e = Some a \<longrightarrow> kreqs d a = None" and "vq_add_ret e \<noteq> - EIOCBQUEUED"
    and "uring_cmd_issue XA e cmd ureq d = (r, d')"
  shows "r \<noteq> - EIOCBQUEUED \<and> d' = d \<and> C = {#} \<and> cmd_done_log d = []"
proof -
  have reach: "\<not> xa_flags_alloc d" "C = {#}" "cmd_done_log d = []"
    using plain_xarray_reach [OF assms(1,2)] by (simp_all add: quiet_def)
  show ?thesis using assms(1,3,4,5)
  proof (cases rule: issue_cases)
    case (queued a req_id buf)
    then show ?thesis using assms(1) reach(1) by (simp add: xa_alloc_spec_def)
  qed (use reach in simp)
qed

theorem plain_xarray_refuses_commands_witness:
  "uring_cmd_issue xa_lowest (plain_env 7) 5 plain_req (ddev_init False) = (- 22, ddev_init False)"
proof -
  obtain r d' where issue: "uring_cmd_issue xa_lowest (plain_env 7) 5 plain_req (ddev_init False) = (r, d')"
    by fastforce
  have "d' = ddev_init False"
    using plain_xarray_refuses_commands [OF xa_lowest_spec kd_reach_start _ _ issue]
    by (simp add: plain_env_def ddev_init_def EIOCBQUEUED_def)
  moreover have "r = - 22"
    using issue by (simp add: uring_cmd_issue_def plain_env_def plain_req_def ddev_init_def xa_lowest_def
        kalloc_buf_def Let_def)
  ultimately show ?thesis using issue by simp
qed

end
