(* ===== verification/Kernel_Module.thy ===== *)
theory Kernel_Module
  imports Kernel_Driver Device_Id
begin

text \<open>
  Life cycle of the kernel module: loading and unloading (\<^verbatim>\<open>deepspan_main.c\<close>), binding a virtio
  device and removing it (\<^verbatim>\<open>deepspan_virtio.c\<close>), the work items (\<^verbatim>\<open>deepspan_vqueue.c\<close>) and the
  version attribute (\<^verbatim>\<open>deepspan_sysfs.c\<close>).  The state lists what the kernel keeps for the module;
  the answers of the kernel's calls are inputs, and the identifier allocator is the
  parameter \<open>IDA\<close> with its documented behaviour \<open>ida_spec\<close>.
\<close>

subsection \<open>State\<close>

record ddev =
  dd_minor :: nat
  dd_data :: deepspan_device

record kernel =
  k_chrdev_region :: bool
  k_class :: bool
  k_driver :: bool
  k_ida :: "nat set"
  k_cdevs :: "nat set"
  k_devnodes :: "nat set"
  k_sysfs :: "nat set"
  k_vqs :: "nat set"
  k_ready :: "nat set"
  k_ddevs :: "nat \<Rightarrow> ddev option"
  k_orphans :: "nat multiset"

text \<open>
  \<open>k_ddevs\<close> are the live device objects by virtio device; \<open>k_orphans\<close> records the commands whose
  request objects are still allocated when their device object is freed.
\<close>

definition kernel_boot :: kernel where
  "kernel_boot =
     \<lparr>k_chrdev_region = False, k_class = False, k_driver = False, k_ida = {}, k_cdevs = {}, k_devnodes = {},
      k_sysfs = {}, k_vqs = {}, k_ready = {}, k_ddevs = Map.empty, k_orphans = {#}\<rparr>"

type_synonym ida_alloc = "nat set \<Rightarrow> nat \<Rightarrow> int + nat"

definition ida_spec :: "ida_alloc \<Rightarrow> bool" where
  "ida_spec IDA \<longleftrightarrow>
     (\<forall>s m e. IDA s m = Inl e \<longrightarrow> e < 0) \<and> (\<forall>s m i. IDA s m = Inr i \<longrightarrow> i \<le> m \<and> i \<notin> s)"

subsection \<open>The character device\<close>

record probe_env =
  pe_kzalloc :: bool
  pe_find_vqs :: int
  pe_cdev_add :: int
  pe_device_create :: int
  pe_sysfs :: int

definition deepspan_cdev_add :: "ida_alloc \<Rightarrow> probe_env \<Rightarrow> kernel \<Rightarrow> (int + nat) \<times> kernel" where
  "deepspan_cdev_add IDA e k =
     (case IDA (k_ida k) (DEEPSPAN_MAX_DEVICES - 1) of
        Inl ret \<Rightarrow> (Inl ret, k)
      | Inr minor \<Rightarrow>
          let k = k\<lparr>k_ida := insert minor (k_ida k)\<rparr> in
          if pe_cdev_add e \<noteq> 0 then (Inl (pe_cdev_add e), k\<lparr>k_ida := k_ida k - {minor}\<rparr>)
          else
            let k = k\<lparr>k_cdevs := insert minor (k_cdevs k)\<rparr> in
            if pe_device_create e \<noteq> 0
            then (Inl (pe_device_create e), k\<lparr>k_cdevs := k_cdevs k - {minor}, k_ida := k_ida k - {minor}\<rparr>)
            else (Inr minor, k\<lparr>k_devnodes := insert minor (k_devnodes k)\<rparr>))"

definition deepspan_cdev_del :: "nat \<Rightarrow> kernel \<Rightarrow> kernel" where
  "deepspan_cdev_del minor k =
     (let k = k\<lparr>k_devnodes := k_devnodes k - {minor}\<rparr>;
          k = k\<lparr>k_cdevs := k_cdevs k - {minor}\<rparr>
      in k\<lparr>k_ida := k_ida k - {minor}\<rparr>)"

subsection \<open>Sysfs\<close>

definition DEEPSPAN_UAPI_VERSION :: nat where "DEEPSPAN_UAPI_VERSION = 1"

definition version_show :: string where
  "version_show = to_string (int DEEPSPAN_UAPI_VERSION) @ [CHR 0x0A]"

definition deepspan_sysfs_init :: "probe_env \<Rightarrow> nat \<Rightarrow> kernel \<Rightarrow> int \<times> kernel" where
  "deepspan_sysfs_init e minor k =
     (if pe_sysfs e = 0 then (0, k\<lparr>k_sysfs := insert minor (k_sysfs k)\<rparr>) else (pe_sysfs e, k))"

definition deepspan_sysfs_exit :: "nat \<Rightarrow> kernel \<Rightarrow> kernel" where
  "deepspan_sysfs_exit minor k = k\<lparr>k_sysfs := k_sysfs k - {minor}\<rparr>"

subsection \<open>Queues and work items\<close>

datatype vq_callback = deepspan_vq_tx_cb | deepspan_vq_rx_cb

definition deepspan_vqueue_init :: "deepspan_device \<Rightarrow> deepspan_device \<times> (string \<times> vq_callback) list" where
  "deepspan_vqueue_init d =
     (d\<lparr>tx_work := Work_idle, rx_work := False\<rparr>, [(''tx'', deepspan_vq_tx_cb), (''rx'', deepspan_vq_rx_cb)])"

text \<open>
  \<^verbatim>\<open>cancel_work_sync\<close> drops a work item that has not started and waits for one that runs; \<open>tx_runs\<close>
  and \<open>rx_runs\<close> say which it is.
\<close>

definition cancel_tx_work :: "bool \<Rightarrow> deepspan_device \<Rightarrow> deepspan_device" where
  "cancel_tx_work tx_runs d =
     (case tx_work d of
        Work_idle \<Rightarrow> d
      | Work_draining \<Rightarrow> if tx_runs then deepspan_tx_work_fn d else d\<lparr>tx_work := Work_idle\<rparr>
      | Work_enabling \<Rightarrow> tx_enable_cb d)"

definition cancel_rx_work :: "bool \<Rightarrow> deepspan_device \<Rightarrow> deepspan_device" where
  "cancel_rx_work rx_runs d =
     (if \<not> rx_work d then d else if rx_runs then deepspan_rx_work_fn d else d\<lparr>rx_work := False\<rparr>)"

definition deepspan_vqueue_cleanup :: "bool \<Rightarrow> bool \<Rightarrow> deepspan_device \<Rightarrow> deepspan_device" where
  "deepspan_vqueue_cleanup tx_runs rx_runs d = cancel_rx_work rx_runs (cancel_tx_work tx_runs d)"

subsection \<open>Probe and remove\<close>

definition probe_err_free :: "nat \<Rightarrow> kernel \<Rightarrow> kernel" where
  "probe_err_free v k = k\<lparr>k_ddevs := (k_ddevs k)(v := None)\<rparr>"

definition probe_err_vqs :: "nat \<Rightarrow> kernel \<Rightarrow> kernel" where
  "probe_err_vqs v k = probe_err_free v (k\<lparr>k_vqs := k_vqs k - {v}\<rparr>)"

definition deepspan_virtio_probe :: "ida_alloc \<Rightarrow> probe_env \<Rightarrow> nat \<Rightarrow> kernel \<Rightarrow> int \<times> kernel" where
  "deepspan_virtio_probe IDA e v k =
     (if \<not> pe_kzalloc e then (- ENOMEM, k)
      else
        let (data, vqs_info) = deepspan_vqueue_init (ddev_init False);
            k = k\<lparr>k_ddevs := (k_ddevs k)(v \<mapsto> \<lparr>dd_minor = 0, dd_data = data\<rparr>)\<rparr> in
        if pe_find_vqs e \<noteq> 0 then (pe_find_vqs e, probe_err_free v k)
        else
          let k = k\<lparr>k_vqs := insert v (k_vqs k), k_ready := insert v (k_ready k)\<rparr> in
          case deepspan_cdev_add IDA e k of
            (Inl ret, k) \<Rightarrow> (ret, probe_err_vqs v k)
          | (Inr minor, k) \<Rightarrow>
              let k = k\<lparr>k_ddevs := (k_ddevs k)(v \<mapsto> \<lparr>dd_minor = minor, dd_data = data\<rparr>)\<rparr>
              in (0, snd (deepspan_sysfs_init e minor k)))"

definition deepspan_virtio_remove :: "bool \<Rightarrow> bool \<Rightarrow> nat \<Rightarrow> kernel \<Rightarrow> kernel" where
  "deepspan_virtio_remove tx_runs rx_runs v k =
     (case k_ddevs k v of
        None \<Rightarrow> k
      | Some dd \<Rightarrow>
          let k = deepspan_sysfs_exit (dd_minor dd) k;
              d = deepspan_vqueue_cleanup tx_runs rx_runs (dd_data dd);
              k = deepspan_cdev_del (dd_minor dd) k;
              k = k\<lparr>k_ready := k_ready k - {v}\<rparr>;
              k = k\<lparr>k_vqs := k_vqs k - {v}\<rparr>
          in k\<lparr>k_ddevs := (k_ddevs k)(v := None),
               k_orphans := k_orphans k + image_mset (cmd_of d) (mset (in_flight d))\<rparr>)"

subsection \<open>Module load and unload\<close>

record init_env =
  ie_chrdev :: int
  ie_class :: int
  ie_register :: int

definition deepspan_init :: "init_env \<Rightarrow> kernel \<Rightarrow> int \<times> kernel" where
  "deepspan_init e k =
     (if ie_chrdev e \<noteq> 0 then (ie_chrdev e, k)
      else
        let k = k\<lparr>k_chrdev_region := True\<rparr> in
        if ie_class e \<noteq> 0 then (ie_class e, k\<lparr>k_chrdev_region := False\<rparr>)
        else
          let k = k\<lparr>k_class := True\<rparr> in
          if ie_register e \<noteq> 0 then (ie_register e, k\<lparr>k_class := False, k_chrdev_region := False\<rparr>)
          else (0, k\<lparr>k_driver := True\<rparr>))"

text \<open>
  Unregistering the driver removes every device still bound, in an order the driver core
  chooses (\<open>vs\<close>); \<^verbatim>\<open>ida_destroy\<close> frees what the allocator still holds.
\<close>

definition deepspan_exit :: "(nat \<times> bool \<times> bool) list \<Rightarrow> kernel \<Rightarrow> kernel" where
  "deepspan_exit vs k =
     (let k = foldl (\<lambda>k (v, tx_runs, rx_runs). deepspan_virtio_remove tx_runs rx_runs v k) k vs;
          k = k\<lparr>k_driver := False\<rparr>
      in k\<lparr>k_class := False, k_chrdev_region := False, k_ida := {}\<rparr>)"

subsection \<open>Everything that can happen to the module\<close>

inductive mod_step :: "xa_alloc \<Rightarrow> ida_alloc \<Rightarrow> kernel \<Rightarrow> kernel \<Rightarrow> bool" for XA IDA where
  load: "\<not> k_driver k \<Longrightarrow> deepspan_init e k = (r, k') \<Longrightarrow> mod_step XA IDA k k'"
| probe: "k_driver k \<Longrightarrow> k_ddevs k v = None \<Longrightarrow> deepspan_virtio_probe IDA e v k = (r, k') \<Longrightarrow> mod_step XA IDA k k'"
| run: "k_ddevs k v = Some dd \<Longrightarrow> kd_step XA (dd_data dd, C) (d', C') \<Longrightarrow>
    mod_step XA IDA k (k\<lparr>k_ddevs := (k_ddevs k)(v \<mapsto> dd\<lparr>dd_data := d'\<rparr>)\<rparr>)"
| remove: "k_ddevs k v = Some dd \<Longrightarrow> mod_step XA IDA k (deepspan_virtio_remove tx_runs rx_runs v k)"
| unload: "k_driver k \<Longrightarrow> fst ` set vs = dom (k_ddevs k) \<Longrightarrow> mod_step XA IDA k (deepspan_exit vs k)"

definition mod_reach :: "xa_alloc \<Rightarrow> ida_alloc \<Rightarrow> kernel \<Rightarrow> bool" where
  "mod_reach XA IDA = reachable (\<lambda>k. k = kernel_boot) (mod_step XA IDA)"

lemma mod_reach_boot: "mod_reach XA IDA kernel_boot"
  by (simp add: mod_reach_def reachable_start)

lemma mod_reach_step: "mod_reach XA IDA k \<Longrightarrow> mod_step XA IDA k k' \<Longrightarrow> mod_reach XA IDA k'"
  unfolding mod_reach_def by (rule reachable_step)

definition minors :: "kernel \<Rightarrow> nat set" where
  "minors k = dd_minor ` ran (k_ddevs k)"

definition mod_inv :: "kernel \<Rightarrow> bool" where
  "mod_inv k \<longleftrightarrow>
     k_ida k = minors k \<and> k_cdevs k = minors k \<and> k_devnodes k = minors k \<and> k_sysfs k \<subseteq> minors k \<and>
     minors k \<subseteq> {..<DEEPSPAN_MAX_DEVICES} \<and> k_vqs k = dom (k_ddevs k) \<and>
     (\<forall>v w x y. k_ddevs k v = Some x \<longrightarrow> k_ddevs k w = Some y \<longrightarrow> dd_minor x = dd_minor y \<longrightarrow> v = w) \<and>
     (\<forall>v x. k_ddevs k v = Some x \<longrightarrow> quiet (dd_data x)) \<and> k_orphans k = {#} \<and>
     (dom (k_ddevs k) \<noteq> {} \<longrightarrow> k_driver k) \<and> k_class k = k_driver k \<and> k_chrdev_region k = k_driver k"

lemma mod_inv_boot: "mod_inv (kernel_boot\<lparr>k_ready := R\<rparr>)"
  by (simp add: mod_inv_def kernel_boot_def minors_def)

subsection \<open>Probe\<close>

lemma probe_cases:
  assumes IDA: "ida_spec IDA" and inv: "mod_inv k" and v: "k_ddevs k v = None"
    and probe: "deepspan_virtio_probe IDA e v k = (r, k')"
  obtains (failed) R where "r \<noteq> 0" and "k' = k\<lparr>k_ready := R\<rparr>"
  | (bound) m S where "r = 0" and "m \<notin> minors k" and "m < DEEPSPAN_MAX_DEVICES" and "S = k_sysfs k \<or> S = insert m (k_sysfs k)"
      and "k' = k\<lparr>k_ddevs := (k_ddevs k)(v \<mapsto> \<lparr>dd_minor = m, dd_data = ddev_init False\<rparr>), k_vqs := insert v (k_vqs k),
             k_ready := insert v (k_ready k), k_ida := insert m (k_ida k), k_cdevs := insert m (k_cdevs k),
             k_devnodes := insert m (k_devnodes k), k_sysfs := S\<rparr>"
proof -
  have noop: "(k_ddevs k)(v := None) = k_ddevs k" "k_vqs k - {v} = k_vqs k"
    using inv v by (auto simp: mod_inv_def fun_eq_iff)
  have init: "deepspan_vqueue_init (ddev_init False) = (ddev_init False, [(''tx'', deepspan_vq_tx_cb), (''rx'', deepspan_vq_rx_cb)])"
    by (simp add: deepspan_vqueue_init_def ddev_init_def)
  note unfold = deepspan_virtio_probe_def init deepspan_cdev_add_def probe_err_vqs_def probe_err_free_def deepspan_sysfs_init_def
  consider "\<not> pe_kzalloc e \<or> pe_find_vqs e \<noteq> 0"
    | ret where "pe_kzalloc e" "pe_find_vqs e = 0" "IDA (k_ida k) (DEEPSPAN_MAX_DEVICES - 1) = Inl ret"
    | m where "pe_kzalloc e" "pe_find_vqs e = 0" "IDA (k_ida k) (DEEPSPAN_MAX_DEVICES - 1) = Inr m"
    by (cases "IDA (k_ida k) (DEEPSPAN_MAX_DEVICES - 1)") blast+
  then show ?thesis
  proof cases
    case 1
    then show ?thesis using probe noop failed [of "k_ready k"]
      by (auto simp: unfold ENOMEM_def split: if_splits)
  next
    case 2
    then have "ret < 0" using IDA by (simp add: ida_spec_def)
    then show ?thesis using probe noop 2 failed [of "insert v (k_ready k)"] by (simp add: unfold)
  next
    case (3 m)
    then have m: "m \<notin> k_ida k" "m < DEEPSPAN_MAX_DEVICES"
      using IDA by (fastforce simp: ida_spec_def DEEPSPAN_MAX_DEVICES_def)+
    then have m': "m \<notin> minors k" "k_ida k - {m} = k_ida k" "k_cdevs k - {m} = k_cdevs k"
      using inv by (auto simp: mod_inv_def)
    show ?thesis
    proof (cases "pe_cdev_add e \<noteq> 0 \<or> pe_device_create e \<noteq> 0")
      case True
      then show ?thesis using probe noop 3 m' failed [of "insert v (k_ready k)"]
        by (auto simp: unfold Let_def split: if_splits)
    next
      case False
      define S where "S = (if pe_sysfs e = 0 then insert m (k_sysfs k) else k_sysfs k)"
      have "(r, k') = (0, k\<lparr>k_ddevs := (k_ddevs k)(v \<mapsto> \<lparr>dd_minor = m, dd_data = ddev_init False\<rparr>),
          k_vqs := insert v (k_vqs k), k_ready := insert v (k_ready k), k_ida := insert m (k_ida k),
          k_cdevs := insert m (k_cdevs k), k_devnodes := insert m (k_devnodes k), k_sysfs := S\<rparr>)"
        using False 3 unfolding probe [symmetric] by (cases "pe_sysfs e = 0") (simp_all add: unfold S_def)
      moreover have "S = k_sysfs k \<or> S = insert m (k_sysfs k)" by (simp add: S_def)
      ultimately show ?thesis using bound m(2) m'(1) by blast
    qed
  qed
qed

lemma mod_invI:
  assumes "k_ida k = minors k" "k_cdevs k = minors k" "k_devnodes k = minors k" "k_sysfs k \<subseteq> minors k"
    "minors k \<subseteq> {..<DEEPSPAN_MAX_DEVICES}" "k_vqs k = dom (k_ddevs k)"
    "\<And>v w x y. k_ddevs k v = Some x \<Longrightarrow> k_ddevs k w = Some y \<Longrightarrow> dd_minor x = dd_minor y \<Longrightarrow> v = w"
    "\<And>v x. k_ddevs k v = Some x \<Longrightarrow> quiet (dd_data x)" "k_orphans k = {#}"
    "dom (k_ddevs k) \<noteq> {} \<Longrightarrow> k_driver k" "k_class k = k_driver k" "k_chrdev_region k = k_driver k"
  shows "mod_inv k"
  unfolding mod_inv_def using assms by blast

lemma mod_invD:
  assumes "mod_inv k"
  shows "k_ida k = minors k" "k_cdevs k = minors k" "k_devnodes k = minors k" "k_sysfs k \<subseteq> minors k"
    "minors k \<subseteq> {..<DEEPSPAN_MAX_DEVICES}" "k_vqs k = dom (k_ddevs k)"
    "k_ddevs k v = Some x \<Longrightarrow> k_ddevs k w = Some y \<Longrightarrow> dd_minor x = dd_minor y \<Longrightarrow> v = w"
    "k_ddevs k v = Some x \<Longrightarrow> quiet (dd_data x)" "k_orphans k = {#}"
    "k_ddevs k v = Some x \<Longrightarrow> k_driver k" "k_class k = k_driver k" "k_chrdev_region k = k_driver k"
  using assms unfolding mod_inv_def by blast+

lemma mod_inv_probe:
  assumes "ida_spec IDA" and inv: "mod_inv k" and "k_driver k" and v: "k_ddevs k v = None"
    and "deepspan_virtio_probe IDA e v k = (r, k')"
  shows "mod_inv k'"
  using assms(1,2,4,5)
proof (cases rule: probe_cases)
  case (failed R)
  then show ?thesis using inv by (simp add: mod_inv_def minors_def)
next
  case (bound m S)
  note facts = mod_invD [OF inv]
  have minors': "minors k' = insert m (minors k)" by (simp add: bound(5) minors_def ran_map_upd [of "k_ddevs k" v, OF v])
  have new: "dd_minor x \<noteq> m" if "k_ddevs k w = Some x" for w x
    using bound(2) that by (auto simp: minors_def ran_def)
  have ddevs': "k_ddevs k' = (k_ddevs k)(v \<mapsto> \<lparr>dd_minor = m, dd_data = ddev_init False\<rparr>)" by (simp add: bound(5))
  show ?thesis
  proof (rule mod_invI)
    show "u = w" if "k_ddevs k' u = Some x" "k_ddevs k' w = Some y" "dd_minor x = dd_minor y" for u w x y
      using that facts(7) [of u x w y] new [of u x] new [of w y] unfolding ddevs' by (auto split: if_splits)
    show "quiet (dd_data x)" if "k_ddevs k' u = Some x" for u x
      using that facts(8) [of u x] unfolding ddevs'
      by (auto simp: quiet_def ddev_init_def in_flight_def split: if_splits)
    show "k_sysfs k' \<subseteq> minors k'" unfolding minors' using facts(4) bound(4) by (auto simp: bound(5))
    show "minors k' \<subseteq> {..<DEEPSPAN_MAX_DEVICES}" unfolding minors' using facts(5) bound(3) by simp
    show "k_ida k' = minors k'" "k_cdevs k' = minors k'" "k_devnodes k' = minors k'"
      unfolding minors' using facts(1-3) by (simp_all add: bound(5))
    show "k_vqs k' = dom (k_ddevs k')" using facts(6) by (simp add: bound(5))
  qed (use assms(3) facts(9,11,12) in \<open>simp_all add: bound(5)\<close>)
qed

subsection \<open>Remove\<close>

lemma quiet_cleanup: "quiet d \<Longrightarrow> in_flight (deepspan_vqueue_cleanup tx_runs rx_runs d) = []"
  by (simp add: quiet_def deepspan_vqueue_cleanup_def cancel_rx_work_def cancel_tx_work_def in_flight_def
      deepspan_rx_work_fn_def deepspan_tx_work_fn_def tx_drain.simps tx_get_buf_def tx_enable_cb_def
      split: work_state.split)

lemma remove_spec:
  assumes inv: "mod_inv k" and v: "k_ddevs k v = Some dd"
  shows "deepspan_virtio_remove tx_runs rx_runs v k =
    k\<lparr>k_sysfs := k_sysfs k - {dd_minor dd}, k_devnodes := k_devnodes k - {dd_minor dd},
      k_cdevs := k_cdevs k - {dd_minor dd}, k_ida := k_ida k - {dd_minor dd}, k_ready := k_ready k - {v},
      k_vqs := k_vqs k - {v}, k_ddevs := (k_ddevs k)(v := None)\<rparr>"
proof -
  have "quiet (dd_data dd)" using inv v by (simp add: mod_inv_def)
  then show ?thesis
    using v by (simp add: deepspan_virtio_remove_def quiet_cleanup deepspan_sysfs_exit_def deepspan_cdev_del_def)
qed

lemma minors_remove:
  assumes "mod_inv k" and v: "k_ddevs k v = Some dd"
  shows "dd_minor ` ran ((k_ddevs k)(v := None)) = minors k - {dd_minor dd}"
proof (rule set_eqI)
  fix m
  have left: "m \<in> dd_minor ` ran ((k_ddevs k)(v := None)) \<longleftrightarrow> (\<exists>w y. w \<noteq> v \<and> k_ddevs k w = Some y \<and> m = dd_minor y)"
    by (auto simp: ran_def)
  have right: "m \<in> minors k \<longleftrightarrow> (\<exists>w y. k_ddevs k w = Some y \<and> m = dd_minor y)"
    by (auto simp: minors_def ran_def)
  have "w \<noteq> v \<longleftrightarrow> dd_minor y \<noteq> dd_minor dd" if "k_ddevs k w = Some y" for w y
    using mod_invD(7) [OF assms(1) that v] that v by auto
  then show "m \<in> dd_minor ` ran ((k_ddevs k)(v := None)) \<longleftrightarrow> m \<in> minors k - {dd_minor dd}"
    unfolding left Diff_iff right singleton_iff by metis
qed

lemma mod_inv_remove:
  assumes inv: "mod_inv k" and v: "k_ddevs k v = Some dd"
  shows "mod_inv (deepspan_virtio_remove tx_runs rx_runs v k)"
proof -
  let ?k = "deepspan_virtio_remove tx_runs rx_runs v k"
  note facts = mod_invD [OF inv] and spec = remove_spec [OF inv v]
  have minors': "minors ?k = minors k - {dd_minor dd}"
    using minors_remove [OF inv v] by (simp add: spec minors_def)
  have ddevs': "k_ddevs ?k = (k_ddevs k)(v := None)" by (simp add: spec)
  show ?thesis
  proof (rule mod_invI)
    show "u = w" if "k_ddevs ?k u = Some x" "k_ddevs ?k w = Some y" "dd_minor x = dd_minor y" for u w x y
      using that facts(7) [of u x w y] unfolding ddevs' by (auto split: if_splits)
    show "quiet (dd_data x)" if "k_ddevs ?k u = Some x" for u x
      using that facts(8) [of u x] unfolding ddevs' by (auto split: if_splits)
    show "k_sysfs ?k \<subseteq> minors ?k" "minors ?k \<subseteq> {..<DEEPSPAN_MAX_DEVICES}"
      using facts(4,5) unfolding minors' by (auto simp: spec)
    show "k_ida ?k = minors ?k" "k_cdevs ?k = minors ?k" "k_devnodes ?k = minors ?k"
      unfolding minors' using facts(1-3) by (simp_all add: spec)
    show "k_vqs ?k = dom (k_ddevs ?k)" using facts(6) by (simp add: spec)
  qed (use facts(9,11,12) facts(10) [OF v] in \<open>simp_all add: spec\<close>)
qed

subsection \<open>Unload\<close>

definition remove_all :: "(nat \<times> bool \<times> bool) list \<Rightarrow> kernel \<Rightarrow> kernel" where
  "remove_all vs k = foldl (\<lambda>k (v, tx_runs, rx_runs). deepspan_virtio_remove tx_runs rx_runs v k) k vs"

lemma remove_total:
  assumes "mod_inv k"
  shows "mod_inv (deepspan_virtio_remove t r v k) \<and> k_driver (deepspan_virtio_remove t r v k) = k_driver k \<and>
    k_ready (deepspan_virtio_remove t r v k) - {v} = k_ready k - {v} \<and>
    k_ddevs (deepspan_virtio_remove t r v k) = (k_ddevs k)(v := None)"
proof (cases "k_ddevs k v")
  case None
  then show ?thesis using assms by (simp add: deepspan_virtio_remove_def fun_upd_idem)
next
  case (Some dd)
  then show ?thesis using assms mod_inv_remove [OF assms Some] by (simp add: remove_spec [OF assms Some])
qed

lemma remove_all_spec:
  "mod_inv k \<Longrightarrow> mod_inv (remove_all vs k) \<and> k_driver (remove_all vs k) = k_driver k \<and>
     k_ready (remove_all vs k) - fst ` set vs = k_ready k - fst ` set vs \<and>
     k_ddevs (remove_all vs k) = k_ddevs k |` (- fst ` set vs)"
proof (induction vs arbitrary: k)
  case Nil
  then show ?case by (simp add: remove_all_def)
next
  case (Cons a vs)
  obtain v t r where a: "a = (v, t, r)" by (cases a)
  note one = remove_total [OF Cons.prems, of t r v]
  have all: "remove_all (a # vs) k = remove_all vs (deepspan_virtio_remove t r v k)" by (simp add: remove_all_def a)
  note rest = Cons.IH [of "deepspan_virtio_remove t r v k"]
  have "(k_ddevs k)(v := None) |` (- fst ` set vs) = k_ddevs k |` (- fst ` set (a # vs))"
    by (auto simp: a restrict_map_def fun_eq_iff)
  moreover have "k_ready (remove_all (a # vs) k) - fst ` set (a # vs) = k_ready k - fst ` set (a # vs)"
    using one rest unfolding all by (auto simp: a)
  ultimately show ?case using one rest unfolding all by metis
qed

lemma mod_inv_no_devices:
  assumes "mod_inv k" "k_ddevs k = Map.empty" "k_driver k"
  shows "k = kernel_boot\<lparr>k_chrdev_region := True, k_class := True, k_driver := True, k_ready := k_ready k\<rparr>"
  using assms by (simp add: mod_inv_def minors_def kernel_boot_def)

lemma exit_spec:
  assumes inv: "mod_inv k" and "k_driver k" and "fst ` set vs = dom (k_ddevs k)"
  shows "deepspan_exit vs k = kernel_boot\<lparr>k_ready := k_ready (deepspan_exit vs k)\<rparr>"
    and "k_ready (deepspan_exit vs k) - dom (k_ddevs k) = k_ready k - dom (k_ddevs k)"
proof -
  note all = remove_all_spec [OF inv, of vs]
  have "k_ddevs (remove_all vs k) = Map.empty" using all assms(3) by (auto simp: restrict_map_def fun_eq_iff)
  then have eq: "remove_all vs k = kernel_boot\<lparr>k_chrdev_region := True, k_class := True, k_driver := True,
      k_ready := k_ready (remove_all vs k)\<rparr>"
    using all mod_inv_no_devices assms(2) by blast
  have exit: "deepspan_exit vs k = (remove_all vs k)\<lparr>k_driver := False, k_class := False, k_chrdev_region := False, k_ida := {}\<rparr>"
    by (simp add: deepspan_exit_def remove_all_def)
  show "deepspan_exit vs k = kernel_boot\<lparr>k_ready := k_ready (deepspan_exit vs k)\<rparr>"
    unfolding exit by (subst eq) (simp add: kernel_boot_def)
  show "k_ready (deepspan_exit vs k) - dom (k_ddevs k) = k_ready k - dom (k_ddevs k)"
    unfolding exit using all assms(3) by simp
qed

subsection \<open>Every reachable state is well formed\<close>

lemma mod_inv_run:
  assumes "xa_alloc_spec XA" and inv: "mod_inv k" and v: "k_ddevs k v = Some dd"
    and "kd_step XA (dd_data dd, C) (d', C')"
  shows "mod_inv (k\<lparr>k_ddevs := (k_ddevs k)(v \<mapsto> dd\<lparr>dd_data := d'\<rparr>)\<rparr>)"
proof -
  let ?k = "k\<lparr>k_ddevs := (k_ddevs k)(v \<mapsto> dd\<lparr>dd_data := d'\<rparr>)\<rparr>"
  note facts = mod_invD [OF inv]
  have d': "quiet d'" using quiet_step [OF assms(1) facts(8) [OF v] assms(4)] by simp
  have same: "\<exists>y. k_ddevs k u = Some y \<and> dd_minor y = dd_minor x" if "k_ddevs ?k u = Some x" for u x
    using that v by (auto split: if_splits)
  have kept: "\<exists>x. k_ddevs ?k u = Some x \<and> dd_minor x = dd_minor y" if "k_ddevs k u = Some y" for u y
    using that v by (cases "u = v") auto
  have minors': "minors ?k = minors k"
  proof (rule set_eqI)
    have in_minors: "m \<in> minors k \<longleftrightarrow> (\<exists>u x. k_ddevs k u = Some x \<and> dd_minor x = m)" for m k
      by (auto simp: minors_def ran_def)
    show "m \<in> minors ?k \<longleftrightarrow> m \<in> minors k" for m
      unfolding in_minors using same kept by metis
  qed
  show ?thesis
  proof (rule mod_invI)
    show "u = w" if "k_ddevs ?k u = Some x" "k_ddevs ?k w = Some y" "dd_minor x = dd_minor y" for u w x y
      using same [OF that(1)] same [OF that(2)] that(3) facts(7) by metis
    show "quiet (dd_data x)" if "k_ddevs ?k u = Some x" for u x
      using that d' facts(8) [of u x] by (auto split: if_splits)
  qed (use facts(1-6,9,11,12) facts(10) [OF v] v in \<open>auto simp: minors' simp del: fun_upd_apply\<close>)
qed

lemma mod_inv_init:
  assumes inv: "mod_inv k" and "\<not> k_driver k" and "deepspan_init e k = (r, k')"
  shows "mod_inv k'" and "r \<noteq> 0 \<Longrightarrow> k' = k"
proof -
  have "k_chrdev_region k = False" "k_class k = False" using mod_invD(11,12) [OF inv] assms(2) by simp_all
  then have k': "k' = k \<or> r = 0 \<and> k' = k\<lparr>k_chrdev_region := True, k_class := True, k_driver := True\<rparr>"
    using assms(3) by (auto simp: deepspan_init_def Let_def split: if_splits)
  then show "r \<noteq> 0 \<Longrightarrow> k' = k" by blast
  have "mod_inv (k\<lparr>k_chrdev_region := True, k_class := True, k_driver := True\<rparr>)"
    using inv by (simp add: mod_inv_def minors_def)
  then show "mod_inv k'" using inv k' by blast
qed

lemma mod_step_inv:
  assumes XA: "xa_alloc_spec XA" and IDA: "ida_spec IDA" and inv: "mod_inv k" and step: "mod_step XA IDA k k'"
  shows "mod_inv k'"
  using step
proof (cases rule: mod_step.cases)
  case (unload vs)
  then show ?thesis using exit_spec(1) [OF inv unload(2,3)] mod_inv_boot by metis
qed (use inv mod_inv_init(1) mod_inv_probe [OF IDA] mod_inv_run [OF XA] mod_inv_remove in blast)+

interpretation mm: invariant_machine "\<lambda>k. k = kernel_boot" "mod_step XA IDA"
    "\<lambda>k. xa_alloc_spec XA \<and> ida_spec IDA \<longrightarrow> mod_inv k" for XA IDA
proof
  fix k k'
  show "k = kernel_boot \<Longrightarrow> xa_alloc_spec XA \<and> ida_spec IDA \<longrightarrow> mod_inv k"
    using mod_inv_boot [of "k_ready kernel_boot"] by simp
  show "xa_alloc_spec XA \<and> ida_spec IDA \<longrightarrow> mod_inv k \<Longrightarrow> mod_step XA IDA k k' \<Longrightarrow>
      xa_alloc_spec XA \<and> ida_spec IDA \<longrightarrow> mod_inv k'"
    using mod_step_inv by blast
qed

lemma mod_reach_inv: "xa_alloc_spec XA \<Longrightarrow> ida_spec IDA \<Longrightarrow> mod_reach XA IDA k \<Longrightarrow> mod_inv k"
  unfolding mod_reach_def using mm.reachable_inv by blast

subsection \<open>An allocator and a state, for the examples\<close>

definition ida_lowest :: ida_alloc where
  "ida_lowest s m = (case find (\<lambda>i. i \<notin> s) [0..<Suc m] of None \<Rightarrow> Inl (- 28) | Some i \<Rightarrow> Inr i)"

lemma ida_lowest_spec: "ida_spec ida_lowest"
  by (auto simp: ida_spec_def ida_lowest_def find_Some_iff nth_append simp del: upt_Suc split: option.splits)

definition all_ok :: probe_env where
  "all_ok = \<lparr>pe_kzalloc = True, pe_find_vqs = 0, pe_cdev_add = 0, pe_device_create = 0, pe_sysfs = 0\<rparr>"

definition loaded :: kernel where
  "loaded = kernel_boot\<lparr>k_chrdev_region := True, k_class := True, k_driver := True\<rparr>"

lemma loaded_reach: "mod_reach xa_lowest ida_lowest loaded"
proof -
  have "deepspan_init \<lparr>ie_chrdev = 0, ie_class = 0, ie_register = 0\<rparr> kernel_boot = (0, loaded)"
    by (simp add: deepspan_init_def loaded_def)
  then show ?thesis using mod_reach_step [OF mod_reach_boot mod_step.load] by (simp add: kernel_boot_def)
qed

definition one_bound :: kernel where
  "one_bound = snd (deepspan_virtio_probe ida_lowest all_ok 3 loaded)"

lemma one_bound: "deepspan_virtio_probe ida_lowest all_ok 3 loaded = (0, one_bound)"
  "k_ddevs one_bound = [3 \<mapsto> \<lparr>dd_minor = 0, dd_data = ddev_init False\<rparr>]" "k_driver one_bound"
  by (simp_all add: one_bound_def deepspan_virtio_probe_def deepspan_cdev_add_def ida_lowest_def all_ok_def loaded_def
      kernel_boot_def deepspan_vqueue_init_def deepspan_sysfs_init_def Let_def upt_conv_Cons ddev_init_def
      del: upt_Suc)

lemma one_bound_reach: "mod_reach xa_lowest ida_lowest one_bound"
  using mod_reach_step [OF loaded_reach mod_step.probe [OF _ _ one_bound(1)]]
  by (simp add: loaded_def kernel_boot_def)

subsection \<open>Properties\<close>

text \<open>
  C25. Whatever the order in which the module is loaded, devices appear, run, disappear and
  the module is unloaded, the bound devices have different minors below 16, the allocator,
  the character devices and the device nodes are exactly those minors, the virtqueues are
  those of the bound devices, and devices exist only while the driver is registered.
\<close>

theorem module_well_formed:
  assumes "xa_alloc_spec XA" and "ida_spec IDA" and "mod_reach XA IDA k"
  shows "k_ida k = minors k \<and> k_cdevs k = minors k \<and> k_devnodes k = minors k \<and> k_sysfs k \<subseteq> minors k \<and>
    minors k \<subseteq> {..<DEEPSPAN_MAX_DEVICES} \<and> k_vqs k = dom (k_ddevs k) \<and>
    card (dom (k_ddevs k)) = card (minors k) \<and> card (dom (k_ddevs k)) \<le> DEEPSPAN_MAX_DEVICES \<and>
    (dom (k_ddevs k) \<noteq> {} \<longrightarrow> k_driver k \<and> k_class k \<and> k_chrdev_region k)"
proof -
  have inv: "mod_inv k" using mod_reach_inv assms by blast
  note facts = mod_invD [OF inv]
  have "bij_betw (\<lambda>v. dd_minor (the (k_ddevs k v))) (dom (k_ddevs k)) (minors k)"
  proof (rule bij_betw_imageI)
    show "inj_on (\<lambda>v. dd_minor (the (k_ddevs k v))) (dom (k_ddevs k))"
      using facts(7) by (fastforce intro: inj_onI)
    show "(\<lambda>v. dd_minor (the (k_ddevs k v))) ` dom (k_ddevs k) = minors k"
      by (force simp: minors_def ran_def dom_def image_def)
  qed
  then have card: "card (dom (k_ddevs k)) = card (minors k)" by (rule bij_betw_same_card)
  moreover have "card (minors k) \<le> DEEPSPAN_MAX_DEVICES" using card_mono [OF _ facts(5)] by simp
  moreover have "dom (k_ddevs k) \<noteq> {} \<longrightarrow> k_driver k \<and> k_class k \<and> k_chrdev_region k"
    using facts(10-12) by blast
  ultimately show ?thesis using facts(1-6) by simp
qed

theorem module_well_formed_witness: "minors one_bound \<subseteq> {..<16} \<and> card (dom (k_ddevs one_bound)) = card (minors one_bound)"
  using module_well_formed [OF xa_lowest_spec ida_lowest_spec one_bound_reach] by (simp add: DEEPSPAN_MAX_DEVICES_def)



end
