(* ===== verification/Driver_Stack.thy ===== *)
theory Driver_Stack
  imports Session_Manager Kernel_Module
begin

text \<open>
  The real path put together: the character device of the kernel module
  (\<^verbatim>\<open>deepspan_main.c\<close>, its file operations) under the user library and the application
  framework.  The virtual file system is not part of the repository: what it does with a file
  operation a driver leaves out is the parameter \<open>vfs_ioctl\<close> with its documented behaviour
  \<open>vfs_ioctl_spec\<close>.
\<close>

subsection \<open>File operations\<close>

datatype ioctl_cmd = DEEPSPAN_IOC_GET_VERSION | DEEPSPAN_IOC_SUBMIT deepspan_req

text \<open>An open file; \<open>f_private\<close> names the device object (by its virtio device).\<close>

record kfile =
  f_private :: "nat option"

definition deepspan_open :: "nat \<Rightarrow> kfile \<Rightarrow> int \<times> kfile" where
  "deepspan_open v filp = (0, filp\<lparr>f_private := Some v\<rparr>)"

definition deepspan_release :: "nat \<Rightarrow> kfile \<Rightarrow> int" where
  "deepspan_release v filp = 0"

definition deepspan_uring_cmd ::
    "xa_alloc \<Rightarrow> issue_env \<Rightarrow> nat \<Rightarrow> deepspan_req \<Rightarrow> deepspan_device \<Rightarrow> int \<times> deepspan_device" where
  "deepspan_uring_cmd XA e cmd ureq d = uring_cmd_issue XA e cmd ureq d"

record file_operations =
  fop_open :: "(nat \<Rightarrow> kfile \<Rightarrow> int \<times> kfile) option"
  fop_release :: "(nat \<Rightarrow> kfile \<Rightarrow> int) option"
  fop_uring_cmd :: "(xa_alloc \<Rightarrow> issue_env \<Rightarrow> nat \<Rightarrow> deepspan_req \<Rightarrow> deepspan_device \<Rightarrow> int \<times> deepspan_device) option"
  fop_llseek_noop :: bool
  fop_unlocked_ioctl :: "(kfile \<Rightarrow> ioctl_cmd \<Rightarrow> int \<times> u32) option"

definition deepspan_fops :: file_operations where
  "deepspan_fops =
     \<lparr>fop_open = Some deepspan_open, fop_release = Some deepspan_release,
      fop_uring_cmd = Some deepspan_uring_cmd, fop_llseek_noop = True, fop_unlocked_ioctl = None\<rparr>"

text \<open>
  \<^verbatim>\<open>ioctl\<close> on a file: the errno (negative) or result and the word written back.  A driver without
  the operation gets \<^verbatim>\<open>-ENOTTY\<close>; one with it is called.
\<close>

definition ENOTTY :: int where "ENOTTY = 25"

type_synonym vfs = "file_operations \<Rightarrow> kfile \<Rightarrow> ioctl_cmd \<Rightarrow> int \<times> u32"

definition vfs_ioctl_spec :: "vfs \<Rightarrow> bool" where
  "vfs_ioctl_spec V \<longleftrightarrow>
     (\<forall>fops f c. fop_unlocked_ioctl fops = None \<longrightarrow> V fops f c = (- ENOTTY, 0)) \<and>
     (\<forall>fops f c g. fop_unlocked_ioctl fops = Some g \<longrightarrow> V fops f c = g f c)"

text \<open>The C library turns a negative result into -1.\<close>

definition libc_ret :: "int \<Rightarrow> int" where
  "libc_ret r = (if r < 0 then -1 else r)"

text \<open>
  System calls of a process on this kernel, for descriptors of a driver with operations \<open>fops\<close>:
  a path opens if it is the node of a registered device (\<open>node\<close> gives its minor), \<open>new_fd\<close> is the
  descriptor handed out, \<open>owner\<close> the device object behind a minor.
\<close>

definition driver_usys ::
    "vfs \<Rightarrow> file_operations \<Rightarrow> (string \<Rightarrow> nat option) \<Rightarrow> (kernel uworld \<Rightarrow> int) \<Rightarrow> (int \<Rightarrow> kernel \<Rightarrow> kfile) \<Rightarrow> kernel usys" where
  "driver_usys V fops node new_fd file_of =
     \<lparr>open_ret = (\<lambda>path w. case node path of
                    None \<Rightarrow> -1
                  | Some minor \<Rightarrow> if minor \<in> k_devnodes (u_kern w) then new_fd w else -1),
      ioctl_version = (\<lambda>fd w. case V fops (file_of fd (u_kern w)) DEEPSPAN_IOC_GET_VERSION of (r, v) \<Rightarrow> (libc_ret r, v)),
      ioctl_submit = (\<lambda>fd req w. (libc_ret (fst (V fops (file_of fd (u_kern w)) (DEEPSPAN_IOC_SUBMIT req))), u_kern w))\<rparr>"

subsection \<open>The user library on the driver\<close>

lemma device_open_on_driver:
  assumes "vfs_ioctl_spec V" and "\<And>w. 0 \<le> new_fd w \<longrightarrow> new_fd w \<notin> u_fds w"
  shows "\<exists>e. DeepspanDevice_open (driver_usys V deepspan_fops node new_fd file_of) path w = (Inl e, w) \<and>
    (e = DeviceOpenFailed \<or> e = IoError)"
proof -
  have "V deepspan_fops f c = (- ENOTTY, 0)" for f c
    using assms(1) by (simp add: vfs_ioctl_spec_def deepspan_fops_def)
  then show ?thesis
    using assms(2) [of w]
    by (auto simp: DeepspanDevice_open_def driver_usys_def u_open_def u_close_def libc_ret_def ENOTTY_def Let_def
        split: option.splits)
qed

text \<open>
  C37.  The application framework cannot start on the driver as it is: the driver has no ioctl
  operation, \<^verbatim>\<open>DeepspanDevice::open\<close> insists on the version ioctl, so creating a session manager
  for at least one device path fails on every kernel state, for existing and missing nodes,
  without leaving a descriptor; with no path it succeeds.  A driver that answers the version
  ioctl with the version its own sysfs attribute shows lets the library open an existing node.
\<close>

theorem session_manager_cannot_start:
  assumes "vfs_ioctl_spec V" and "\<And>w. 0 \<le> new_fd w \<longrightarrow> new_fd w \<notin> u_fds w"
  shows "(\<exists>r. SessionManager_create (driver_usys V deepspan_fops node new_fd file_of) U cfg w = (r, w) \<and>
      (case r of Inl e \<Rightarrow> device_paths cfg \<noteq> [] \<and> (e = DeviceOpenFailed \<or> e = IoError)
       | Inr sm \<Rightarrow> device_paths cfg = [] \<and> sm_pool sm = [])) \<and>
    (\<forall>path minor. node path = Some minor \<longrightarrow> minor \<in> k_devnodes (u_kern w) \<longrightarrow> 0 \<le> new_fd w \<longrightarrow>
       fst (DeepspanDevice_open (driver_usys V (deepspan_fops\<lparr>fop_unlocked_ioctl := Some (\<lambda>f c. (0, of_nat DEEPSPAN_UAPI_VERSION))\<rparr>)
              node new_fd file_of) path w) =
         Inr \<lparr>dev_fd = new_fd w, kernel_uapi_version = of_nat DEEPSPAN_UAPI_VERSION\<rparr>)"
proof
  show "\<exists>r. SessionManager_create (driver_usys V deepspan_fops node new_fd file_of) U cfg w = (r, w) \<and>
      (case r of Inl e \<Rightarrow> device_paths cfg \<noteq> [] \<and> (e = DeviceOpenFailed \<or> e = IoError)
       | Inr sm \<Rightarrow> device_paths cfg = [] \<and> sm_pool sm = [])"
  proof (cases "device_paths cfg")
    case Nil
    then show ?thesis by (simp add: SessionManager_create_def DevicePool_create_def)
  next
    case (Cons path paths)
    then show ?thesis
      using device_open_on_driver [OF assms, of node file_of path w]
      by (auto simp: SessionManager_create_def DevicePool_create_def entries_destroy_def)
  qed
next
  let ?fops = "deepspan_fops\<lparr>fop_unlocked_ioctl := Some (\<lambda>f c. (0, of_nat DEEPSPAN_UAPI_VERSION))\<rparr>"
  have "V ?fops f c = (0, of_nat DEEPSPAN_UAPI_VERSION)" for f c
    using assms(1) by (simp add: vfs_ioctl_spec_def)
  then show "\<forall>path minor. node path = Some minor \<longrightarrow> minor \<in> k_devnodes (u_kern w) \<longrightarrow> 0 \<le> new_fd w \<longrightarrow>
       fst (DeepspanDevice_open (driver_usys V ?fops node new_fd file_of) path w) =
         Inr \<lparr>dev_fd = new_fd w, kernel_uapi_version = of_nat DEEPSPAN_UAPI_VERSION\<rparr>"
    by (auto simp: DeepspanDevice_open_def driver_usys_def u_open_def libc_ret_def DEEPSPAN_UAPI_VERSION_def
        DEEPSPAN_UAPI_VERSION_MIN_def Let_def)
qed

definition example_vfs :: vfs where
  "example_vfs fops f c = (case fop_unlocked_ioctl fops of None \<Rightarrow> (- ENOTTY, 0) | Some g \<Rightarrow> g f c)"

definition first_fd :: "kernel uworld \<Rightarrow> int" where
  "first_fd w = (if 3 \<in> u_fds w then -1 else 3)"

definition example_usys :: "kernel usys" where
  "example_usys = driver_usys example_vfs deepspan_fops [''/dev/hwip0'' \<mapsto> 0] first_fd (\<lambda>fd k. \<lparr>f_private = Some 3\<rparr>)"

definition example_sm_config :: sm_Config where
  "example_sm_config = \<lparr>device_paths = [''/dev/hwip0''], uring_queue_depth = 8, cb_config = cb_Config_default\<rparr>"

theorem session_manager_cannot_start_witness:
  "\<forall>U. \<exists>e. SessionManager_create example_usys U example_sm_config \<lparr>u_fds = {}, u_kern = one_bound\<rparr> =
     (Inl e, \<lparr>u_fds = {}, u_kern = one_bound\<rparr>)"
proof
  fix U
  let ?w = "\<lparr>u_fds = {}, u_kern = one_bound\<rparr>"
  have "vfs_ioctl_spec example_vfs" by (simp add: vfs_ioctl_spec_def example_vfs_def)
  moreover have "\<And>w. 0 \<le> first_fd w \<longrightarrow> first_fd w \<notin> u_fds w" by (simp add: first_fd_def)
  ultimately obtain r where "SessionManager_create example_usys U example_sm_config ?w = (r, ?w)"
    "case r of Inl e \<Rightarrow> device_paths example_sm_config \<noteq> [] \<and> (e = DeviceOpenFailed \<or> e = IoError)
     | Inr sm \<Rightarrow> device_paths example_sm_config = [] \<and> sm_pool sm = []"
    unfolding example_usys_def using session_manager_cannot_start [THEN conjunct1] by blast
  then show "\<exists>e. SessionManager_create example_usys U example_sm_config ?w = (Inl e, ?w)"
    by (cases r) (simp_all add: example_sm_config_def)
qed

end
