(* ===== verification/Uring_Stack.thy ===== *)
theory Uring_Stack
  imports Driver_Stack
begin

text \<open>
  A request on the real path: \<^verbatim>\<open>AsyncClient::submit_and_wait\<close> over io_uring and the driver of
  \<^verbatim>\<open>deepspan_iouring.c\<close> and \<^verbatim>\<open>deepspan_vqueue.c\<close>.  The io_uring core and liburing are not part of
  the repository: \<open>uring_cmd_spec\<close> states what they do with a command of a driver, \<open>sqe_abi\<close> where
  the fields of a submission entry lie.
\<close>

subsection \<open>The command as the driver reads it\<close>

text \<open>
  \<^verbatim>\<open>io_uring_sqe_cmd\<close> points at byte 48 of the 64-byte entry; the driver reads a
  \<^verbatim>\<open>deepspan_cmd_req\<close> there.  \<open>beyond\<close> are the bytes of memory after the entry.
\<close>

definition cmd_req_of :: "u8 list \<Rightarrow> deepspan_req" where
  "cmd_req_of bs =
     \<lparr>rq_opcode = word32_at 0 bs, rq_flags = word32_at 4 bs, rq_data_ptr = le_word64 (take 8 (drop 8 bs)),
      rq_data_len = word32_at 16 bs, rq_timeout_ms = word32_at 20 bs\<rparr>"

definition sqe_cmd_offset :: nat where "sqe_cmd_offset = 48"

definition sqe_cmd :: "(sqe \<Rightarrow> u8 list) \<Rightarrow> u8 list \<Rightarrow> sqe \<Rightarrow> deepspan_req" where
  "sqe_cmd img beyond e = cmd_req_of (drop sqe_cmd_offset (img e) @ beyond)"

text \<open>
  The kernel's layout of an entry prepared by \<^verbatim>\<open>io_uring_prep_rw\<close>: descriptor, address, length
  and token at their offsets, and a cleared command area of 16 bytes.
\<close>

definition sqe_abi :: "(sqe \<Rightarrow> u8 list) \<Rightarrow> bool" where
  "sqe_abi img \<longleftrightarrow> (\<forall>e.
     length (img e) = 64 \<and> img e ! 0 = sqe_opcode e \<and>
     take 4 (drop 4 (img e)) = le_bytes32 (of_int (sqe_fd e)) \<and>
     take 4 (drop 8 (img e)) = le_bytes32 (sqe_cmd_op e) \<and>
     take 8 (drop 16 (img e)) = le_bytes64 (sqe_addr e) \<and>
     take 4 (drop 24 (img e)) = le_bytes32 (of_nat (sqe_len e)) \<and>
     take 8 (drop 32 (img e)) = le_bytes64 (sqe_user_data e) \<and>
     drop 48 (img e) = replicate 16 0)"

lemma cmd_req_round_trip: "cmd_req_of (cmd_req_bytes r @ bs) = r"
proof -
  have "word32_at 16 ((le_bytes32 a @ le_bytes32 b @ le_bytes64 c) @ le_bytes32 d @ le_bytes32 e @ bs) = d"
    "word32_at 20 ((le_bytes32 a @ le_bytes32 b @ le_bytes64 c @ le_bytes32 d) @ le_bytes32 e @ bs) = e"
    "word32_at 4 (le_bytes32 a @ le_bytes32 b @ bs) = b" for a b c d e bs
    by (simp_all del: append_assoc)
  then show ?thesis by (simp add: cmd_req_of_def cmd_req_bytes_def)
qed

text \<open>A cleared command area reads as opcode, flags and data pointer zero.\<close>

lemma word32_at_zero: "off + 4 \<le> n \<Longrightarrow> word32_at off (replicate n 0 @ bs) = 0"
  by (simp add: word32_at_def nth_append le_word32_def)

lemma le_word64_zero: "le_word64 (replicate n 0) = 0"
  by (induction n) (simp_all add: le_word64_def)

lemma cleared_cmd_req:
  "rq_opcode (cmd_req_of (replicate 16 0 @ bs)) = 0" "rq_flags (cmd_req_of (replicate 16 0 @ bs)) = 0"
  "rq_data_ptr (cmd_req_of (replicate 16 0 @ bs)) = 0"
  using le_word64_zero [of 8] by (simp_all add: cmd_req_of_def word32_at_zero)

text \<open>The entry \<^verbatim>\<open>AsyncClient::submit\<close> writes for a request at address \<open>req\<close>.\<close>

definition client_sqe :: "u8 \<Rightarrow> int \<Rightarrow> u64 \<Rightarrow> u64 \<Rightarrow> sqe" where
  "client_sqe op fd req user_data =
     (prep_uring_cmd op fd DEEPSPAN_CMD_OP req (struct_size deepspan_req_layout))\<lparr>sqe_user_data := user_data\<rparr>"

text \<open>A command without a data pointer is embedded in the buffer for the firmware.\<close>

lemma issue_embeds_command:
  assumes "uring_cmd_issue XA e cmd ureq d = (- EIOCBQUEUED, d')" and "xa_alloc_spec XA"
    and "vq_add_ret e \<noteq> - EIOCBQUEUED" and "rq_data_ptr ureq = 0"
  shows "\<exists>a r n. kz_req e = Some a \<and> kreqs d' a = Some r \<and> kr_cmd r = cmd \<and>
    kr_buf r = take n (cmd_req_bytes ureq) @ replicate (n - length (cmd_req_bytes ureq)) 0"
proof -
  have "XA al p \<noteq> Inl (- EIOCBQUEUED)" for al p
    using assms(2) by (cases al) (auto simp: xa_alloc_spec_def EIOCBQUEUED_def)
  then show ?thesis
    using assms(1,3,4)
    by (fastforce simp: uring_cmd_issue_def Let_def ENOMEM_def EIOCBQUEUED_def
        split: option.splits if_splits sum.splits)
qed

lemma cleared_bytes:
  "rq_opcode r = 0 \<Longrightarrow> rq_flags r = 0 \<Longrightarrow> rq_data_ptr r = 0 \<Longrightarrow> take 16 (cmd_req_bytes r) = replicate 16 0"
  by (simp add: cmd_req_bytes_def le_bytes32_def le_bytes64_def upt_conv_Cons eval_nat_numeral)


definition example_img :: "sqe \<Rightarrow> u8 list" where
  "example_img e =
     [sqe_opcode e, 0, 0, 0] @ le_bytes32 (of_int (sqe_fd e)) @ le_bytes32 (sqe_cmd_op e) @ replicate 4 0 @
     le_bytes64 (sqe_addr e) @ le_bytes32 (of_nat (sqe_len e)) @ replicate 4 0 @ le_bytes64 (sqe_user_data e) @
     replicate 24 0"

lemma example_img_abi: "sqe_abi example_img"
  by (simp add: sqe_abi_def example_img_def)


subsection \<open>io_uring around the driver\<close>

text \<open>
  What can be observed of the kernel: the device object, the completions of a ring and the
  token of the entry behind a command.
\<close>

record 'k uring_view =
  v_dev :: "'k \<Rightarrow> deepspan_device"
  v_cq :: "nat \<Rightarrow> 'k \<Rightarrow> cqe list"
  v_data :: "'k \<Rightarrow> nat \<Rightarrow> u64"

text \<open>
  The device, the interrupts and the work functions run in the background: steps of the
  driver that accept no command.  Each call of \<^verbatim>\<open>io_uring_cmd_done\<close> they make, recorded in the
  log of the device, posts a completion with the token of its command.
\<close>

definition kd_background :: "xa_alloc \<Rightarrow> deepspan_device \<Rightarrow> deepspan_device \<Rightarrow> bool" where
  "kd_background XA d d' \<longleftrightarrow> (\<forall>C. kd_step XA (d, C) (d', C))"

definition posted :: "(nat \<Rightarrow> u64) \<Rightarrow> (nat \<times> int \<times> u64) list \<Rightarrow> cqe list" where
  "posted data new = map (\<lambda>(cmd, status, res2). \<lparr>cqe_res = status, cqe_user_data = data cmd\<rparr>) new"

definition runs_posting :: "xa_alloc \<Rightarrow> 'k uring_view \<Rightarrow> nat \<Rightarrow> deepspan_device \<Rightarrow> cqe list \<Rightarrow> 'k \<Rightarrow> bool" where
  "runs_posting XA V r d cs k' \<longleftrightarrow>
     (\<exists>new. (kd_background XA)\<^sup>*\<^sup>* d (v_dev V k') \<and> cmd_done_log (v_dev V k') = cmd_done_log d @ new \<and>
        v_cq V r k' = cs @ posted (v_data V k') new)"

text \<open>
  Submitting an entry calls the driver's \<^verbatim>\<open>uring_cmd\<close> operation with the command of the entry.  A
  result other than \<^verbatim>\<open>-EIOCBQUEUED\<close> is posted as the completion; a queued command keeps its token.
\<close>

definition submits_to_driver ::
    "xa_alloc \<Rightarrow> (sqe \<Rightarrow> u8 list) \<Rightarrow> 'k uring_view \<Rightarrow> nat \<Rightarrow> sqe \<Rightarrow> 'k \<Rightarrow> 'k \<Rightarrow> bool" where
  "submits_to_driver XA img V r e k k' \<longleftrightarrow>
     (\<exists>env cmd beyond res d'.
        (\<forall>a. kz_req env = Some a \<longrightarrow> kreqs (v_dev V k) a = None) \<and> vq_add_ret env \<le> 0 \<and> vq_add_ret env \<noteq> - EIOCBQUEUED \<and>
        deepspan_uring_cmd XA env cmd (sqe_cmd img beyond e) (v_dev V k) = (res, d') \<and>
        (if res = - EIOCBQUEUED then v_data V k' cmd = sqe_user_data e \<and> runs_posting XA V r d' (v_cq V r k) k'
         else v_dev V k' = d' \<and> v_cq V r k' = v_cq V r k @ [\<lparr>cqe_res = res, cqe_user_data = sqe_user_data e\<rparr>]))"

definition uring_cmd_spec :: "xa_alloc \<Rightarrow> (sqe \<Rightarrow> u8 list) \<Rightarrow> 'k liburing \<Rightarrow> 'k uring_view \<Rightarrow> bool" where
  "uring_cmd_spec XA img U V \<longleftrightarrow>
     (\<forall>r k slot k'. get_sqe U r k = (slot, k') \<longrightarrow> v_dev V k' = v_dev V k \<and> v_cq V r k' = v_cq V r k) \<and>
     (\<forall>r k slot e ret k'. ring_submit U r (write_sqe U r slot e k) = (ret, k') \<longrightarrow>
        (if ret < 0 then v_dev V k' = v_dev V k else submits_to_driver XA img V r e k k')) \<and>
     (\<forall>r k ret c k'. wait_cqe U r k = (ret, c, k') \<longrightarrow>
        v_data V k' = v_data V k \<and> runs_posting XA V r (v_dev V k) (v_cq V r k) k') \<and>
     (\<forall>r k ret c k'. peek_cqe U r k = (ret, c, k') \<longrightarrow> v_dev V k' = v_dev V k) \<and>
     (\<forall>r k. v_dev V (cqe_seen U r k) = v_dev V k)"

subsection \<open>Background runs\<close>

lemma background_inv:
  assumes "xa_alloc_spec XA" and "(kd_background XA)\<^sup>*\<^sup>* d d'" and "kd_inv (d, C)"
  shows "kd_inv (d', C)"
  using assms(2,3)
proof (induction rule: rtranclp_induct)
  case (step d1 d2)
  then have "kd_step XA (d1, C) (d2, C)" by (simp add: kd_background_def)
  then show ?case using kd_step_inv [OF assms(1)] step by blast
qed

text \<open>From an accepted command on an idle device: it is still in flight, or it is the one completion.\<close>

lemma one_command_outcome:
  assumes "kd_inv (d, add_mset cmd (image_mset fst (mset log)))" and "cmd_done_log d = log @ new"
  shows "new = [] \<or> (\<exists>status res2. new = [(cmd, status, res2)] \<and> in_flight d = [])"
proof -
  have "add_mset cmd {#} = image_mset fst (mset new) + image_mset (cmd_of d) (mset (in_flight d))"
    using kd_inv_facts(6) [OF assms(1)] assms(2) by simp
  then show ?thesis
    by (cases new) (auto simp: single_is_union add_mset_eq_single)
qed

lemma idle_outcome:
  assumes "kd_inv (d, image_mset fst (mset log))" and "cmd_done_log d = log @ new"
  shows "new = [] \<and> in_flight d = []"
  using kd_inv_facts(6) [OF assms(1)] assms(2) by simp

subsection \<open>A request through the whole path\<close>

lemma uring_specD:
  assumes "uring_cmd_spec XA img U V"
  shows "get_sqe U r k = (slot, k') \<Longrightarrow> v_dev V k' = v_dev V k \<and> v_cq V r k' = v_cq V r k"
    and "ring_submit U r (write_sqe U r sl e k) = (ret, k') \<Longrightarrow>
      (if ret < 0 then v_dev V k' = v_dev V k else submits_to_driver XA img V r e k k')"
    and "wait_cqe U r k = (ret, x, k') \<Longrightarrow>
      v_data V k' = v_data V k \<and> runs_posting XA V r (v_dev V k) (v_cq V r k) k'"
    and "uring_frame U r (v_dev V)"
  using assms by (simp_all add: uring_cmd_spec_def uring_frame_def)

lemma submit_to_driver:
  assumes "uring_cmd_spec XA img U V" and "AsyncClient_submit U c req user_data w = (res, w1)"
  shows "case res of Inl e \<Rightarrow> e = SubmitFailed \<and> v_dev V (u_kern w1) = v_dev V (u_kern w)
    | Inr _ \<Rightarrow> \<exists>k. v_dev V k = v_dev V (u_kern w) \<and> v_cq V (ac_ring c) k = v_cq V (ac_ring c) (u_kern w) \<and>
        submits_to_driver XA img V (ac_ring c) (client_sqe (op_uring_cmd U) (ac_device_fd c) req user_data) k (u_kern w1)"
proof -
  let ?r = "ac_ring c" and ?e = "client_sqe (op_uring_cmd U) (ac_device_fd c) req user_data"
  obtain slot k where g: "get_sqe U ?r (u_kern w) = (slot, k)" by fastforce
  note k = uring_specD(1) [OF assms(1) g]
  show ?thesis
  proof (cases slot)
    case None
    then show ?thesis using assms(2) g k by (auto simp: AsyncClient_submit_def)
  next
    case (Some s)
    obtain ret k1 where sub: "ring_submit U ?r (write_sqe U ?r s ?e k) = (ret, k1)" by fastforce
    then have "(res, w1) = (if ret < 0 then (Inl SubmitFailed, w\<lparr>u_kern := k1\<rparr>) else (Inr (), w\<lparr>u_kern := k1\<rparr>))"
      using assms(2) g Some by (simp add: AsyncClient_submit_def client_sqe_def Let_def)
    then show ?thesis using uring_specD(2) [OF assms(1) sub] k by (auto split: if_splits)
  qed
qed

lemma refused_negative:
  assumes "uring_cmd_issue XA env cmd ureq d = (res, d')" and "xa_alloc_spec XA"
    and "vq_add_ret env \<le> 0" and "res \<noteq> - EIOCBQUEUED"
  shows "res < 0"
proof -
  have "XA al p = Inl e \<Longrightarrow> e < 0" for al p e
    using assms(2) by (cases al) (auto simp: xa_alloc_spec_def)
  then show ?thesis
    using assms(1,3,4)
    by (fastforce simp: uring_cmd_issue_def Let_def ENOMEM_def EFAULT_def split: option.splits if_splits sum.splits)
qed

text \<open>The completions a waiting client finds after its command was refused or accepted on an idle device.\<close>

lemma idle_command:
  assumes XA: "xa_alloc_spec XA" and inv: "kd_inv (v_dev V k, C)" and idle: "in_flight (v_dev V k) = []" "v_cq V r k = []"
    and sub: "submits_to_driver XA img V r e k k1"
    and wait: "v_data V k2 = v_data V k1" "runs_posting XA V r (v_dev V k1) (v_cq V r k1) k2" "v_cq V r k2 \<noteq> []"
  shows "in_flight (v_dev V k2) = [] \<and>
    (\<exists>code < 0. v_cq V r k2 = [\<lparr>cqe_res = code, cqe_user_data = sqe_user_data e\<rparr>] \<and>
       cmd_done_log (v_dev V k2) = cmd_done_log (v_dev V k)) \<or>
    in_flight (v_dev V k2) = [] \<and> xa_flags_alloc (v_dev V k) \<and>
    (\<exists>cmd status res2. v_cq V r k2 = [\<lparr>cqe_res = status, cqe_user_data = sqe_user_data e\<rparr>] \<and>
       cmd_done_log (v_dev V k2) = cmd_done_log (v_dev V k) @ [(cmd, status, res2)])"
proof -
  let ?d = "v_dev V k" and ?C = "image_mset fst (mset (cmd_done_log (v_dev V k)))"
  have inv: "kd_inv (?d, ?C)" using inv kd_inv_facts(6) [OF inv] idle(1) by simp
  obtain env cmd beyond res d' where issue:
    "\<forall>a. kz_req env = Some a \<longrightarrow> kreqs ?d a = None" "vq_add_ret env \<le> 0" "vq_add_ret env \<noteq> - EIOCBQUEUED"
    "uring_cmd_issue XA env cmd (sqe_cmd img beyond e) ?d = (res, d')"
    "if res = - EIOCBQUEUED then v_data V k1 cmd = sqe_user_data e \<and> runs_posting XA V r d' (v_cq V r k) k1
     else v_dev V k1 = d' \<and> v_cq V r k1 = v_cq V r k @ [\<lparr>cqe_res = res, cqe_user_data = sqe_user_data e\<rparr>]"
    using sub unfolding submits_to_driver_def deepspan_uring_cmd_def by blast
  obtain new where new: "(kd_background XA)\<^sup>*\<^sup>* (v_dev V k1) (v_dev V k2)"
    "cmd_done_log (v_dev V k2) = cmd_done_log (v_dev V k1) @ new" "v_cq V r k2 = v_cq V r k1 @ posted (v_data V k2) new"
    using wait(2) unfolding runs_posting_def by blast
  show ?thesis using XA issue(1,3,4)
  proof (cases rule: issue_cases)
    case refused
    then have k1: "v_dev V k1 = ?d" "v_cq V r k1 = [\<lparr>cqe_res = res, cqe_user_data = sqe_user_data e\<rparr>]"
      using issue(5) idle(2) by simp_all
    have "kd_inv (v_dev V k2, ?C)" using background_inv [OF XA new(1)] inv k1(1) by simp
    from idle_outcome [OF this] new k1 refused_negative [OF issue(4) XA issue(2) refused(1)]
    show ?thesis by (auto simp: posted_def)
  next
    case (queued a req_id buf)
    have log: "cmd_done_log d' = cmd_done_log ?d" using queued(5) by simp
    have "xa_flags_alloc ?d" using XA queued(4) by (cases "xa_flags_alloc ?d") (auto simp: xa_alloc_spec_def)
    have step: "kd_step XA (?d, ?C) (d', add_mset cmd ?C)"
      using kd_step.issue [where C = ?C, OF issue(1,3,4)] queued(1) by simp
    obtain new1 where new1: "(kd_background XA)\<^sup>*\<^sup>* d' (v_dev V k1)" "cmd_done_log (v_dev V k1) = cmd_done_log d' @ new1"
      "v_cq V r k1 = posted (v_data V k1) new1"
      using issue(5) queued(1) idle(2) by (auto simp: runs_posting_def)
    have "kd_inv (v_dev V k2, add_mset cmd ?C)"
      using background_inv [OF XA new(1) background_inv [OF XA new1(1) kd_step_inv [OF XA step inv]]] .
    moreover define all where "all = new1 @ new"
    then have all: "cmd_done_log (v_dev V k2) = cmd_done_log ?d @ all" "v_cq V r k2 = posted (v_data V k1) all"
      using new(2,3) new1(2,3) wait(1) log by (simp_all add: posted_def)
    ultimately have "all = [] \<or> (\<exists>status res2. all = [(cmd, status, res2)] \<and> in_flight (v_dev V k2) = [])"
      using one_command_outcome by blast
    moreover have "v_data V k1 cmd = sqe_user_data e" using issue(5) queued(1) by simp
    ultimately show ?thesis
      using wait(3) all \<open>xa_flags_alloc ?d\<close> by (auto simp: posted_def)
  qed
qed


subsection \<open>A kernel that behaves as specified, for the example\<close>

text \<open>One command at a time, at address 7; while the client waits, the device answers it.\<close>

record drv_kernel =
  dk_dev :: deepspan_device
  dk_cq :: "cqe list"
  dk_data :: "nat \<Rightarrow> u64"
  dk_slot :: "sqe option"

definition drv_view :: "drv_kernel uring_view" where
  "drv_view = \<lparr>v_dev = dk_dev, v_cq = (\<lambda>_. dk_cq), v_data = dk_data\<rparr>"

definition drv_env :: "deepspan_device \<Rightarrow> issue_env" where
  "drv_env d = (if kreqs d 7 = None then plain_env 7 else (plain_env 7)\<lparr>kz_req := None\<rparr>)"

definition drv_submit :: "drv_kernel \<Rightarrow> int \<times> drv_kernel" where
  "drv_submit k =
     (case dk_slot k of
        None \<Rightarrow> (-22, k)
      | Some e \<Rightarrow>
          (case deepspan_uring_cmd xa_lowest (drv_env (dk_dev k)) 5 (sqe_cmd example_img (replicate 8 0) e) (dk_dev k) of
             (res, d) \<Rightarrow>
               if res = - EIOCBQUEUED then (1, k\<lparr>dk_dev := d, dk_data := (dk_data k)(5 := sqe_user_data e)\<rparr>)
               else (1, k\<lparr>dk_dev := d, dk_cq := dk_cq k @ [\<lparr>cqe_res = res, cqe_user_data = sqe_user_data e\<rparr>]\<rparr>)))"

definition drv_serve :: "drv_kernel \<Rightarrow> drv_kernel" where
  "drv_serve k =
     (let d = dk_dev k in
      if 7 \<in> set (tx_avail d) \<and> tx_cb_enabled d \<and> tx_work d = Work_idle then
        let d' = tx_get_buf (vq_device_return 7 resp_bytes d)
        in k\<lparr>dk_dev := d', dk_cq := dk_cq k @ posted (dk_data k) (drop (length (cmd_done_log d)) (cmd_done_log d'))\<rparr>
      else k)"

definition drv_uring :: "drv_kernel liburing" where
  "drv_uring =
     \<lparr>op_uring_cmd = 46, queue_init = (\<lambda>_ k. (0, 0, k)), queue_exit = (\<lambda>_ k. k),
      get_sqe = (\<lambda>_ k. (Some 0, k)), write_sqe = (\<lambda>_ _ e k. k\<lparr>dk_slot := Some e\<rparr>),
      ring_submit = (\<lambda>_. drv_submit),
      wait_cqe = (\<lambda>_ k. case dk_cq (drv_serve k) of [] \<Rightarrow> (-4, \<lparr>cqe_res = 0, cqe_user_data = 0\<rparr>, drv_serve k)
                       | c # _ \<Rightarrow> (0, c, drv_serve k)),
      peek_cqe = (\<lambda>_ k. case dk_cq k of [] \<Rightarrow> (-11, None, k) | c # _ \<Rightarrow> (0, Some c, k)),
      cqe_seen = (\<lambda>_ k. k\<lparr>dk_cq := tl (dk_cq k)\<rparr>)\<rparr>"

lemma drv_serve_posts:
  "dk_data (drv_serve k) = dk_data k"
  "runs_posting xa_lowest drv_view r (dk_dev k) (dk_cq k) (drv_serve k)"
proof -
  let ?d = "dk_dev k" and ?d1 = "vq_device_return 7 resp_bytes (dk_dev k)"
  show data: "dk_data (drv_serve k) = dk_data k" by (simp add: drv_serve_def Let_def)
  show "runs_posting xa_lowest drv_view r ?d (dk_cq k) (drv_serve k)"
  proof (cases "7 \<in> set (tx_avail ?d) \<and> tx_cb_enabled ?d \<and> tx_work ?d = Work_idle")
    case True
    then have "tx_work ?d1 = Work_draining" by (simp add: vq_device_return_def vq_tx_cb_def Let_def)
    then have "kd_background xa_lowest ?d1 (tx_get_buf ?d1)" by (simp add: kd_background_def kd_step.drain)
    moreover have "kd_background xa_lowest ?d ?d1" using True by (simp add: kd_background_def kd_step.device)
    ultimately have run: "(kd_background xa_lowest)\<^sup>*\<^sup>* ?d (tx_get_buf ?d1)" by simp
    have "cmd_done_log ?d1 = cmd_done_log ?d" by (simp add: vq_device_return_def vq_tx_cb_def Let_def)
    then have "\<exists>new. cmd_done_log (tx_get_buf ?d1) = cmd_done_log ?d @ new" using tx_get_buf_log [of ?d1] by auto
    with run True show ?thesis
      by (auto simp: runs_posting_def drv_view_def drv_serve_def Let_def)
  next
    case False
    then have "drv_serve k = k" by (auto simp: drv_serve_def Let_def)
    then show ?thesis by (simp add: runs_posting_def drv_view_def posted_def)
  qed
qed

lemma drv_submits:
  assumes "dk_slot k = Some e"
  shows "submits_to_driver xa_lowest example_img drv_view r e k (snd (drv_submit k)) \<and> fst (drv_submit k) = 1"
proof -
  obtain res d where c: "deepspan_uring_cmd xa_lowest (drv_env (dk_dev k)) 5 (sqe_cmd example_img (replicate 8 0) e) (dk_dev k) = (res, d)"
    by fastforce
  have env: "\<forall>a. kz_req (drv_env (dk_dev k)) = Some a \<longrightarrow> kreqs (dk_dev k) a = None" "vq_add_ret (drv_env (dk_dev k)) = 0"
    by (simp_all add: drv_env_def plain_env_def)
  show ?thesis
    unfolding submits_to_driver_def
    using assms c env
    by (intro conjI exI [of _ "drv_env (dk_dev k)"] exI [of _ 5] exI [of _ "replicate 8 0"] exI [of _ res] exI [of _ d])
      (auto simp: drv_submit_def drv_view_def runs_posting_def posted_def EIOCBQUEUED_def)
qed

lemma drv_uring_completions: "uring_completions drv_uring (v_cq drv_view)"
proof -
  have "prefix (dk_cq k) (dk_cq (drv_serve k))" for k by (simp add: drv_serve_def Let_def)
  then have "dk_cq (drv_serve k) = c # cs \<Longrightarrow> prefix (dk_cq k) (c # cs)" for k c cs by metis
  then show ?thesis
    by (auto simp: uring_completions_def drv_uring_def drv_view_def split: list.splits)
qed

lemma drv_uring_spec: "uring_cmd_spec xa_lowest example_img drv_uring drv_view"
proof -
  have sel: "get_sqe drv_uring r k = (Some 0, k)" "write_sqe drv_uring r slot e k = k\<lparr>dk_slot := Some e\<rparr>"
    "ring_submit drv_uring r k = drv_submit k" "cqe_seen drv_uring r k = k\<lparr>dk_cq := tl (dk_cq k)\<rparr>"
    "snd (snd (wait_cqe drv_uring r k)) = drv_serve k" "snd (snd (peek_cqe drv_uring r k)) = k"
    "v_dev drv_view = dk_dev" "v_cq drv_view r = dk_cq" "v_data drv_view = dk_data" for r k slot e
    by (simp_all add: drv_uring_def drv_view_def split: list.split)
  have upd: "dk_dev (k\<lparr>dk_slot := x\<rparr>) = dk_dev k" "dk_cq (k\<lparr>dk_slot := x\<rparr>) = dk_cq k" for k x by simp_all
  have slot: "submits_to_driver XA img drv_view r e (k\<lparr>dk_slot := x\<rparr>) k' = submits_to_driver XA img drv_view r e k k'"
    for XA img r e k x k'
    by (simp only: submits_to_driver_def sel(7-9) upd)
  have sub: "\<not> ret < 0 \<and> submits_to_driver xa_lowest example_img drv_view r e k k'"
    if "drv_submit (k\<lparr>dk_slot := Some e\<rparr>) = (ret, k')" for r k e ret k'
    using drv_submits [of "k\<lparr>dk_slot := Some e\<rparr>" e r] that by (simp add: slot)
  show ?thesis
    unfolding uring_cmd_spec_def sel(1-4,7-9)
  proof (intro conjI allI impI)
    fix r k ret and c :: "cqe option" and k'
    show "dk_dev k' = dk_dev k" if "peek_cqe drv_uring r k = (ret, c, k')" using that sel(6) [of r k] by simp
  next
    fix r k ret c k'
    show "dk_data k' = dk_data k" "runs_posting xa_lowest drv_view r (dk_dev k) (dk_cq k) k'"
      if "wait_cqe drv_uring r k = (ret, c, k')"
      using that sel(5) [of r k] drv_serve_posts(1) [of k] drv_serve_posts(2) [of r k] by auto
  qed (use sub in \<open>auto split: if_splits\<close>)
qed

definition drv_idle :: "drv_kernel uworld" where
  "drv_idle = \<lparr>u_fds = {3}, u_kern = \<lparr>dk_dev = ddev_init True, dk_cq = [], dk_data = (\<lambda>_. 0), dk_slot = None\<rparr>\<rparr>"

text \<open>The embedded command of an idle device is accepted, returned and completed with status 0.\<close>

lemma drv_run:
  "\<exists>w1 c k. AsyncClient_submit drv_uring loop_client 0x1000 0 drv_idle = (Inr (), w1) \<and>
     wait_cqe drv_uring 0 (u_kern w1) = (0, c, k) \<and> cmd_done_log (dk_dev k) = [(5, 0, 0x200000001)]"
proof -
  have "sqe_cmd example_img (replicate 8 0) e = \<lparr>rq_opcode = 0, rq_flags = 0, rq_data_ptr = 0, rq_data_len = 0, rq_timeout_ms = 0\<rparr>" for e
    by (simp add: sqe_cmd_def sqe_cmd_offset_def example_img_def cmd_req_of_def word32_at_def le_word32_def le_word64_zero [of 8, simplified] eval_nat_numeral le_word64_def)
  moreover have "result_of resp_bytes = (0, 0x200000001)"
    by (simp add: result_of_def resp_bytes_def word32_at_def le_word32_def)
  ultimately show ?thesis
    by (simp add: AsyncClient_submit_def drv_uring_def drv_idle_def loop_client_def drv_submit_def deepspan_uring_cmd_def
        drv_env_def uring_cmd_issue_def plain_env_def ddev_init_def kalloc_buf_def xa_lowest_free [simplified] drv_serve_def
        vq_device_return_def vq_tx_cb_def tx_get_buf_def tx_complete_def kfree_req_def kfree_buf_def posted_def Let_def)
qed


end
